(* ===== verification/Prelude.thy ===== *)
theory Prelude
  imports Main
begin

text \<open>
  Shared vocabulary of the development: the Go types the proxy works with (byte slices, errors,
  results), the functions of Go's \<^verbatim>\<open>strings\<close> package the sources call, UTF-8 validity, and the
  generic lemmas about them that the component theories rely on.

  A Go string or byte slice is a list of bytes, that is a HOL \<^typ>\<open>string\<close>. A slice can be
  \<^verbatim>\<open>nil\<close>, and the rewriter gives \<^verbatim>\<open>nil\<close> a meaning of its own (``no transformation''), so
  \<open>bytes\<close> keeps it apart from the empty slice.
\<close>

named_theorems go_string \<open>equations of the Go string functions\<close>
named_theorems text_closed \<open>closure properties of UTF-8 texts\<close>

section \<open>Byte slices, errors and results\<close>

type_synonym bytes = "string option"

definition bytes_str :: "bytes \<Rightarrow> string" where
  "bytes_str b = (case b of None \<Rightarrow> [] | Some s \<Rightarrow> s)"

definition bytes_len :: "bytes \<Rightarrow> nat" where
  "bytes_len b = length (bytes_str b)"

lemma bytes_str_simps [simp]: "bytes_str None = []" "bytes_str (Some s) = s"
  by (simp_all add: bytes_str_def)

lemma bytes_len_simps [simp]: "bytes_len None = 0" "bytes_len (Some s) = length s"
  by (simp_all add: bytes_len_def)

text \<open>
  Errors: the sentinel \<^verbatim>\<open>SkipItem\<close>, a plain error with its message, and an error wrapped by
  \<^verbatim>\<open>fmt.Errorf("...: %w", err)\<close>, which \<^verbatim>\<open>errors.Is\<close> looks through.
\<close>

datatype error = SkipItem | Errorf string | Wrapf string error

fun errors_Is_SkipItem :: "error \<Rightarrow> bool" where
  "errors_Is_SkipItem SkipItem = True"
| "errors_Is_SkipItem (Errorf msg) = False"
| "errors_Is_SkipItem (Wrapf msg e) = errors_Is_SkipItem e"

type_synonym 'a res = "error + 'a"

fun res_bind :: "'a res \<Rightarrow> ('a \<Rightarrow> 'b res) \<Rightarrow> 'b res" where
  "res_bind (Inl e) f = Inl e"
| "res_bind (Inr x) f = f x"

fun res_wrap :: "string \<Rightarrow> 'a res \<Rightarrow> 'a res" where
  "res_wrap msg (Inl e) = Inl (Wrapf msg e)"
| "res_wrap msg (Inr x) = Inr x"

lemma res_bind_eq_Inr:
  "res_bind m f = Inr y \<longleftrightarrow> (\<exists>x. m = Inr x \<and> f x = Inr y)"
  by (cases m) auto

lemma res_bind_assoc: "res_bind (res_bind m f) g = res_bind m (\<lambda>x. res_bind (f x) g)"
  by (cases m) auto

lemma res_bind_Inr_right [simp]: "res_bind m Inr = m"
  by (cases m) auto

section \<open>The \<^verbatim>\<open>strings\<close> package\<close>

definition HasPrefix :: "string \<Rightarrow> string \<Rightarrow> bool" where
  "HasPrefix s p \<longleftrightarrow> take (length p) s = p"

definition TrimPrefix :: "string \<Rightarrow> string \<Rightarrow> string" where
  "TrimPrefix s p = (if HasPrefix s p then drop (length p) s else s)"

definition HasSuffix :: "string \<Rightarrow> string \<Rightarrow> bool" where
  "HasSuffix s p \<longleftrightarrow> length p \<le> length s \<and> drop (length s - length p) s = p"

definition TrimSuffix :: "string \<Rightarrow> string \<Rightarrow> string" where
  "TrimSuffix s p = (if HasSuffix s p then take (length s - length p) s else s)"

definition CutPrefix :: "string \<Rightarrow> string \<Rightarrow> string \<times> bool" where
  "CutPrefix s p = (if HasPrefix s p then (drop (length p) s, True) else (s, False))"

fun Contains :: "string \<Rightarrow> string \<Rightarrow> bool" where
  "Contains [] p = (p = [])"
| "Contains (c # s) p = (HasPrefix (c # s) p \<or> Contains s p)"

text \<open>\<^verbatim>\<open>strings.Cut\<close> for the one-character separators of the sources: before, after, found.\<close>

fun Cut :: "string \<Rightarrow> char \<Rightarrow> string \<times> string \<times> bool" where
  "Cut [] sep = ([], [], False)"
| "Cut (c # s) sep =
     (if c = sep then ([], s, True)
      else (case Cut s sep of (b, a, f) \<Rightarrow> (c # b, a, f)))"

fun Split :: "string \<Rightarrow> char \<Rightarrow> string list" where
  "Split [] sep = [[]]"
| "Split (c # s) sep =
     (if c = sep then [] # Split s sep
      else (case Split s sep of [] \<Rightarrow> [[c]] | w # ws \<Rightarrow> (c # w) # ws))"

fun Join :: "string list \<Rightarrow> string \<Rightarrow> string" where
  "Join [] sep = []"
| "Join [w] sep = w"
| "Join (w # v # ws) sep = w @ sep @ Join (v # ws) sep"

definition Trim :: "string \<Rightarrow> char \<Rightarrow> string" where
  "Trim s c = rev (dropWhile ((=) c) (rev (dropWhile ((=) c) s)))"

text \<open>\<^verbatim>\<open>strings.Replace(s, old, new, -1)\<close> for a non-empty \<open>old\<close>, the only use in the sources.\<close>

function ReplaceAll :: "string \<Rightarrow> string \<Rightarrow> string \<Rightarrow> string" where
  "ReplaceAll [] old new = []"
| "ReplaceAll (c # s) old new =
     (if old \<noteq> [] \<and> HasPrefix (c # s) old
      then new @ ReplaceAll (drop (length old) (c # s)) old new
      else c # ReplaceAll s old new)"
  by pat_completeness auto
termination
  by (relation "measure (\<lambda>(s, old, new). length s)") auto

subsection \<open>Prefixes\<close>

lemma HasPrefix_Nil [simp]: "HasPrefix s []"
  by (simp add: HasPrefix_def)

lemma HasPrefix_append [simp]: "HasPrefix (p @ s) p"
  by (simp add: HasPrefix_def)

lemma HasPrefix_iff: "HasPrefix s p \<longleftrightarrow> (\<exists>r. s = p @ r)"
  unfolding HasPrefix_def by (metis append_eq_conv_conj)

lemma TrimPrefix_append [simp]: "TrimPrefix (p @ s) p = s"
  by (simp add: TrimPrefix_def)

lemma TrimPrefix_other: "\<not> HasPrefix s p \<Longrightarrow> TrimPrefix s p = s"
  by (simp add: TrimPrefix_def)

lemma TrimPrefix_Nil [simp]: "TrimPrefix s [] = s"
  by (simp add: TrimPrefix_def)

lemma append_TrimPrefix: "HasPrefix s p \<Longrightarrow> p @ TrimPrefix s p = s"
  by (auto simp: HasPrefix_iff)

lemma CutPrefix_found: "CutPrefix s p = (r, True) \<longleftrightarrow> s = p @ r"
  by (auto simp: CutPrefix_def HasPrefix_iff)

lemma HasSuffix_append [simp]: "HasSuffix (s @ p) p"
  by (simp add: HasSuffix_def)

lemma TrimSuffix_append [simp]: "TrimSuffix (s @ p) p = s"
  by (simp add: TrimSuffix_def)

lemma Contains_append: "Contains (s @ p @ r) p"
proof (induction s)
  case Nil
  have "HasPrefix (p @ r) p" by simp
  then show ?case by (cases "p @ r") simp_all
qed simp

subsection \<open>Cut, Split and Join\<close>

lemma Cut_eq:
  "Cut s sep = (takeWhile (\<lambda>c. c \<noteq> sep) s, tl (dropWhile (\<lambda>c. c \<noteq> sep) s), sep \<in> set s)"
  by (induction s) simp_all

lemma Cut_none [simp]: "sep \<notin> set s \<Longrightarrow> Cut s sep = (s, [], False)"
  by (induction s) auto

lemma Cut_not_found: "Cut s sep = (b, a, False) \<longleftrightarrow> sep \<notin> set s \<and> b = s \<and> a = []"
proof (cases "sep \<in> set s")
  case True
  then show ?thesis by (simp add: Cut_eq)
qed auto

lemma Cut_found: "Cut s sep = (b, a, True) \<longleftrightarrow> sep \<notin> set b \<and> s = b @ sep # a"
proof
  assume eq: "Cut s sep = (b, a, True)"
  then have d: "dropWhile (\<lambda>c. c \<noteq> sep) s = sep # a"
    by (cases "dropWhile (\<lambda>c. c \<noteq> sep) s") (auto simp: Cut_eq dropWhile_eq_Cons_conv)
  from eq have b: "b = takeWhile (\<lambda>c. c \<noteq> sep) s" by (simp add: Cut_eq)
  have "s = b @ sep # a"
    using takeWhile_dropWhile_id [of "\<lambda>c. c \<noteq> sep" s] d b by simp
  then show "sep \<notin> set b \<and> s = b @ sep # a"
    using b by (auto dest: set_takeWhileD)
next
  assume "sep \<notin> set b \<and> s = b @ sep # a"
  moreover have "\<And>c. c \<in> set b \<Longrightarrow> sep \<notin> set b \<Longrightarrow> c \<noteq> sep" by auto
  ultimately show "Cut s sep = (b, a, True)"
    by (auto simp: Cut_eq takeWhile_append2 dropWhile_append2)
qed

lemma Cut_append [simp]: "sep \<notin> set b \<Longrightarrow> Cut (b @ sep # a) sep = (b, a, True)"
  by (simp add: Cut_found)

lemma Cut_cases:
  obtains (found) b a where "Cut s sep = (b, a, True)" "s = b @ sep # a" "sep \<notin> set b"
    | (missing) "Cut s sep = (s, [], False)" "sep \<notin> set s"
proof (cases "Cut s sep")
  case (fields b a f)
  then show thesis
    using found missing by (cases f) (auto simp: Cut_found Cut_not_found)
qed

lemma Split_not_Nil [simp]: "Split s sep \<noteq> []"
  by (cases s) (simp_all split: list.split)

lemma Split_Cons:
  "Split (c # s) sep =
     (if c = sep then [] # Split s sep else (c # hd (Split s sep)) # tl (Split s sep))"
  by (cases "Split s sep") simp_all

declare Split.simps(2) [simp del]

lemma Split_no_sep: "w \<in> set (Split s sep) \<Longrightarrow> sep \<notin> set w"
proof (induction s arbitrary: w)
  case (Cons c s)
  have "hd (Split s sep) \<in> set (Split s sep)" and "set (tl (Split s sep)) \<subseteq> set (Split s sep)"
    by (auto dest: list.set_sel(2) [rotated])
  with Cons show ?case by (auto simp: Split_Cons split: if_splits)
qed simp

lemma Split_single: "sep \<notin> set s \<Longrightarrow> Split s sep = [s]"
  by (induction s) (auto simp: Split_Cons)

lemma Split_append: "sep \<notin> set w \<Longrightarrow> Split (w @ sep # s) sep = w # Split s sep"
  by (induction w) (auto simp: Split_Cons)

lemma Join_Cons: "ws \<noteq> [] \<Longrightarrow> Join (w # ws) sep = w @ sep @ Join ws sep"
  by (cases ws) auto

lemma Split_Join:
  "ws \<noteq> [] \<Longrightarrow> (\<forall>w \<in> set ws. sep \<notin> set w) \<Longrightarrow> Split (Join ws [sep]) sep = ws"
  by (induction ws "[sep]" rule: Join.induct) (auto simp: Split_single Split_append)

lemma Join_Split: "Join (Split s sep) [sep] = s"
proof (induction s)
  case Nil
  then show ?case by simp
next
  case (Cons c s)
  obtain w ws where ws: "Split s sep = w # ws"
    by (cases "Split s sep") auto
  with Cons show ?case by (cases ws) (simp_all add: Split_Cons)
qed

section \<open>UTF-8\<close>

text \<open>
  A JSON encoder stores a Go string as it is only when the string is valid UTF-8 (an invalid
  byte becomes U+FFFD). \<open>utf8\<close> is the validity of RFC 3629, which Go's \<^verbatim>\<open>utf8.ValidString\<close> has.
\<close>

definition cont_byte :: "char \<Rightarrow> bool" where
  "cont_byte c \<longleftrightarrow> 128 \<le> (of_char c :: nat) \<and> (of_char c :: nat) < 192"

definition ascii_byte :: "char \<Rightarrow> bool" where
  "ascii_byte c \<longleftrightarrow> (of_char c :: nat) < 128"

definition lead2 :: "char \<Rightarrow> bool" where
  "lead2 a \<longleftrightarrow> 194 \<le> (of_char a :: nat) \<and> (of_char a :: nat) < 224"

definition lead3 :: "char \<Rightarrow> char \<Rightarrow> bool" where
  "lead3 a b \<longleftrightarrow> (let n = (of_char a :: nat); m = (of_char b :: nat)
     in 224 \<le> n \<and> n < 240 \<and> (n = 224 \<longrightarrow> 160 \<le> m) \<and> (n = 237 \<longrightarrow> m < 160))"

definition lead4 :: "char \<Rightarrow> char \<Rightarrow> bool" where
  "lead4 a b \<longleftrightarrow> (let n = (of_char a :: nat); m = (of_char b :: nat)
     in 240 \<le> n \<and> n < 245 \<and> (n = 240 \<longrightarrow> 144 \<le> m) \<and> (n = 244 \<longrightarrow> m < 144))"

fun utf8_head :: "string \<Rightarrow> nat" where
  "utf8_head (a # s) =
     (if ascii_byte a then 1
      else (case s of
        [] \<Rightarrow> 0
      | b # s' \<Rightarrow>
          if \<not> cont_byte b then 0
          else if lead2 a then 2
          else (case s' of
            [] \<Rightarrow> 0
          | c # s'' \<Rightarrow>
              if \<not> cont_byte c then 0
              else if lead3 a b then 3
              else (case s'' of
                [] \<Rightarrow> 0
              | d # _ \<Rightarrow> if cont_byte d \<and> lead4 a b then 4 else 0))))"
| "utf8_head [] = 0"

function utf8 :: "string \<Rightarrow> bool" where
  "utf8 s = (if s = [] then True else if utf8_head s = 0 then False
     else utf8 (drop (utf8_head s) s))"
  by pat_completeness auto
termination
  by (relation "measure length") auto

declare utf8.simps [simp del]

lemma utf8_Nil [simp]: "utf8 []"
  by (simp add: utf8.simps)

lemma utf8_step: "utf8_head s \<noteq> 0 \<Longrightarrow> utf8 s \<longleftrightarrow> utf8 (drop (utf8_head s) s)"
  by (subst utf8.simps) auto

lemma utf8_stuck: "utf8_head s = 0 \<Longrightarrow> utf8 s \<longleftrightarrow> s = []"
  by (subst utf8.simps) auto

lemma utf8_ascii [simp]: "ascii_byte c \<Longrightarrow> utf8 (c # s) \<longleftrightarrow> utf8 s"
  by (subst utf8.simps) auto

lemma utf8_head_append: "utf8_head s \<noteq> 0 \<Longrightarrow> utf8_head (s @ t) = utf8_head s \<and> utf8_head s \<le> length s"
proof -
  consider "s = []" | a where "s = [a]" | a b where "s = [a, b]" | a b c where "s = [a, b, c]"
    | a b c d r where "s = a # b # c # d # r"
    by (metis neq_Nil_conv)
  then show "utf8_head s \<noteq> 0 \<Longrightarrow> ?thesis"
    by cases (auto split: if_splits)
qed

lemma utf8_append_iff: "utf8 s \<Longrightarrow> utf8 (s @ t) \<longleftrightarrow> utf8 t"
proof (induction s rule: utf8.induct)
  case (1 s)
  show ?case
  proof (cases "s = []")
    case False
    with "1.prems" have h: "utf8_head s \<noteq> 0" and r: "utf8 (drop (utf8_head s) s)"
      using utf8_stuck utf8_step by blast+
    from "1.IH" [OF False h r] h show ?thesis
      using utf8_head_append [OF h, of t] utf8_step [of "s @ t"] by simp
  qed simp
qed

lemma utf8_append [text_closed, intro]: "utf8 s \<Longrightarrow> utf8 t \<Longrightarrow> utf8 (s @ t)"
  by (simp add: utf8_append_iff)

lemma utf8_TrimPrefix [text_closed]: "utf8 s \<Longrightarrow> utf8 p \<Longrightarrow> utf8 (TrimPrefix s p)"
  by (cases "HasPrefix s p") (auto simp: HasPrefix_iff utf8_append_iff TrimPrefix_other)

lemma cont_not_ascii: "cont_byte c \<Longrightarrow> \<not> ascii_byte c"
  by (simp add: cont_byte_def ascii_byte_def)

lemma utf8_head_cut:
  assumes "ascii_byte c" and "utf8_head (s @ c # t) \<noteq> 0" and "s \<noteq> []"
  shows "utf8_head s = utf8_head (s @ c # t)"
proof -
  from assms(1) have c: "\<not> cont_byte c"
    using cont_not_ascii by blast
  consider "s = []" | a where "s = [a]" | a b where "s = [a, b]" | a b d where "s = [a, b, d]"
    | a b d e r where "s = a # b # d # e # r"
    by (metis neq_Nil_conv)
  then show ?thesis
    using assms c by cases (auto split: if_splits)
qed

lemma utf8_cut:
  assumes "ascii_byte c" and "utf8 (s @ c # t)"
  shows "utf8 s \<and> utf8 t"
  using assms(2)
proof (induction s rule: utf8.induct)
  case (1 s)
  show ?case
  proof (cases "s = []")
    case True
    with "1.prems" assms(1) show ?thesis by simp
  next
    case False
    from "1.prems" have h: "utf8_head (s @ c # t) \<noteq> 0"
      using utf8_stuck [of "s @ c # t"] by auto
    then have eq: "utf8_head s = utf8_head (s @ c # t)"
      using utf8_head_cut [OF assms(1)] False by blast
    with h have hs: "utf8_head s \<noteq> 0" by simp
    then have le: "utf8_head s \<le> length s"
      using utf8_head_append by blast
    from "1.prems" h eq le have rest: "utf8 (drop (utf8_head s) s @ c # t)"
      using utf8_step [of "s @ c # t"] by simp
    from "1.IH" [OF False hs rest] hs show ?thesis using utf8_step by blast
  qed
qed

lemma utf8_Cut [text_closed]:
  assumes "ascii_byte sep" and "utf8 s" and "Cut s sep = (b, a, f)"
  shows "utf8 b" and "utf8 a"
proof -
  have "utf8 b \<and> utf8 a"
    using assms by (cases s sep rule: Cut_cases) (auto dest: utf8_cut)
  then show "utf8 b" and "utf8 a" by simp_all
qed

lemma ascii_seps [simp]:
  "ascii_byte (CHR ''/'')" "ascii_byte (CHR ''='')" "ascii_byte (CHR ''.'')" "ascii_byte (CHR ''~'')"
  by code_simp+

end
