(* ===== verification/Map_Indexer.thy ===== *)
theory Map_Indexer
  imports Prelude
begin

text \<open>
  Two-way string indexes. \<open>MapIndexer\<close> models \<^verbatim>\<open>pkg/rewriter/indexer/map_indexer.go\<close>; the locale
  \<open>pair_index\<close> is the contract it shares with the name indexes of \<^verbatim>\<open>prefixed_name_rewriter.go\<close>:
  adding a pair overwrites both directions at their own key. What both clients need, that an index
  built from pairs without a repeated side is a bijection, is proved once in the locale.
\<close>

section \<open>The contract\<close>

locale pair_index =
  fixes empty :: "'i"
    and add :: "'i \<Rightarrow> 'p \<Rightarrow> 'i"
    and orig :: "'p \<Rightarrow> string"
    and ren :: "'p \<Rightarrow> string"
    and fwd :: "'i \<Rightarrow> string \<Rightarrow> string option"
    and bwd :: "'i \<Rightarrow> string \<Rightarrow> string option"
  assumes fwd_empty: "fwd empty = Map.empty"
    and bwd_empty: "bwd empty = Map.empty"
    and fwd_add: "fwd (add i p) = (fwd i)(orig p \<mapsto> ren p)"
    and bwd_add: "bwd (add i p) = (bwd i)(ren p \<mapsto> orig p)"
begin

lemma fwd_fold: "fwd (foldl add i ps) = fwd i ++ map_of (rev (map (\<lambda>p. (orig p, ren p)) ps))"
  by (induction ps arbitrary: i) (simp_all add: fwd_add)

lemma bwd_fold: "bwd (foldl add i ps) = bwd i ++ map_of (rev (map (\<lambda>p. (ren p, orig p)) ps))"
  by (induction ps arbitrary: i) (simp_all add: bwd_add)

lemma fwd_build:
  assumes "distinct (map orig ps)"
  shows "fwd (foldl add empty ps) a = Some b \<longleftrightarrow> (\<exists>p \<in> set ps. a = orig p \<and> b = ren p)"
proof -
  let ?kvs = "rev (map (\<lambda>p. (orig p, ren p)) ps)"
  have "map fst ?kvs = rev (map orig ps)" by (simp add: rev_map comp_def)
  then have "distinct (map fst ?kvs)" using assms by (simp only: distinct_rev)
  then have "map_of ?kvs a = Some b \<longleftrightarrow> (a, b) \<in> set ?kvs" by (rule map_of_eq_Some_iff)
  then show ?thesis by (auto simp: fwd_fold fwd_empty)
qed

lemma bwd_build:
  assumes "distinct (map ren ps)"
  shows "bwd (foldl add empty ps) b = Some a \<longleftrightarrow> (\<exists>p \<in> set ps. a = orig p \<and> b = ren p)"
proof -
  let ?kvs = "rev (map (\<lambda>p. (ren p, orig p)) ps)"
  have "map fst ?kvs = rev (map ren ps)" by (simp add: rev_map comp_def)
  then have "distinct (map fst ?kvs)" using assms by (simp only: distinct_rev)
  then have "map_of ?kvs b = Some a \<longleftrightarrow> (b, a) \<in> set ?kvs" by (rule map_of_eq_Some_iff)
  then show ?thesis by (auto simp: bwd_fold bwd_empty)
qed

lemma build_bijection:
  assumes "distinct (map orig ps)" and "distinct (map ren ps)"
  shows "fwd (foldl add empty ps) a = Some b \<longleftrightarrow> bwd (foldl add empty ps) b = Some a"
  using fwd_build [OF assms(1)] bwd_build [OF assms(2)] by simp

lemma fwd_dom: "fwd (foldl add empty ps) a \<noteq> None \<longleftrightarrow> a \<in> set (map orig ps)"
  by (auto simp: fwd_fold fwd_empty map_of_eq_None_iff image_image)

lemma bwd_dom: "bwd (foldl add empty ps) b \<noteq> None \<longleftrightarrow> b \<in> set (map ren ps)"
  by (auto simp: bwd_fold bwd_empty map_of_eq_None_iff image_image)

lemma fwd_range: "fwd (foldl add empty ps) a = Some b \<Longrightarrow> \<exists>p \<in> set ps. a = orig p \<and> b = ren p"
  by (auto simp: fwd_fold fwd_empty dest!: map_of_SomeD)

lemma bwd_range: "bwd (foldl add empty ps) b = Some a \<Longrightarrow> \<exists>p \<in> set ps. a = orig p \<and> b = ren p"
  by (auto simp: bwd_fold bwd_empty dest!: map_of_SomeD)

end

section \<open>The indexer\<close>

record MapIndexer =
  mi_idx :: "string \<Rightarrow> string option"
  mi_reverse :: "string \<Rightarrow> string option"

definition NewMapIndexer :: MapIndexer where
  "NewMapIndexer = \<lparr> mi_idx = Map.empty, mi_reverse = Map.empty \<rparr>"

definition mi_AddPair :: "MapIndexer \<Rightarrow> string \<Rightarrow> string \<Rightarrow> MapIndexer" where
  "mi_AddPair m original renamed =
     m\<lparr> mi_idx := (mi_idx m)(original \<mapsto> renamed), mi_reverse := (mi_reverse m)(renamed \<mapsto> original) \<rparr>"

definition mi_Rename :: "MapIndexer \<Rightarrow> string \<Rightarrow> string" where
  "mi_Rename m original = (case mi_idx m original of Some renamed \<Rightarrow> renamed | None \<Rightarrow> original)"

definition mi_Restore :: "MapIndexer \<Rightarrow> string \<Rightarrow> string" where
  "mi_Restore m renamed = (case mi_reverse m renamed of Some original \<Rightarrow> original | None \<Rightarrow> renamed)"

definition mi_IsOriginal :: "MapIndexer \<Rightarrow> string \<Rightarrow> bool" where
  "mi_IsOriginal m original = (mi_idx m original \<noteq> None)"

definition mi_IsRenamed :: "MapIndexer \<Rightarrow> string \<Rightarrow> bool" where
  "mi_IsRenamed m original = (mi_reverse m original \<noteq> None)"

interpretation mi: pair_index NewMapIndexer "\<lambda>m p. mi_AddPair m (fst p) (snd p)" fst snd mi_idx mi_reverse
  by unfold_locales (simp_all add: NewMapIndexer_def mi_AddPair_def)

text \<open>
  An index filled by AddPair from pairs whose originals are pairwise different and whose
  renamed names are pairwise different: every original name survives a rename and a restore, every
  renamed name survives a restore and a rename, and the two membership tests hold for exactly the
  names that were added.
\<close>

theorem indexer_roundtrip:
  assumes "distinct (map fst ps)" and "distinct (map snd ps)"
    and "m = foldl (\<lambda>m p. mi_AddPair m (fst p) (snd p)) NewMapIndexer ps"
  shows "(\<forall>a \<in> fst ` set ps. mi_Restore m (mi_Rename m a) = a) \<and>
    (\<forall>b \<in> snd ` set ps. mi_Rename m (mi_Restore m b) = b) \<and>
    (\<forall>a. mi_IsOriginal m a \<longleftrightarrow> a \<in> fst ` set ps) \<and>
    (\<forall>b. mi_IsRenamed m b \<longleftrightarrow> b \<in> snd ` set ps)"
proof (intro conjI ballI allI)
  note bij = mi.build_bijection [OF assms(1,2), folded assms(3)]
  show "mi_Restore m (mi_Rename m a) = a" if "a \<in> fst ` set ps" for a
  proof -
    from that obtain b where "mi_idx m a = Some b" using mi.fwd_dom [of ps a] assms(3) by auto
    then show ?thesis using bij [THEN iffD1] by (simp add: mi_Rename_def mi_Restore_def)
  qed
  show "mi_Rename m (mi_Restore m b) = b" if "b \<in> snd ` set ps" for b
  proof -
    from that obtain a where "mi_reverse m b = Some a" using mi.bwd_dom [of ps b] assms(3) by auto
    then show ?thesis using bij [THEN iffD2] by (simp add: mi_Rename_def mi_Restore_def)
  qed
  show "mi_IsOriginal m a \<longleftrightarrow> a \<in> fst ` set ps" for a
    using mi.fwd_dom [of ps a] assms(3) by (simp add: mi_IsOriginal_def)
  show "mi_IsRenamed m b \<longleftrightarrow> b \<in> snd ` set ps" for b
    using mi.bwd_dom [of ps b] assms(3) by (simp add: mi_IsRenamed_def)
qed

theorem indexer_roundtrip_witness:
  "mi_Restore (mi_AddPair NewMapIndexer ''a.io'' ''x.io'') (mi_Rename (mi_AddPair NewMapIndexer ''a.io'' ''x.io'') ''a.io'') = ''a.io''"
  using indexer_roundtrip [of "[(''a.io'', ''x.io'')]" "mi_AddPair NewMapIndexer ''a.io'' ''x.io''"] by simp

end
