(* ===== verification/Name_Rewriter.thy ===== *)
theory Name_Rewriter
  imports Map_Indexer "HOL-Library.AList"
begin

text \<open>
  The rewriter of label, annotation and finalizer names,
  \<^verbatim>\<open>pkg/rewriter/prefixed_name_rewriter.go\<close>, with the replacement rules it is built from
  (\<^verbatim>\<open>MetadataReplace\<close> and \<^verbatim>\<open>MetadataReplaceRule\<close> of \<^verbatim>\<open>rules.go\<close>). A Go \<^verbatim>\<open>map[string]string\<close> that is
  only looked up is a partial function; one that is iterated is an association list in the order
  of the iteration.

  The theorems: the two directions are inverse to each other wherever both find a rule of the same
  sort, and a name that is already original on the server survives the trip to the client and back.
\<close>

section \<open>Model\<close>

datatype Action = Rename | Restore

record MetadataReplaceRule =
  mr_Original :: string
  mr_Renamed :: string
  mr_OriginalValue :: string
  mr_RenamedValue :: string

record MetadataReplace =
  mr_Prefixes :: "MetadataReplaceRule list"
  mr_Names :: "MetadataReplaceRule list"

record PrefixedNameRewriter =
  namesRenameIdx :: "string \<Rightarrow> string option"
  namesRestoreIdx :: "string \<Rightarrow> string option"
  prefixRenameIdx :: "string \<Rightarrow> string option"
  prefixRestoreIdx :: "string \<Rightarrow> string option"

definition PreservedPrefix :: string where
  "PreservedPrefix = ''preserved-original-''"

definition joinKV :: "string \<Rightarrow> string \<Rightarrow> string" where
  "joinKV name value = name @ ''='' @ value"

definition splitKV :: "string \<Rightarrow> string \<times> string" where
  "splitKV idxValue = (case Cut idxValue (CHR ''='') of (name, value, _) \<Rightarrow> (name, value))"

fun indexRules_from :: "(string \<Rightarrow> string option) \<Rightarrow> MetadataReplaceRule list \<Rightarrow> (string \<Rightarrow> string option)" where
  "indexRules_from idx [] = idx"
| "indexRules_from idx (rule # rules) =
     (if mr_OriginalValue rule \<noteq> [] \<and> mr_RenamedValue rule \<noteq> []
      then indexRules_from
        (idx(joinKV (mr_Original rule) (mr_OriginalValue rule) \<mapsto> mr_Renamed rule @ ''='' @ mr_RenamedValue rule)) rules
      else indexRules_from (idx(mr_Original rule \<mapsto> mr_Renamed rule)) rules)"

definition indexRules :: "MetadataReplaceRule list \<Rightarrow> (string \<Rightarrow> string option)" where
  "indexRules rules = indexRules_from Map.empty rules"

fun indexRulesReverse_from :: "(string \<Rightarrow> string option) \<Rightarrow> MetadataReplaceRule list \<Rightarrow> (string \<Rightarrow> string option)" where
  "indexRulesReverse_from idx [] = idx"
| "indexRulesReverse_from idx (rule # rules) =
     (if mr_OriginalValue rule \<noteq> [] \<and> mr_RenamedValue rule \<noteq> []
      then indexRulesReverse_from
        (idx(joinKV (mr_Renamed rule) (mr_RenamedValue rule) \<mapsto> mr_Original rule @ ''='' @ mr_OriginalValue rule)) rules
      else indexRulesReverse_from (idx(mr_Renamed rule \<mapsto> mr_Original rule)) rules)"

definition indexRulesReverse :: "MetadataReplaceRule list \<Rightarrow> (string \<Rightarrow> string option)" where
  "indexRulesReverse rules = indexRulesReverse_from Map.empty rules"

definition NewPrefixedNameRewriter :: "MetadataReplace \<Rightarrow> PrefixedNameRewriter" where
  "NewPrefixedNameRewriter replaceRules =
     \<lparr> namesRenameIdx = indexRules (mr_Names replaceRules),
       namesRestoreIdx = indexRulesReverse (mr_Names replaceRules),
       prefixRenameIdx = indexRules (mr_Prefixes replaceRules),
       prefixRestoreIdx = indexRulesReverse (mr_Prefixes replaceRules) \<rparr>"

definition isPreserved :: "string \<Rightarrow> bool" where
  "isPreserved name = HasPrefix name PreservedPrefix"

definition preserveName :: "string \<Rightarrow> string" where
  "preserveName name = PreservedPrefix @ name"

definition restorePreservedName :: "string \<Rightarrow> string" where
  "restorePreservedName name = TrimPrefix name PreservedPrefix"

definition pnr_isOriginal :: "PrefixedNameRewriter \<Rightarrow> string \<Rightarrow> string \<Rightarrow> bool" where
  "pnr_isOriginal p name value =
     (if value \<noteq> [] \<and> namesRenameIdx p (joinKV name value) \<noteq> None then True
      else if namesRenameIdx p name \<noteq> None then True
      else (case Cut name (CHR ''/'') of (prefix, _, found) \<Rightarrow>
        if \<not> found then False
        else if prefixRenameIdx p prefix \<noteq> None then True
        else False))"

definition pnr_rename :: "PrefixedNameRewriter \<Rightarrow> string \<Rightarrow> string \<Rightarrow> string \<times> string" where
  "pnr_rename p name value =
     (if isPreserved name then (restorePreservedName name, value)
      else (case (if value \<noteq> [] then namesRenameIdx p (joinKV name value) else None) of
        Some renamedIdxValue \<Rightarrow> splitKV renamedIdxValue
      | None \<Rightarrow>
          (case namesRenameIdx p name of
            Some renamed \<Rightarrow> (renamed, value)
          | None \<Rightarrow>
              (case Cut name (CHR ''/'') of (prefix, remainder, found) \<Rightarrow>
                if \<not> found then (name, value)
                else (case prefixRenameIdx p prefix of
                  Some renamedPrefix \<Rightarrow> (renamedPrefix @ ''/'' @ remainder, value)
                | None \<Rightarrow> (name, value))))))"

definition pnr_restore :: "PrefixedNameRewriter \<Rightarrow> string \<Rightarrow> string \<Rightarrow> string \<times> string" where
  "pnr_restore p name value =
     (if pnr_isOriginal p name value then (preserveName name, value)
      else (case (if value \<noteq> [] then namesRestoreIdx p (joinKV name value) else None) of
        Some restoredIdxValue \<Rightarrow> splitKV restoredIdxValue
      | None \<Rightarrow>
          (case namesRestoreIdx p name of
            Some restored \<Rightarrow> (restored, value)
          | None \<Rightarrow>
              (case Cut name (CHR ''/'') of (prefix, remainder, found) \<Rightarrow>
                if \<not> found then (name, value)
                else (case prefixRestoreIdx p prefix of
                  Some restoredPrefix \<Rightarrow> (restoredPrefix @ ''/'' @ remainder, value)
                | None \<Rightarrow> (name, value))))))"

definition pnr_Rewrite :: "PrefixedNameRewriter \<Rightarrow> string \<Rightarrow> Action \<Rightarrow> string" where
  "pnr_Rewrite p name action =
     (case action of Rename \<Rightarrow> fst (pnr_rename p name []) | Restore \<Rightarrow> fst (pnr_restore p name []))"

definition pnr_RewriteNameValue :: "PrefixedNameRewriter \<Rightarrow> string \<Rightarrow> string \<Rightarrow> Action \<Rightarrow> string \<times> string" where
  "pnr_RewriteNameValue p name value action =
     (case action of Rename \<Rightarrow> pnr_rename p name value | Restore \<Rightarrow> pnr_restore p name value)"

fun rewriteNameValues_loop ::
  "(string \<Rightarrow> string \<Rightarrow> string \<times> string) \<Rightarrow> string \<Rightarrow> string \<Rightarrow> string list \<Rightarrow> string list \<Rightarrow> string \<times> string list"
where
  "rewriteNameValues_loop fn name rwrName rwrValues [] = (rwrName, rwrValues)"
| "rewriteNameValues_loop fn name rwrName rwrValues (value # values) =
     (case fn name value of (n, v) \<Rightarrow>
       rewriteNameValues_loop fn name (if n \<noteq> name \<and> rwrName = name then n else rwrName) (rwrValues @ [v]) values)"

definition rewriteNameValues ::
  "string \<Rightarrow> string list \<Rightarrow> (string \<Rightarrow> string \<Rightarrow> string \<times> string) \<Rightarrow> string \<times> string list" where
  "rewriteNameValues name values fn = rewriteNameValues_loop fn name name [] values"

definition pnr_RewriteNameValues ::
  "PrefixedNameRewriter \<Rightarrow> string \<Rightarrow> string list \<Rightarrow> Action \<Rightarrow> string \<times> string list" where
  "pnr_RewriteNameValues p name values action =
     (if length values = 0 then (pnr_Rewrite p name action, values)
      else (case action of
        Rename \<Rightarrow> rewriteNameValues name values (pnr_rename p)
      | Restore \<Rightarrow> rewriteNameValues name values (pnr_restore p)))"

text \<open>A Go slice or map that may be \<^verbatim>\<open>nil\<close> is an option; a map is in the order of its iteration.\<close>

definition rewriteSlice ::
  "string list option \<Rightarrow> (string \<Rightarrow> string \<Rightarrow> string \<times> string) \<Rightarrow> string list option" where
  "rewriteSlice names fn = (case names of None \<Rightarrow> None | Some ns \<Rightarrow> Some (map (\<lambda>name. fst (fn name [])) ns))"

definition rewriteMap ::
  "(string \<times> string) list option \<Rightarrow> (string \<Rightarrow> string \<Rightarrow> string \<times> string) \<Rightarrow> (string \<times> string) list option" where
  "rewriteMap names fn =
     (case names of
       None \<Rightarrow> None
     | Some ns \<Rightarrow> Some (foldl (\<lambda>result (name, value).
         case fn name value of (rwrName, rwrValue) \<Rightarrow> AList.update rwrName rwrValue result) [] ns))"

definition pnr_RewriteSlice :: "PrefixedNameRewriter \<Rightarrow> string list option \<Rightarrow> Action \<Rightarrow> string list option" where
  "pnr_RewriteSlice p names action =
     (case action of Rename \<Rightarrow> rewriteSlice names (pnr_rename p) | Restore \<Rightarrow> rewriteSlice names (pnr_restore p))"

definition pnr_RewriteMap ::
  "PrefixedNameRewriter \<Rightarrow> (string \<times> string) list option \<Rightarrow> Action \<Rightarrow> (string \<times> string) list option" where
  "pnr_RewriteMap p names action =
     (case action of Rename \<Rightarrow> rewriteMap names (pnr_rename p) | Restore \<Rightarrow> rewriteMap names (pnr_restore p))"

definition pnr_Rename :: "PrefixedNameRewriter \<Rightarrow> string \<Rightarrow> string \<Rightarrow> string \<times> string" where
  "pnr_Rename p name value = pnr_rename p name value"

definition pnr_Restore :: "PrefixedNameRewriter \<Rightarrow> string \<Rightarrow> string \<Rightarrow> string \<times> string" where
  "pnr_Restore p name value = pnr_restore p name value"

definition pnr_RenameSlice :: "PrefixedNameRewriter \<Rightarrow> string list option \<Rightarrow> string list option" where
  "pnr_RenameSlice p names = rewriteSlice names (pnr_rename p)"

definition pnr_RestoreSlice :: "PrefixedNameRewriter \<Rightarrow> string list option \<Rightarrow> string list option" where
  "pnr_RestoreSlice p names = rewriteSlice names (pnr_restore p)"

definition pnr_RenameMap :: "PrefixedNameRewriter \<Rightarrow> (string \<times> string) list option \<Rightarrow> (string \<times> string) list option" where
  "pnr_RenameMap p names = rewriteMap names (pnr_rename p)"

definition pnr_RestoreMap :: "PrefixedNameRewriter \<Rightarrow> (string \<times> string) list option \<Rightarrow> (string \<times> string) list option" where
  "pnr_RestoreMap p names = rewriteMap names (pnr_restore p)"

section \<open>The indexes are a pair index\<close>

definition rule_orig_key :: "MetadataReplaceRule \<Rightarrow> string" where
  "rule_orig_key r = (if mr_OriginalValue r \<noteq> [] \<and> mr_RenamedValue r \<noteq> []
     then joinKV (mr_Original r) (mr_OriginalValue r) else mr_Original r)"

definition rule_ren_key :: "MetadataReplaceRule \<Rightarrow> string" where
  "rule_ren_key r = (if mr_OriginalValue r \<noteq> [] \<and> mr_RenamedValue r \<noteq> []
     then joinKV (mr_Renamed r) (mr_RenamedValue r) else mr_Renamed r)"

definition add_rule ::
  "(string \<Rightarrow> string option) \<times> (string \<Rightarrow> string option) \<Rightarrow> MetadataReplaceRule \<Rightarrow>
   (string \<Rightarrow> string option) \<times> (string \<Rightarrow> string option)" where
  "add_rule i r = ((fst i)(rule_orig_key r \<mapsto> rule_ren_key r), (snd i)(rule_ren_key r \<mapsto> rule_orig_key r))"

interpretation names: pair_index "(Map.empty, Map.empty)" add_rule rule_orig_key rule_ren_key fst snd
  by unfold_locales (simp_all add: add_rule_def)

lemma indexRules_foldl: "indexRules_from (fst i) rs = fst (foldl add_rule i rs)"
  by (induction rs arbitrary: i)
    (auto simp: add_rule_def rule_orig_key_def rule_ren_key_def joinKV_def simp flip: fun_upd_apply)

lemma indexRulesReverse_foldl: "indexRulesReverse_from (snd i) rs = snd (foldl add_rule i rs)"
  by (induction rs arbitrary: i)
    (auto simp: add_rule_def rule_orig_key_def rule_ren_key_def joinKV_def simp flip: fun_upd_apply)

lemma indexRules_index: "indexRules rs = fst (foldl add_rule (Map.empty, Map.empty) rs)"
  using indexRules_foldl [of "(Map.empty, Map.empty)" rs] by (simp add: indexRules_def)

lemma indexRulesReverse_index: "indexRulesReverse rs = snd (foldl add_rule (Map.empty, Map.empty) rs)"
  using indexRulesReverse_foldl [of "(Map.empty, Map.empty)" rs] by (simp add: indexRulesReverse_def)

text \<open>
  A set of rules is well formed when no two of them share a key on either side and the names have
  none of the separator \<open>sep\<close> their keys are cut at: \<^verbatim>\<open>=\<close> for names, \<^verbatim>\<open>/\<close> for prefixes.
\<close>

definition replace_rules_wf :: "char \<Rightarrow> MetadataReplaceRule list \<Rightarrow> bool" where
  "replace_rules_wf sep rs \<longleftrightarrow> distinct (map rule_orig_key rs) \<and> distinct (map rule_ren_key rs) \<and>
     list_all (\<lambda>r. sep \<notin> set (mr_Original r) \<and> sep \<notin> set (mr_Renamed r)) rs"

definition replace_wf :: "MetadataReplace \<Rightarrow> bool" where
  "replace_wf R \<longleftrightarrow> replace_rules_wf (CHR ''='') (mr_Names R) \<and> replace_rules_wf (CHR ''/'') (mr_Prefixes R) \<and>
     list_all (\<lambda>r. mr_OriginalValue r = [] \<or> mr_RenamedValue r = []) (mr_Prefixes R)"

text \<open>The shape of what an index holds: both sides carry a value, or neither does.\<close>

definition kv_shape :: "string \<Rightarrow> string \<Rightarrow> bool" where
  "kv_shape a b \<longleftrightarrow>
     (\<exists>o1 v1 o2 v2. a = joinKV o1 v1 \<and> b = joinKV o2 v2 \<and> v1 \<noteq> [] \<and> v2 \<noteq> [] \<and>
        CHR ''='' \<notin> set o1 \<and> CHR ''='' \<notin> set o2) \<or>
     CHR ''='' \<notin> set a \<and> CHR ''='' \<notin> set b"

definition inverse_index :: "(string \<Rightarrow> string option) \<Rightarrow> (string \<Rightarrow> string option) \<Rightarrow> bool" where
  "inverse_index f g \<longleftrightarrow> (\<forall>a b. f a = Some b \<longleftrightarrow> g b = Some a)"

lemma inverse_index_sym: "inverse_index f g \<Longrightarrow> inverse_index g f"
  by (simp add: inverse_index_def)

lemma inverse_indexD: "inverse_index f g \<Longrightarrow> f a = Some b \<Longrightarrow> g b = Some a"
  by (simp add: inverse_index_def)

lemma kv_shape_sym: "kv_shape a b \<Longrightarrow> kv_shape b a"
  unfolding kv_shape_def by blast

lemma index_inverse: "replace_rules_wf sep rs \<Longrightarrow> inverse_index (indexRules rs) (indexRulesReverse rs)"
  using names.build_bijection [of rs]
  by (simp add: replace_rules_wf_def inverse_index_def indexRules_index indexRulesReverse_index)

lemma rule_keys_shape:
  "CHR ''='' \<notin> set (mr_Original r) \<Longrightarrow> CHR ''='' \<notin> set (mr_Renamed r) \<Longrightarrow>
   kv_shape (rule_orig_key r) (rule_ren_key r)"
  unfolding kv_shape_def rule_orig_key_def rule_ren_key_def by (auto split: if_splits)

lemma index_kv_shape:
  assumes "replace_rules_wf (CHR ''='') rs" and "indexRules rs a = Some b"
  shows "kv_shape a b"
proof -
  obtain r where "r \<in> set rs" "a = rule_orig_key r" "b = rule_ren_key r"
    using names.fwd_range [of rs a b] assms(2) by (auto simp: indexRules_index)
  with assms(1) show ?thesis
    by (auto simp: replace_rules_wf_def list_all_iff intro: rule_keys_shape)
qed

lemma prefix_index_no_slash:
  assumes "replace_wf R" and "indexRules (mr_Prefixes R) a = Some b"
  shows "CHR ''/'' \<notin> set a \<and> CHR ''/'' \<notin> set b"
proof -
  obtain r where "r \<in> set (mr_Prefixes R)" "a = rule_orig_key r" "b = rule_ren_key r"
    using names.fwd_range [of "mr_Prefixes R" a b] assms(2) by (auto simp: indexRules_index)
  with assms(1) show ?thesis
    by (auto simp: replace_wf_def replace_rules_wf_def list_all_iff rule_orig_key_def rule_ren_key_def)
qed

section \<open>Both directions are the same lookup\<close>

datatype hit = HitKV | HitName | HitPrefix | Miss

definition lookup_name ::
  "(string \<Rightarrow> string option) \<Rightarrow> (string \<Rightarrow> string option) \<Rightarrow> string \<Rightarrow> string \<Rightarrow> hit \<times> string \<times> string" where
  "lookup_name names prefixes n v =
     (case (if v \<noteq> [] then names (joinKV n v) else None) of
       Some r \<Rightarrow> (HitKV, splitKV r)
     | None \<Rightarrow>
         (case names n of
           Some r \<Rightarrow> (HitName, r, v)
         | None \<Rightarrow>
             (case Cut n (CHR ''/'') of (prefix, remainder, found) \<Rightarrow>
               if \<not> found then (Miss, n, v)
               else (case prefixes prefix of
                 Some r \<Rightarrow> (HitPrefix, r @ ''/'' @ remainder, v)
               | None \<Rightarrow> (Miss, n, v)))))"

definition rename_hit :: "PrefixedNameRewriter \<Rightarrow> string \<times> string \<Rightarrow> hit" where
  "rename_hit p nv = fst (lookup_name (namesRenameIdx p) (prefixRenameIdx p) (fst nv) (snd nv))"

definition restore_hit :: "PrefixedNameRewriter \<Rightarrow> string \<times> string \<Rightarrow> hit" where
  "restore_hit p nv = fst (lookup_name (namesRestoreIdx p) (prefixRestoreIdx p) (fst nv) (snd nv))"

lemma pnr_rename_lookup:
  "pnr_rename p n v =
     (if isPreserved n then (restorePreservedName n, v)
      else snd (lookup_name (namesRenameIdx p) (prefixRenameIdx p) n v))"
  unfolding pnr_rename_def lookup_name_def
  by (cases n "CHR ''/''" rule: Cut_cases) (simp_all split: option.split)

lemma pnr_restore_lookup:
  "pnr_restore p n v =
     (if pnr_isOriginal p n v then (preserveName n, v)
      else snd (lookup_name (namesRestoreIdx p) (prefixRestoreIdx p) n v))"
  unfolding pnr_restore_def lookup_name_def
  by (cases n "CHR ''/''" rule: Cut_cases) (simp_all split: option.split)

lemma pnr_isOriginal_hit: "pnr_isOriginal p n v \<longleftrightarrow> rename_hit p (n, v) \<noteq> Miss"
  unfolding pnr_isOriginal_def rename_hit_def lookup_name_def
  by (cases n "CHR ''/''" rule: Cut_cases) (auto split: option.split)

lemma splitKV_joinKV [simp]: "CHR ''='' \<notin> set n \<Longrightarrow> splitKV (joinKV n v) = (n, v)"
  by (simp add: splitKV_def joinKV_def)

lemma joinKV_inject:
  "CHR ''='' \<notin> set a \<Longrightarrow> CHR ''='' \<notin> set b \<Longrightarrow> joinKV a v = joinKV b w \<longleftrightarrow> a = b \<and> v = w"
  by (metis splitKV_joinKV Pair_inject)

lemma preserved_roundtrip [simp]:
  "isPreserved (preserveName n)" "restorePreservedName (preserveName n) = n"
  by (simp_all add: isPreserved_def preserveName_def restorePreservedName_def)

text \<open>The result of a lookup, looked up in the inverse indexes with a hit of the same sort, is the input.\<close>

lemma lookup_name_inverse:
  assumes names: "inverse_index f g" and prefixes: "inverse_index pf pg"
    and shape: "\<And>a b. f a = Some b \<Longrightarrow> kv_shape a b"
    and slash: "\<And>a b. pf a = Some b \<Longrightarrow> CHR ''/'' \<notin> set b"
    and n: "CHR ''='' \<notin> set n"
    and res: "lookup_name f pf n v = (h, n', v')"
    and again: "fst (lookup_name g pg n' v') = h"
  shows "snd (lookup_name g pg n' v') = (n, v)"
proof (cases h)
  case HitKV
  with res have v: "v \<noteq> []" and "\<exists>r. f (joinKV n v) = Some r \<and> splitKV r = (n', v')"
    by (auto simp: lookup_name_def split: if_splits option.splits prod.splits)
  then obtain r where r: "f (joinKV n v) = Some r" "splitKV r = (n', v')" by blast
  have "CHR ''='' \<in> set (joinKV n v)" by (simp add: joinKV_def)
  with shape [OF r(1)] obtain o1 v1 o2 v2 where "joinKV n v = joinKV o1 v1" "r = joinKV o2 v2" "v2 \<noteq> []"
    "CHR ''='' \<notin> set o2"
    unfolding kv_shape_def by blast
  with r have "r = joinKV n' v'" "v' \<noteq> []" by simp_all
  with inverse_indexD [OF names r(1)] n show ?thesis
    by (simp add: lookup_name_def)
next
  case HitName
  with res have "f n = Some n'" "v' = v"
    by (auto simp: lookup_name_def splitKV_def split: if_splits option.splits prod.splits)
  with inverse_indexD [OF names] again HitName show ?thesis
    by (auto simp: lookup_name_def split: if_splits option.splits prod.splits)
next
  case HitPrefix
  with res obtain p r rem where *: "n = p @ CHR ''/'' # rem" "pf p = Some r" "n' = r @ CHR ''/'' # rem" "v' = v"
    by (cases n "CHR ''/''" rule: Cut_cases)
      (auto simp: lookup_name_def splitKV_def split: if_splits option.splits prod.splits)
  with slash have "Cut n' (CHR ''/'') = (r, rem, True)" by simp
  with inverse_indexD [OF prefixes *(2)] * again HitPrefix show ?thesis
    by (auto simp: lookup_name_def split: if_splits option.splits)
next
  case Miss
  with res again show ?thesis
    by (cases n "CHR ''/''" rule: Cut_cases)
      (auto simp: lookup_name_def splitKV_def split: if_splits option.splits prod.splits)
qed

lemma NewPrefixedNameRewriter_sel [simp]:
  "namesRenameIdx (NewPrefixedNameRewriter R) = indexRules (mr_Names R)"
  "namesRestoreIdx (NewPrefixedNameRewriter R) = indexRulesReverse (mr_Names R)"
  "prefixRenameIdx (NewPrefixedNameRewriter R) = indexRules (mr_Prefixes R)"
  "prefixRestoreIdx (NewPrefixedNameRewriter R) = indexRulesReverse (mr_Prefixes R)"
  by (simp_all add: NewPrefixedNameRewriter_def)

lemma rename_then_restore:
  assumes "replace_wf R" and "p = NewPrefixedNameRewriter R" and "CHR ''='' \<notin> set n"
    and "snd (lookup_name (namesRenameIdx p) (prefixRenameIdx p) n v) = (n', v')"
    and "restore_hit p (n', v') = rename_hit p (n, v)"
  shows "snd (lookup_name (namesRestoreIdx p) (prefixRestoreIdx p) n' v') = (n, v)"
proof (rule lookup_name_inverse)
  show "inverse_index (namesRenameIdx p) (namesRestoreIdx p)" "inverse_index (prefixRenameIdx p) (prefixRestoreIdx p)"
    using assms(1,2) by (auto simp: replace_wf_def intro: index_inverse)
  show "lookup_name (namesRenameIdx p) (prefixRenameIdx p) n v = (rename_hit p (n, v), n', v')"
    using assms(4) by (simp add: rename_hit_def prod_eq_iff)
qed (use assms index_kv_shape prefix_index_no_slash in \<open>auto simp: replace_wf_def restore_hit_def\<close>)

lemma restore_then_rename:
  assumes wf: "replace_wf R" and p: "p = NewPrefixedNameRewriter R" and "CHR ''='' \<notin> set n"
    and "snd (lookup_name (namesRestoreIdx p) (prefixRestoreIdx p) n v) = (n', v')"
    and "rename_hit p (n', v') = restore_hit p (n, v)"
  shows "snd (lookup_name (namesRenameIdx p) (prefixRenameIdx p) n' v') = (n, v)"
proof (rule lookup_name_inverse)
  show "inverse_index (namesRestoreIdx p) (namesRenameIdx p)"
    using wf p by (auto simp: replace_wf_def intro: index_inverse inverse_index_sym)
  then show "\<And>a b. namesRestoreIdx p a = Some b \<Longrightarrow> kv_shape a b"
    using index_kv_shape wf p by (auto simp: replace_wf_def dest!: inverse_indexD intro: kv_shape_sym)
  show "inverse_index (prefixRestoreIdx p) (prefixRenameIdx p)"
    using wf p by (auto simp: replace_wf_def intro: index_inverse inverse_index_sym)
  then show "\<And>a b. prefixRestoreIdx p a = Some b \<Longrightarrow> CHR ''/'' \<notin> set b"
    using prefix_index_no_slash [OF wf] p by (auto dest!: inverse_indexD)
  show "lookup_name (namesRestoreIdx p) (prefixRestoreIdx p) n v = (restore_hit p (n, v), n', v')"
    using assms(4) by (simp add: restore_hit_def prod_eq_iff)
qed (use assms in \<open>auto simp: rename_hit_def\<close>)

lemma rewriteNameValues_loop_eq:
  "rewriteNameValues_loop fn name rwrName acc vs =
     (if rwrName \<noteq> name then rwrName
      else (case find (\<lambda>v. fst (fn name v) \<noteq> name) vs of None \<Rightarrow> name | Some v \<Rightarrow> fst (fn name v)),
      acc @ map (\<lambda>v. snd (fn name v)) vs)"
  by (induction vs arbitrary: rwrName acc) (auto split: prod.split option.split)

lemma rewriteNameValues_eq:
  "rewriteNameValues name vs fn =
     (case find (\<lambda>v. fst (fn name v) \<noteq> name) vs of None \<Rightarrow> name | Some v \<Rightarrow> fst (fn name v),
      map (\<lambda>v. snd (fn name v)) vs)"
  by (simp add: rewriteNameValues_def rewriteNameValues_loop_eq)

section \<open>Round trips\<close>

definition sample_replace :: MetadataReplace where
  "sample_replace =
     \<lparr> mr_Prefixes = [\<lparr> mr_Original = ''g.io'', mr_Renamed = ''x.g.io'', mr_OriginalValue = [], mr_RenamedValue = [] \<rparr>],
       mr_Names = [\<lparr> mr_Original = ''app'', mr_Renamed = ''xapp'', mr_OriginalValue = ''v'', mr_RenamedValue = ''xv'' \<rparr>] \<rparr>"

text \<open>
  C20. Client to server and back: for well-formed replacement rules, a client name that is not a
  preserved one is renamed to something the restore direction maps back to the very same name and
  value, provided that the result is not itself an original name and that the restore direction
  finds it by the same sort of rule (name and value, name, prefix, or none).
\<close>

theorem name_rename_restore:
  assumes "replace_wf R" and "p = NewPrefixedNameRewriter R"
    and "CHR ''='' \<notin> set n" and "\<not> isPreserved n"
    and "pnr_rename p n v = (n', v')"
    and "\<not> pnr_isOriginal p n' v'" and "restore_hit p (n', v') = rename_hit p (n, v)"
  shows "pnr_restore p n' v' = (n, v)"
  using rename_then_restore [OF assms(1-3)] assms by (simp add: pnr_rename_lookup pnr_restore_lookup)

theorem name_rename_restore_witness:
  "pnr_restore (NewPrefixedNameRewriter sample_replace) ''x.g.io/a'' ''v'' = (''g.io/a'', ''v'')"
proof (rule name_rename_restore)
  show "NewPrefixedNameRewriter sample_replace = NewPrefixedNameRewriter sample_replace" ..
  show "pnr_rename (NewPrefixedNameRewriter sample_replace) ''g.io/a'' ''v'' = (''x.g.io/a'', ''v'')" by code_simp
qed code_simp+

text \<open>
  Server to client and back: a name the server has under its original spelling is hidden behind
  the preserved prefix and comes back unchanged, whatever the rules are; every other name comes
  back unchanged when the rules are well formed, the restored name does not look preserved and the
  rename direction finds it by the same sort of rule.
\<close>

theorem name_restore_rename:
  assumes "p = NewPrefixedNameRewriter R" and "pnr_restore p n v = (n', v')"
    and "pnr_isOriginal p n v \<or>
      replace_wf R \<and> CHR ''='' \<notin> set n \<and> \<not> isPreserved n' \<and> rename_hit p (n', v') = restore_hit p (n, v)"
  shows "pnr_rename p n' v' = (n, v)"
proof (cases "pnr_isOriginal p n v")
  case True
  with assms(2) show ?thesis by (auto simp: pnr_restore_lookup pnr_rename_lookup)
next
  case False
  with assms restore_then_rename [OF _ assms(1), of n v n' v'] show ?thesis
    by (simp add: pnr_rename_lookup pnr_restore_lookup)
qed

theorem name_restore_rename_witness:
  "pnr_rename (NewPrefixedNameRewriter sample_replace) ''app'' ''v'' = (''xapp'', ''xv'')"
proof (rule name_restore_rename)
  show "NewPrefixedNameRewriter sample_replace = NewPrefixedNameRewriter sample_replace" ..
  show "pnr_restore (NewPrefixedNameRewriter sample_replace) ''xapp'' ''xv'' = (''app'', ''v'')" by code_simp
qed code_simp

text \<open>
  Match expressions: rewriting a name with a list of values keeps the number and the order of
  the values, rewrites each of them with the original name, and takes the name of the first value
  for which a rule changes it. Without values the name alone is rewritten.
\<close>

theorem name_values_first_match:
  "pnr_RewriteNameValues p name values action =
     (if values = [] then pnr_Rewrite p name action
      else (case find (\<lambda>v. fst (pnr_RewriteNameValue p name v action) \<noteq> name) values of
        None \<Rightarrow> name
      | Some v \<Rightarrow> fst (pnr_RewriteNameValue p name v action)),
      map (\<lambda>v. snd (pnr_RewriteNameValue p name v action)) values)"
  by (cases action)
    (simp_all add: pnr_RewriteNameValues_def pnr_RewriteNameValue_def rewriteNameValues_eq split: option.split)

end
