(* ===== verification/Json_Library.thy ===== *)
theory Json_Library
  imports Prelude
begin

text \<open>
  The interface to the JSON packages \<^verbatim>\<open>github.com/tidwall/gjson\<close> and
  \<^verbatim>\<open>github.com/tidwall/sjson\<close>, which are not part of the repository. The model never looks
  inside them: every operation that reads or writes a payload takes a record \<open>'r jsonlib\<close> of the
  library functions it calls as its first argument, \<open>'r\<close> being the library's \<^verbatim>\<open>gjson.Result\<close>.

  What the code relies on is stated by the locale \<open>json_library\<close>, as documented behaviour of those
  packages over the JSON values of type \<open>json\<close>: an object is an unordered collection of members, a
  path of plain names walks from object to object, a write replaces the addressed value and creates
  the missing objects on the way. \<open>D\<close> is the value a text stands for (texts with duplicate keys or
  with invalid UTF-8 have none), \<open>V\<close> the value a result stands for (a result that does not exist
  has none).
\<close>

section \<open>JSON values\<close>

datatype json =
    JNull
  | JBool bool
  | JNum string
  | JStr string
  | JArr "json list"
  | JObj "string \<Rightarrow> json option"

fun jget :: "json \<Rightarrow> string list \<Rightarrow> json option" where
  "jget j [] = Some j"
| "jget (JObj m) (k # ks) = (case m k of None \<Rightarrow> None | Some v \<Rightarrow> jget v ks)"
| "jget JNull (k # ks) = None"
| "jget (JBool b) (k # ks) = None"
| "jget (JNum n) (k # ks) = None"
| "jget (JStr s) (k # ks) = None"
| "jget (JArr js) (k # ks) = None"

text \<open>Only the members on the way are touched; a missing one is created as an object.\<close>

fun jset :: "json \<Rightarrow> string list \<Rightarrow> json \<Rightarrow> json" where
  "jset j [] v = v"
| "jset (JObj m) (k # ks) v =
     JObj (m(k \<mapsto> jset (case m k of None \<Rightarrow> JObj Map.empty | Some u \<Rightarrow> u) ks v))"
| "jset j (k # ks) v = j"

text \<open>A path can be written when no value on the way is anything but an object.\<close>

fun settable :: "json \<Rightarrow> string list \<Rightarrow> bool" where
  "settable j [] = True"
| "settable (JObj m) (k # ks) = (case m k of None \<Rightarrow> True | Some v \<Rightarrow> settable v ks)"
| "settable j (k # ks) = False"

lemma jget_append: "jget j (ks @ ls) = (case jget j ks of None \<Rightarrow> None | Some v \<Rightarrow> jget v ls)"
  by (induction j ks rule: jget.induct) (auto split: option.splits)

lemma jget_settable: "jget j ks = Some v \<Longrightarrow> settable j ks"
  by (induction j ks rule: jget.induct) (auto split: option.splits)

lemma settable_empty [simp]: "settable (JObj Map.empty) ks"
  by (cases ks) auto

lemma settable_jset [simp]: "settable j ks \<Longrightarrow> settable (jset j ks v) ks"
  by (induction ks arbitrary: j) (auto elim: settable.elims split: option.splits)

lemma jget_jset [simp]: "settable j ks \<Longrightarrow> jget (jset j ks v) ks = Some v"
  by (induction ks arbitrary: j) (auto elim!: settable.elims split: option.splits)

lemma jset_jset [simp]: "settable j ks \<Longrightarrow> jset (jset j ks v) ks w = jset j ks w"
  by (induction ks arbitrary: j) (auto elim!: settable.elims split: option.splits)

lemma jset_same: "jget j ks = Some v \<Longrightarrow> jset j ks v = j"
proof (induction j ks rule: jget.induct)
  case (2 m k ks)
  then show ?case by (auto split: option.splits simp: fun_upd_idem)
qed auto

text \<open>Two paths that fork address independent values.\<close>

fun forks :: "string list \<Rightarrow> string list \<Rightarrow> bool" where
  "forks (k # ks) (l # ls) = (k \<noteq> l \<or> forks ks ls)"
| "forks ks ls = False"

lemma jget_jset_forks: "forks ks ls \<Longrightarrow> jget (jset j ks v) ls = jget j ls"
proof (induction ks ls arbitrary: j rule: forks.induct)
  case (1 k ks l ls)
  show ?case
  proof (cases j)
    case (JObj m)
    have "jget (JObj Map.empty) ls = None" if "forks ks ls"
      using that by (cases ls) auto
    with 1 JObj show ?thesis by (auto split: option.splits)
  qed auto
qed auto

lemma settable_jset_forks: "forks ks ls \<Longrightarrow> settable (jset j ks v) ls = settable j ls"
proof (induction ks ls arbitrary: j rule: forks.induct)
  case (1 k ks l ls)
  show ?case
  proof (cases j)
    case (JObj m)
    with 1 show ?thesis by (auto split: option.splits)
  qed auto
qed auto

lemma jset_commute: "forks ks ls \<Longrightarrow> jset (jset j ks v) ls w = jset (jset j ls w) ks v"
proof (induction ks ls arbitrary: j rule: forks.induct)
  case (1 k ks l ls)
  show ?case
  proof (cases j)
    case (JObj m)
    with 1 show ?thesis by (auto split: option.splits simp: fun_upd_twist)
  qed auto
qed auto

section \<open>Texts and Go values\<close>

text \<open>\<^verbatim>\<open>Result.String()\<close>: the text of a string, nothing for null and for a missing value.\<close>

fun jtext :: "json option \<Rightarrow> string option" where
  "jtext None = Some []"
| "jtext (Some JNull) = Some []"
| "jtext (Some (JStr s)) = Some s"
| "jtext (Some (JBool b)) = Some (if b then ''true'' else ''false'')"
| "jtext (Some j) = None"

text \<open>
  The Go values handed to \<^verbatim>\<open>sjson.SetBytes\<close>: a string, a slice of strings (\<^verbatim>\<open>nil\<close> is encoded as
  \<^verbatim>\<open>null\<close>), a \<^verbatim>\<open>map[string]*string\<close> (a nil pointer is encoded as \<^verbatim>\<open>null\<close>).
\<close>

datatype govalue =
    VString string
  | VStrings "string list option"
  | VMap "(string \<times> string option) list"

definition ptr_json :: "string option \<Rightarrow> json" where
  "ptr_json v = (case v of None \<Rightarrow> JNull | Some s \<Rightarrow> JStr s)"

fun gv_json :: "govalue \<Rightarrow> json" where
  "gv_json (VString s) = JStr s"
| "gv_json (VStrings None) = JNull"
| "gv_json (VStrings (Some ss)) = JArr (map JStr ss)"
| "gv_json (VMap kvs) = JObj (map_option ptr_json \<circ> map_of kvs)"

fun gv_ok :: "govalue \<Rightarrow> bool" where
  "gv_ok (VString s) = utf8 s"
| "gv_ok (VStrings None) = True"
| "gv_ok (VStrings (Some ss)) = list_all utf8 ss"
| "gv_ok (VMap kvs) =
     (distinct (map fst kvs) \<and>
      list_all (\<lambda>(k, v). utf8 k \<and> (case v of None \<Rightarrow> True | Some s \<Rightarrow> utf8 s)) kvs)"

text \<open>
  A plain path: dot-separated names made of letters. Every path of the sources is one; letters
  have no special meaning in the path syntax of the library.
\<close>

definition letter :: "char \<Rightarrow> bool" where
  "letter c \<longleftrightarrow> c \<in> set ''abcdefghijklmnopqrstuvwxyzABCDEFGHIJKLMNOPQRSTUVWXYZ''"

definition jpath :: "string \<Rightarrow> string list" where
  "jpath p = Split p (CHR ''.'')"

definition plain_path :: "string \<Rightarrow> bool" where
  "plain_path p \<longleftrightarrow> list_all (\<lambda>w. w \<noteq> [] \<and> list_all letter w) (jpath p)"

section \<open>The paths of the sources\<close>

text \<open>Every path the rewriter uses is plain; these equations let the simplifier walk along it.\<close>

lemma plain_paths [simp]:
  "plain_path ''annotations''" "plain_path ''apiGroup''" "plain_path ''apiGroups''"
  "plain_path ''apiVersion''" "plain_path ''categories''" "plain_path ''finalizers''"
  "plain_path ''freshness''" "plain_path ''group''" "plain_path ''groupVersion''" "plain_path ''groups''"
  "plain_path ''involvedObject''" "plain_path ''items''" "plain_path ''key''" "plain_path ''kind''"
  "plain_path ''kind.group''" "plain_path ''kind.kind''" "plain_path ''labelSelector''"
  "plain_path ''labels''" "plain_path ''listKind''" "plain_path ''matchExpressions''"
  "plain_path ''matchLabelKeys''" "plain_path ''matchLabels''" "plain_path ''metadata''"
  "plain_path ''metadata.labels''" "plain_path ''metadata.managedFields''" "plain_path ''metadata.name''"
  "plain_path ''metadata.namespace''" "plain_path ''mismatchLabelKeys''" "plain_path ''name''"
  "plain_path ''names''" "plain_path ''namespaceSelector''" "plain_path ''nodeAffinity''"
  "plain_path ''nodeSelectorTerms''" "plain_path ''object''" "plain_path ''oldObject''" "plain_path ''op''"
  "plain_path ''ownerReferences''" "plain_path ''patch''" "plain_path ''patchType''" "plain_path ''path''"
  "plain_path ''plural''" "plain_path ''podAffinity''" "plain_path ''podAffinityTerm''"
  "plain_path ''podAntiAffinity''" "plain_path ''preference''"
  "plain_path ''preferredDuringSchedulingIgnoredDuringExecution''"
  "plain_path ''preferredVersion.groupVersion''" "plain_path ''request''" "plain_path ''requestKind''"
  "plain_path ''requestKind.group''" "plain_path ''requestKind.kind''" "plain_path ''requestResource''"
  "plain_path ''requestResource.group''" "plain_path ''requestResource.resource''"
  "plain_path ''requiredDuringSchedulingIgnoredDuringExecution''" "plain_path ''resource''"
  "plain_path ''resource.group''" "plain_path ''resource.resource''" "plain_path ''resources''"
  "plain_path ''response''" "plain_path ''response.patch''" "plain_path ''responseKind''"
  "plain_path ''responseKind.group''" "plain_path ''responseKind.kind''" "plain_path ''rules''"
  "plain_path ''selector.matchLabels''" "plain_path ''shortNames''" "plain_path ''singular''"
  "plain_path ''singularName''" "plain_path ''singularResource''" "plain_path ''spec''"
  "plain_path ''spec.affinity''" "plain_path ''spec.dataSource''" "plain_path ''spec.dataSourceRef''"
  "plain_path ''spec.group''" "plain_path ''spec.matchConstraints.resourceRules''"
  "plain_path ''spec.matchResources.resourceRules''" "plain_path ''spec.names''"
  "plain_path ''spec.nodeSelector''" "plain_path ''spec.selector''" "plain_path ''spec.selector.matchLabels''"
  "plain_path ''subresource''" "plain_path ''subresources''" "plain_path ''template.metadata.annotations''"
  "plain_path ''template.metadata.labels''" "plain_path ''template.spec.affinity''"
  "plain_path ''template.spec.nodeSelector''" "plain_path ''topologyKey''" "plain_path ''value''"
  "plain_path ''value.selector''" "plain_path ''values''" "plain_path ''version''" "plain_path ''versions''"
  "plain_path ''webhooks''"
  by code_simp+

lemma jpaths [simp]:
  "jpath ''annotations'' = [''annotations'']" "jpath ''apiGroup'' = [''apiGroup'']"
  "jpath ''apiGroups'' = [''apiGroups'']" "jpath ''apiVersion'' = [''apiVersion'']"
  "jpath ''categories'' = [''categories'']" "jpath ''finalizers'' = [''finalizers'']"
  "jpath ''freshness'' = [''freshness'']" "jpath ''group'' = [''group'']"
  "jpath ''groupVersion'' = [''groupVersion'']" "jpath ''groups'' = [''groups'']"
  "jpath ''involvedObject'' = [''involvedObject'']" "jpath ''items'' = [''items'']"
  "jpath ''key'' = [''key'']" "jpath ''kind'' = [''kind'']" "jpath ''kind.group'' = [''kind'', ''group'']"
  "jpath ''kind.kind'' = [''kind'', ''kind'']" "jpath ''labelSelector'' = [''labelSelector'']"
  "jpath ''labels'' = [''labels'']" "jpath ''listKind'' = [''listKind'']"
  "jpath ''matchExpressions'' = [''matchExpressions'']" "jpath ''matchLabelKeys'' = [''matchLabelKeys'']"
  "jpath ''matchLabels'' = [''matchLabels'']" "jpath ''metadata'' = [''metadata'']"
  "jpath ''metadata.labels'' = [''metadata'', ''labels'']"
  "jpath ''metadata.managedFields'' = [''metadata'', ''managedFields'']"
  "jpath ''metadata.name'' = [''metadata'', ''name'']"
  "jpath ''metadata.namespace'' = [''metadata'', ''namespace'']"
  "jpath ''mismatchLabelKeys'' = [''mismatchLabelKeys'']" "jpath ''name'' = [''name'']"
  "jpath ''names'' = [''names'']" "jpath ''namespaceSelector'' = [''namespaceSelector'']"
  "jpath ''nodeAffinity'' = [''nodeAffinity'']" "jpath ''nodeSelectorTerms'' = [''nodeSelectorTerms'']"
  "jpath ''object'' = [''object'']" "jpath ''oldObject'' = [''oldObject'']" "jpath ''op'' = [''op'']"
  "jpath ''ownerReferences'' = [''ownerReferences'']" "jpath ''patch'' = [''patch'']"
  "jpath ''patchType'' = [''patchType'']" "jpath ''path'' = [''path'']" "jpath ''plural'' = [''plural'']"
  "jpath ''podAffinity'' = [''podAffinity'']" "jpath ''podAffinityTerm'' = [''podAffinityTerm'']"
  "jpath ''podAntiAffinity'' = [''podAntiAffinity'']" "jpath ''preference'' = [''preference'']"
  "jpath ''preferredDuringSchedulingIgnoredDuringExecution'' = [''preferredDuringSchedulingIgnoredDuringExecution'']"
  "jpath ''preferredVersion.groupVersion'' = [''preferredVersion'', ''groupVersion'']"
  "jpath ''request'' = [''request'']" "jpath ''requestKind'' = [''requestKind'']"
  "jpath ''requestKind.group'' = [''requestKind'', ''group'']"
  "jpath ''requestKind.kind'' = [''requestKind'', ''kind'']"
  "jpath ''requestResource'' = [''requestResource'']"
  "jpath ''requestResource.group'' = [''requestResource'', ''group'']"
  "jpath ''requestResource.resource'' = [''requestResource'', ''resource'']"
  "jpath ''requiredDuringSchedulingIgnoredDuringExecution'' = [''requiredDuringSchedulingIgnoredDuringExecution'']"
  "jpath ''resource'' = [''resource'']" "jpath ''resource.group'' = [''resource'', ''group'']"
  "jpath ''resource.resource'' = [''resource'', ''resource'']" "jpath ''resources'' = [''resources'']"
  "jpath ''response'' = [''response'']" "jpath ''response.patch'' = [''response'', ''patch'']"
  "jpath ''responseKind'' = [''responseKind'']" "jpath ''responseKind.group'' = [''responseKind'', ''group'']"
  "jpath ''responseKind.kind'' = [''responseKind'', ''kind'']" "jpath ''rules'' = [''rules'']"
  "jpath ''selector.matchLabels'' = [''selector'', ''matchLabels'']" "jpath ''shortNames'' = [''shortNames'']"
  "jpath ''singular'' = [''singular'']" "jpath ''singularName'' = [''singularName'']"
  "jpath ''singularResource'' = [''singularResource'']" "jpath ''spec'' = [''spec'']"
  "jpath ''spec.affinity'' = [''spec'', ''affinity'']"
  "jpath ''spec.dataSource'' = [''spec'', ''dataSource'']"
  "jpath ''spec.dataSourceRef'' = [''spec'', ''dataSourceRef'']"
  "jpath ''spec.group'' = [''spec'', ''group'']"
  "jpath ''spec.matchConstraints.resourceRules'' = [''spec'', ''matchConstraints'', ''resourceRules'']"
  "jpath ''spec.matchResources.resourceRules'' = [''spec'', ''matchResources'', ''resourceRules'']"
  "jpath ''spec.names'' = [''spec'', ''names'']" "jpath ''spec.nodeSelector'' = [''spec'', ''nodeSelector'']"
  "jpath ''spec.selector'' = [''spec'', ''selector'']"
  "jpath ''spec.selector.matchLabels'' = [''spec'', ''selector'', ''matchLabels'']"
  "jpath ''subresource'' = [''subresource'']" "jpath ''subresources'' = [''subresources'']"
  "jpath ''template.metadata.annotations'' = [''template'', ''metadata'', ''annotations'']"
  "jpath ''template.metadata.labels'' = [''template'', ''metadata'', ''labels'']"
  "jpath ''template.spec.affinity'' = [''template'', ''spec'', ''affinity'']"
  "jpath ''template.spec.nodeSelector'' = [''template'', ''spec'', ''nodeSelector'']"
  "jpath ''topologyKey'' = [''topologyKey'']" "jpath ''value'' = [''value'']"
  "jpath ''value.selector'' = [''value'', ''selector'']" "jpath ''values'' = [''values'']"
  "jpath ''version'' = [''version'']" "jpath ''versions'' = [''versions'']"
  "jpath ''webhooks'' = [''webhooks'']"
  by code_simp+

section \<open>The library interface\<close>

record 'r jsonlib =
  gjson_GetBytes :: "bytes \<Rightarrow> string \<Rightarrow> 'r"
  gjson_ParseBytes :: "bytes \<Rightarrow> 'r"
  gjson_ValidBytes :: "bytes \<Rightarrow> bool"
  gjson_Get :: "'r \<Rightarrow> string \<Rightarrow> 'r"
  gjson_Exists :: "'r \<Rightarrow> bool"
  gjson_IsObject :: "'r \<Rightarrow> bool"
  gjson_String :: "'r \<Rightarrow> string"
  gjson_Array :: "'r \<Rightarrow> 'r list"
  gjson_Map :: "'r \<Rightarrow> (string \<times> 'r) list"
  gjson_IsNil :: "'r \<Rightarrow> bool"
  gjson_Raw :: "'r \<Rightarrow> string"
  sjson_SetBytes :: "bytes \<Rightarrow> string \<Rightarrow> govalue \<Rightarrow> bytes res"
  sjson_SetRawBytes :: "bytes \<Rightarrow> string \<Rightarrow> bytes \<Rightarrow> bytes res"

text \<open>
  A payload denotes a value, and a fallible operation yields one when it succeeds with a payload
  that denotes it.
\<close>

definition doc :: "(string \<Rightarrow> json option) \<Rightarrow> bytes \<Rightarrow> json \<Rightarrow> bool" where
  "doc D x j \<longleftrightarrow> (\<exists>b. x = Some b \<and> D b = Some j)"

definition yields :: "(string \<Rightarrow> json option) \<Rightarrow> bytes res \<Rightarrow> json \<Rightarrow> bool" where
  "yields D r j \<longleftrightarrow> (\<exists>x. r = Inr x \<and> doc D x j)"

named_theorems refine \<open>refinement rules: the value an operation yields\<close>

lemma doc_Some [simp]: "doc D (Some b) j \<longleftrightarrow> D b = Some j"
  by (simp add: doc_def)

lemma doc_None [simp]: "\<not> doc D None j"
  by (simp add: doc_def)

lemma doc_unique: "doc D x j \<Longrightarrow> doc D x j' \<Longrightarrow> j' = j"
  by (auto simp: doc_def)

lemma yields_Inr [simp]: "yields D (Inr x) j \<longleftrightarrow> doc D x j"
  by (simp add: yields_def)

lemma yields_Inl [simp]: "\<not> yields D (Inl e) j"
  by (simp add: yields_def)

lemma yields_bind [refine]:
  "yields D m j \<Longrightarrow> (\<And>x. doc D x j \<Longrightarrow> yields D (f x) j') \<Longrightarrow> yields D (res_bind m f) j'"
  by (auto simp: yields_def)

lemma yields_wrap [refine]: "yields D m j \<Longrightarrow> yields D (res_wrap msg m) j"
  by (auto simp: yields_def)

locale json_library =
  fixes L :: "'r jsonlib"
    and D :: "string \<Rightarrow> json option"
    and V :: "'r \<Rightarrow> json option"
  assumes GetBytes: "doc D x j \<Longrightarrow> plain_path p \<Longrightarrow> V (gjson_GetBytes L x p) = jget j (jpath p)"
    and GetBytes_empty: "bytes_str x = [] \<Longrightarrow> V (gjson_GetBytes L x p) = None"
    and ParseBytes: "doc D x j \<Longrightarrow> V (gjson_ParseBytes L x) = Some j"
    and ValidBytes: "doc D x j \<Longrightarrow> gjson_ValidBytes L x"
    and Get: "plain_path p \<Longrightarrow>
      V (gjson_Get L r p) = (case V r of None \<Rightarrow> None | Some j \<Rightarrow> jget j (jpath p))"
    and Exists: "gjson_Exists L r \<longleftrightarrow> V r \<noteq> None"
    and IsObject: "gjson_IsObject L r \<longleftrightarrow> (\<exists>m. V r = Some (JObj m))"
    and String: "jtext (V r) = Some s \<Longrightarrow> gjson_String L r = s"
    and Array_arr: "V r = Some (JArr js) \<Longrightarrow> map V (gjson_Array L r) = map Some js"
    and Array_nil: "V r = None \<or> V r = Some JNull \<Longrightarrow> gjson_Array L r = []"
    and Map_obj: "V r = Some (JObj m) \<Longrightarrow>
      distinct (map fst (gjson_Map L r)) \<and>
      (\<forall>k. map_option V (map_of (gjson_Map L r) k) = map_option Some (m k))"
    and Map_other: "V r = None \<or> V r = Some JNull \<Longrightarrow> gjson_Map L r = []"
    and IsNil: "gjson_IsNil L r \<longleftrightarrow> V r = None \<or> V r = Some JNull"
    and Raw: "V r = Some j \<Longrightarrow> D (gjson_Raw L r) = Some j"
    and Raw_none: "V r = None \<Longrightarrow> gjson_Raw L r = []"
    and SetBytes: "doc D x j \<Longrightarrow> plain_path p \<Longrightarrow> settable j (jpath p) \<Longrightarrow> gv_ok v \<Longrightarrow>
      yields D (sjson_SetBytes L x p v) (jset j (jpath p) (gv_json v))"
    and SetBytes_empty: "bytes_str x = [] \<Longrightarrow> plain_path p \<Longrightarrow> gv_ok v \<Longrightarrow>
      yields D (sjson_SetBytes L x p v) (jset (JObj Map.empty) (jpath p) (gv_json v))"
    and SetRawBytes: "doc D x j \<Longrightarrow> plain_path p \<Longrightarrow> settable j (jpath p) \<Longrightarrow> doc D y u \<Longrightarrow>
      yields D (sjson_SetRawBytes L x p y) (jset j (jpath p) u)"
    and array_text: "list_all2 (\<lambda>t j. D t = Some j) ts js \<Longrightarrow>
      D (''['' @ Join ts '','' @ '']'') = Some (JArr js)"
    and object_head: "D (CHR ''{'' # t) = Some j \<Longrightarrow> \<exists>m. j = JObj m"
    and array_head: "D (CHR ''['' # t) = Some j \<Longrightarrow> \<exists>js. j = JArr js"
    and empty_text: "D [] = None"
    and text_str: "D b = Some j \<Longrightarrow> jget j ks = Some (JStr s) \<Longrightarrow> utf8 s"
    and text_key: "D b = Some j \<Longrightarrow> jget j ks = Some (JObj m) \<Longrightarrow> m k = Some u \<Longrightarrow> utf8 k"
    and text_val: "D b = Some j \<Longrightarrow> jget j ks = Some (JArr js) \<Longrightarrow> JStr s \<in> set js \<Longrightarrow> utf8 s"

end
