(* ===== verification/Json_Reference.thy ===== *)
theory Json_Reference
  imports Json_Library "HOL-Library.AList"
begin

text \<open>
  A JSON library of our own: a recursive-descent parser and a printer for JSON texts, with reads
  and writes by path on the parsed tree. It shows that the laws of \<open>json_library\<close> can hold
  together, and it is the concrete library on which the witnesses of the other theories compute.
  It is an instance of the interface, not a model of the packages the proxy links.
\<close>

section \<open>Trees\<close>

datatype rj =
    RNull
  | RBool bool
  | RNum string
  | RStr string
  | RArr "rj list"
  | RObj "(string \<times> rj) list"

definition num_char :: "char \<Rightarrow> bool" where
  "num_char c \<longleftrightarrow> c \<in> set ''0123456789+-.eE''"

fun rj_ok :: "rj \<Rightarrow> bool" where
  "rj_ok RNull = True"
| "rj_ok (RBool b) = True"
| "rj_ok (RNum n) = (n \<noteq> [] \<and> list_all num_char n)"
| "rj_ok (RStr s) = utf8 s"
| "rj_ok (RArr vs) = list_all rj_ok vs"
| "rj_ok (RObj kvs) = (distinct (map fst kvs) \<and> list_all (\<lambda>(k, v). utf8 k \<and> rj_ok v) kvs)"

fun rj_abs :: "rj \<Rightarrow> json" where
  "rj_abs RNull = JNull"
| "rj_abs (RBool b) = JBool b"
| "rj_abs (RNum n) = JNum n"
| "rj_abs (RStr s) = JStr s"
| "rj_abs (RArr vs) = JArr (map rj_abs vs)"
| "rj_abs (RObj kvs) = JObj (map_of (map (\<lambda>(k, v). (k, rj_abs v)) kvs))"

fun rget :: "rj \<Rightarrow> string list \<Rightarrow> rj option" where
  "rget v [] = Some v"
| "rget (RObj kvs) (k # ks) = (case map_of kvs k of None \<Rightarrow> None | Some u \<Rightarrow> rget u ks)"
| "rget v (k # ks) = None"

fun rset :: "rj \<Rightarrow> string list \<Rightarrow> rj \<Rightarrow> rj option" where
  "rset v [] u = Some u"
| "rset (RObj kvs) (k # ks) u =
     (case rset (case map_of kvs k of None \<Rightarrow> RObj [] | Some w \<Rightarrow> w) ks u of
        None \<Rightarrow> None
      | Some w \<Rightarrow> Some (RObj (AList.update k w kvs)))"
| "rset v (k # ks) u = None"

lemma map_of_abs: "map_of (map (\<lambda>(k, v). (k, f v)) kvs) k = map_option f (map_of kvs k)"
  by (induction kvs) auto

lemma rget_abs: "map_option rj_abs (rget v ks) = jget (rj_abs v) ks"
  by (induction v ks rule: rget.induct) (auto simp: map_of_abs split: option.splits)

lemma rset_abs:
  "settable (rj_abs v) ks \<Longrightarrow> \<exists>w. rset v ks u = Some w \<and> rj_abs w = jset (rj_abs v) ks (rj_abs u)"
proof (induction v ks u rule: rset.induct)
  case (2 kvs k ks u)
  let ?w = "case map_of kvs k of None \<Rightarrow> RObj [] | Some w \<Rightarrow> w"
  have eq: "rj_abs ?w = (case map_of (map (\<lambda>(k, v). (k, rj_abs v)) kvs) k of
      None \<Rightarrow> JObj Map.empty | Some u \<Rightarrow> u)"
    by (simp add: map_of_abs split: option.splits)
  have "settable (rj_abs ?w) ks"
    using "2.prems" by (simp add: map_of_abs split: option.splits)
  from "2.IH" [OF this] obtain w where w: "rset ?w ks u = Some w"
    "rj_abs w = jset (rj_abs ?w) ks (rj_abs u)" by blast
  have "map_of (map (\<lambda>(k, v). (k, rj_abs v)) (AList.update k w kvs)) =
      (map_of (map (\<lambda>(k, v). (k, rj_abs v)) kvs))(k \<mapsto> rj_abs w)"
    by (rule ext) (simp add: map_of_abs update_conv')
  with w eq show ?case by simp
qed auto

lemma rj_ok_rget: "rj_ok v \<Longrightarrow> rget v ks = Some u \<Longrightarrow> rj_ok u"
  by (induction v ks rule: rget.induct)
    (auto split: option.splits dest!: map_of_SomeD simp: list_all_iff)

lemma rj_ok_update:
  assumes "rj_ok (RObj kvs)" and "utf8 k" and "rj_ok w"
  shows "rj_ok (RObj (AList.update k w kvs))"
  using assms by (induction kvs) (auto simp: distinct_update update_keys)

lemma rj_ok_rset:
  "rj_ok v \<Longrightarrow> rj_ok u \<Longrightarrow> list_all utf8 ks \<Longrightarrow> rset v ks u = Some w \<Longrightarrow> rj_ok w"
proof (induction v ks u arbitrary: w rule: rset.induct)
  case (2 kvs k ks u)
  let ?w = "case map_of kvs k of None \<Rightarrow> RObj [] | Some w \<Rightarrow> w"
  have "rj_ok ?w"
    using "2.prems"(1) by (auto split: option.splits dest!: map_of_SomeD simp: list_all_iff)
  moreover obtain w' where w': "rset ?w ks u = Some w'" and w: "w = RObj (AList.update k w' kvs)"
    using "2.prems"(4) by (auto split: option.splits)
  ultimately have "rj_ok w'"
    using "2.IH" "2.prems" by simp
  then show ?case
    using rj_ok_update "2.prems" w by simp
qed auto

section \<open>Strings\<close>

abbreviation (input) dq :: char where "dq \<equiv> CHR 0x22"
abbreviation (input) bs :: char where "bs \<equiv> CHR 0x5C"

definition hex_char :: "nat \<Rightarrow> char" where
  "hex_char n = ''0123456789abcdef'' ! n"

definition hex_val :: "char \<Rightarrow> nat option" where
  "hex_val c = (let n = (of_char c :: nat) in
     if 48 \<le> n \<and> n \<le> 57 then Some (n - 48)
     else if 97 \<le> n \<and> n \<le> 102 then Some (n - 87)
     else if 65 \<le> n \<and> n \<le> 70 then Some (n - 55) else None)"

definition encode_rune :: "nat \<Rightarrow> string" where
  "encode_rune n =
     (if n < 128 then [char_of n]
      else if n < 2048 then [char_of (192 + n div 64), char_of (128 + n mod 64)]
      else [char_of (224 + n div 4096), char_of (128 + n div 64 mod 64), char_of (128 + n mod 64)])"

definition simple_escape :: "char \<Rightarrow> char option" where
  "simple_escape c = map_of
     [(dq, dq), (bs, bs), (CHR ''/'', CHR ''/''), (CHR ''b'', CHR 0x08), (CHR ''f'', CHR 0x0C),
      (CHR ''n'', CHR 0x0A), (CHR ''r'', CHR 0x0D), (CHR ''t'', CHR 0x09)] c"

fun hex4 :: "string \<Rightarrow> nat option" where
  "hex4 [a, b, c, d] =
     (case (hex_val a, hex_val b, hex_val c, hex_val d) of
        (Some x, Some y, Some z, Some w) \<Rightarrow> Some (4096 * x + 256 * y + 16 * z + w)
      | _ \<Rightarrow> None)"
| "hex4 s = None"

text \<open>One character of a string literal: its bytes and the rest, or the closing quote.\<close>

fun next_char :: "string \<Rightarrow> (string option \<times> string) option" where
  "next_char [] = None"
| "next_char (c # r) =
     (if c = dq then Some (None, r)
      else if c = bs then
        (case r of
           [] \<Rightarrow> None
         | e # r' \<Rightarrow>
             if e = CHR ''u'' then map_option (\<lambda>n. (Some (encode_rune n), drop 4 r')) (hex4 (take 4 r'))
             else map_option (\<lambda>d. (Some [d], r')) (simple_escape e))
      else if (of_char c :: nat) < 32 then None
      else Some (Some [c], r))"

function p_str :: "string \<Rightarrow> (string \<times> string) option" where
  "p_str s =
     (case next_char s of
        None \<Rightarrow> None
      | Some (None, r) \<Rightarrow> Some ([], r)
      | Some (Some x, r) \<Rightarrow>
          if length r < length s then map_option (\<lambda>(y, t). (x @ y, t)) (p_str r) else None)"
  by pat_completeness auto
termination
  by (relation "measure length") auto

declare p_str.simps [simp del]

definition esc :: "char \<Rightarrow> string" where
  "esc c = (if c = dq then [bs, dq] else if c = bs then [bs, bs]
     else if (of_char c :: nat) < 32 then
       [bs, CHR ''u'', CHR ''0'', CHR ''0'', hex_char (of_char c div 16), hex_char (of_char c mod 16)]
     else [c])"

definition print_str :: "string \<Rightarrow> string" where
  "print_str s = dq # concat (map esc s) @ [dq]"

lemma hex_val_char: "d < 16 \<Longrightarrow> hex_val (hex_char d) = Some d"
proof -
  have all: "list_all (\<lambda>d. hex_val (hex_char d) = Some d) [0, 1, 2, 3, 4, 5, 6, 7, 8, 9, 10, 11, 12, 13, 14, 15]"
    by code_simp
  assume "d < 16"
  then have "d \<in> set [0, 1, 2, 3, 4, 5, 6, 7, 8, 9, 10, 11, 12, 13, 14, 15]"
    by (simp, arith)
  with all show ?thesis by (simp only: list_all_iff)
qed

lemma next_char_esc: "next_char (esc c @ s) = Some (Some [c], s)"
proof -
  consider "c = dq" | "c = bs" | "c \<noteq> dq" "c \<noteq> bs" "(of_char c :: nat) < 32"
    | "c \<noteq> dq" "c \<noteq> bs" "\<not> (of_char c :: nat) < 32" by blast
  then show ?thesis
  proof cases
    case 3
    have "hex_val (CHR ''0'') = Some 0" by code_simp
    moreover have "hex_val (hex_char (of_char c div 16)) = Some (of_char c div 16)"
      using 3 by (intro hex_val_char) simp
    moreover have "hex_val (hex_char (of_char c mod 16)) = Some (of_char c mod 16)"
      by (intro hex_val_char) simp
    ultimately have "hex4 [CHR ''0'', CHR ''0'', hex_char (of_char c div 16), hex_char (of_char c mod 16)] =
        Some (of_char c)"
      by simp
    with 3 show ?thesis by (simp add: esc_def encode_rune_def)
  qed (simp_all add: esc_def simple_escape_def)
qed

lemma esc_Nil [simp]: "esc c \<noteq> []"
  by (simp add: esc_def)

lemma p_str_print: "p_str (concat (map esc s) @ dq # t) = Some (s, t)"
proof (induction s)
  case Nil
  then show ?case by (subst p_str.simps) simp
next
  case (Cons c s)
  have "p_str (esc c @ concat (map esc s) @ dq # t) = Some (c # s, t)"
    using Cons by (subst p_str.simps) (simp add: next_char_esc)
  then show ?case by simp
qed

lemma hex4_length: "hex4 (take 4 r) = Some n \<Longrightarrow> 4 - length r = 0"
proof -
  assume "hex4 (take 4 r) = Some n"
  then have "length (take 4 r) = 4"
    by (cases "take 4 r" rule: hex4.cases) auto
  then show ?thesis by simp
qed

lemma next_char_append: "next_char s = Some (x, t) \<Longrightarrow> next_char (s @ u) = Some (x, t @ u)"
  by (cases s) (auto split: if_splits list.splits simp: hex4_length)

lemma p_str_append: "p_str s = Some (x, t) \<Longrightarrow> p_str (s @ u) = Some (x, t @ u)"
proof (induction s arbitrary: x rule: p_str.induct)
  case (1 s)
  from "1.prems" obtain c r where n: "next_char s = Some (c, r)"
    by (auto simp: p_str.simps [of s] split: option.splits)
  then have nu: "next_char (s @ u) = Some (c, r @ u)" by (rule next_char_append)
  show ?case
  proof (cases c)
    case None
    with "1.prems" n nu show ?thesis by (simp add: p_str.simps [of s] p_str.simps [of "s @ u"])
  next
    case (Some y)
    with "1.prems" n have len: "length r < length s"
      by (auto simp: p_str.simps [of s] split: if_splits)
    with "1.prems" n Some obtain z where "p_str r = Some (z, t)" and "x = y @ z"
      by (auto simp: p_str.simps [of s])
    with "1.IH" [OF n [unfolded Some] _ _ len] n nu Some len show ?thesis
      by (simp add: p_str.simps [of "s @ u"])
  qed
qed

section \<open>The parser and the printer\<close>

definition ws :: "char \<Rightarrow> bool" where
  "ws c \<longleftrightarrow> c \<in> {CHR '' '', CHR 0x09, CHR 0x0A, CHR 0x0D}"

definition skip_ws :: "string \<Rightarrow> string" where
  "skip_ws s = dropWhile ws s"

definition p_lit :: "string \<Rightarrow> (rj \<times> string) option" where
  "p_lit s =
     (if s \<noteq> [] \<and> num_char (hd s) then Some (RNum (takeWhile num_char s), dropWhile num_char s)
      else if HasPrefix s ''null'' then Some (RNull, drop 4 s)
      else if HasPrefix s ''true'' then Some (RBool True, drop 4 s)
      else if HasPrefix s ''false'' then Some (RBool False, drop 5 s)
      else None)"

text \<open>The first argument is fuel: one list element per call.\<close>

fun p_value :: "string \<Rightarrow> string \<Rightarrow> (rj \<times> string) option"
and p_elems :: "string \<Rightarrow> string \<Rightarrow> (rj list \<times> string) option"
and p_members :: "string \<Rightarrow> string \<Rightarrow> ((string \<times> rj) list \<times> string) option" where
  "p_value [] s = None"
| "p_value (_ # n) s =
     (case skip_ws s of
        [] \<Rightarrow> None
      | c # r \<Rightarrow>
          if c = dq then map_option (\<lambda>(x, t). (RStr x, t)) (p_str r)
          else if c = CHR ''['' then
            (if skip_ws r \<noteq> [] \<and> hd (skip_ws r) = CHR '']'' then Some (RArr [], tl (skip_ws r))
             else map_option (\<lambda>(vs, t). (RArr vs, t)) (p_elems n r))
          else if c = CHR ''{'' then
            (if skip_ws r \<noteq> [] \<and> hd (skip_ws r) = CHR ''}'' then Some (RObj [], tl (skip_ws r))
             else map_option (\<lambda>(kvs, t). (RObj kvs, t)) (p_members n r))
          else p_lit (c # r))"
| "p_elems [] s = None"
| "p_elems (_ # n) s =
     (case p_value n s of
        None \<Rightarrow> None
      | Some (v, t) \<Rightarrow>
          (case skip_ws t of
             [] \<Rightarrow> None
           | c # t' \<Rightarrow>
               if c = CHR '','' then map_option (\<lambda>(vs, u). (v # vs, u)) (p_elems n t')
               else if c = CHR '']'' then Some ([v], t') else None))"
| "p_members [] s = None"
| "p_members (_ # n) s =
     (if skip_ws s = [] \<or> hd (skip_ws s) \<noteq> dq then None
      else (case p_str (tl (skip_ws s)) of
        None \<Rightarrow> None
      | Some (k, t) \<Rightarrow>
          if skip_ws t = [] \<or> hd (skip_ws t) \<noteq> CHR '':'' then None
          else (case p_value n (tl (skip_ws t)) of
            None \<Rightarrow> None
          | Some (v, t') \<Rightarrow>
              (case skip_ws t' of
                 [] \<Rightarrow> None
               | c # u \<Rightarrow>
                   if c = CHR '','' then map_option (\<lambda>(kvs, w). ((k, v) # kvs, w)) (p_members n u)
                   else if c = CHR ''}'' then Some ([(k, v)], u) else None))))"

definition parse :: "string \<Rightarrow> rj option" where
  "parse s =
     (case p_value (s @ s @ s) s of
        None \<Rightarrow> None
      | Some (v, t) \<Rightarrow> if skip_ws t = [] \<and> rj_ok v then Some v else None)"

fun print :: "rj \<Rightarrow> string" where
  "print RNull = ''null''"
| "print (RBool b) = (if b then ''true'' else ''false'')"
| "print (RNum n) = n"
| "print (RStr s) = print_str s"
| "print (RArr vs) = ''['' @ Join (map print vs) '','' @ '']''"
| "print (RObj kvs) = ''{'' @ Join (map (\<lambda>(k, v). print_str k @ '':'' @ print v) kvs) '','' @ ''}''"

subsection \<open>Parsing in a context\<close>

text \<open>What may follow a value: nothing, white space or a closing or separating character.\<close>

definition delim :: "string \<Rightarrow> bool" where
  "delim u \<longleftrightarrow> u = [] \<or> ws (hd u) \<or> hd u \<in> set '',]}''"

lemma delim_num: "delim u \<Longrightarrow> u \<noteq> [] \<Longrightarrow> \<not> num_char (hd u)"
  by (auto simp: delim_def num_char_def ws_def)

lemma dropWhile_append_Cons: "dropWhile P s = c # r \<Longrightarrow> dropWhile P (s @ u) = c # r @ u"
  by (induction s) (auto split: if_splits)

lemma skip_ws_Cons: "skip_ws s = c # r \<Longrightarrow> skip_ws (s @ u) = c # r @ u"
  by (simp add: skip_ws_def dropWhile_append_Cons)

lemma skip_ws_append: "skip_ws s \<noteq> [] \<Longrightarrow> skip_ws (s @ u) = skip_ws s @ u"
  by (cases "skip_ws s") (auto simp: skip_ws_Cons)

lemma span_append:
  assumes "dropWhile P s \<noteq> [] \<or> u = [] \<or> \<not> P (hd u)"
  shows "takeWhile P (s @ u) = takeWhile P s \<and> dropWhile P (s @ u) = dropWhile P s @ u"
proof (cases "\<forall>c \<in> set s. P c")
  case True
  then have "takeWhile P s = s" and "dropWhile P s = []" by (simp_all add: takeWhile_eq_all_conv)
  moreover have "takeWhile P u = []" and "dropWhile P u = u"
    using assms \<open>dropWhile P s = []\<close> by (cases u; simp)+
  ultimately show ?thesis
    using True by (simp add: takeWhile_append dropWhile_append) (metis takeWhile_eq_all_conv)
next
  case False
  then show ?thesis by (auto simp: takeWhile_append dropWhile_append)
qed

lemma p_lit_append:
  assumes a: "p_lit s = Some (v, t)" and d: "delim u \<or> t \<noteq> []"
  shows "p_lit (s @ u) = Some (v, t @ u)"
proof (cases "s \<noteq> [] \<and> num_char (hd s)")
  case True
  with a have "t = dropWhile num_char s" by (auto simp: p_lit_def)
  then have "takeWhile num_char (s @ u) = takeWhile num_char s \<and>
      dropWhile num_char (s @ u) = dropWhile num_char s @ u"
    using d delim_num [of u] by (intro span_append) auto
  with True a show ?thesis by (auto simp: p_lit_def)
next
  case False
  with a show ?thesis
    by (auto simp: p_lit_def HasPrefix_iff split: if_splits)
qed

lemma p_nonblank:
  "p_value n s = Some r \<Longrightarrow> skip_ws s \<noteq> []"
  "p_elems n s = Some rs \<Longrightarrow> skip_ws s \<noteq> []"
  "p_members n s = Some rm \<Longrightarrow> skip_ws s \<noteq> []"
proof -
  show v: "p_value n s = Some r \<Longrightarrow> skip_ws s \<noteq> []" for n r
    by (cases n) auto
  show "p_elems n s = Some rs \<Longrightarrow> skip_ws s \<noteq> []"
    using v by (cases n) (auto split: option.splits)
  show "p_members n s = Some rm \<Longrightarrow> skip_ws s \<noteq> []"
    by (cases n) (auto split: if_splits)
qed

lemma p_append:
  "(\<forall>s v t u. p_value n s = Some (v, t) \<longrightarrow> delim u \<or> t \<noteq> [] \<longrightarrow> p_value n (s @ u) = Some (v, t @ u)) \<and>
   (\<forall>s vs t u. p_elems n s = Some (vs, t) \<longrightarrow> p_elems n (s @ u) = Some (vs, t @ u)) \<and>
   (\<forall>s kvs t u. p_members n s = Some (kvs, t) \<longrightarrow> p_members n (s @ u) = Some (kvs, t @ u))"
proof (induction n)
  case Nil
  show ?case by simp
next
  case (Cons x n)
  note IH = Cons.IH
  have "p_value (x # n) (s @ u) = Some (v, t @ u)"
    if a: "p_value (x # n) s = Some (v, t)" and d: "delim u \<or> t \<noteq> []" for s v t u
  proof -
    from a obtain c r where s: "skip_ws s = c # r" by (auto split: list.splits)
    note [simp] = s skip_ws_Cons [OF s]
    consider "c = dq" | "c = CHR ''[''" | "c = CHR ''{''"
      | "c \<noteq> dq" "c \<noteq> CHR ''[''" "c \<noteq> CHR ''{''" by blast
    then show ?thesis
    proof cases
      case 1
      with a show ?thesis by (auto simp: p_str_append)
    next
      case 2
      with a have "skip_ws r \<noteq> []" by (auto split: if_splits dest: p_nonblank)
      with 2 a IH show ?thesis by (auto split: if_splits simp: skip_ws_append)
    next
      case 3
      with a have "skip_ws r \<noteq> []" by (auto split: if_splits dest: p_nonblank)
      with 3 a IH show ?thesis by (auto split: if_splits simp: skip_ws_append)
    next
      case 4
      with a d show ?thesis using p_lit_append [of "c # r" v t u] by simp
    qed
  qed
  moreover have "p_elems (x # n) (s @ u) = Some (vs, t @ u)"
    if a: "p_elems (x # n) s = Some (vs, t)" for s vs t u
  proof -
    from a obtain v t' c r where v: "p_value n s = Some (v, t')" and s: "skip_ws t' = c # r"
      by (auto split: option.splits list.splits)
    then have "t' \<noteq> []" by (auto simp: skip_ws_def)
    with IH v have "p_value n (s @ u) = Some (v, t' @ u)" by blast
    with a v s IH skip_ws_Cons [OF s] show ?thesis
      by (auto split: if_splits)
  qed
  moreover have "p_members (x # n) (s @ u) = Some (kvs, t @ u)"
    if a: "p_members (x # n) s = Some (kvs, t)" for s kvs t u
  proof -
    from a obtain r k t1 where s: "skip_ws s = dq # r" and k: "p_str r = Some (k, t1)"
      by (cases "skip_ws s") (auto split: option.splits if_splits)
    with a obtain r2 v t2 where t1: "skip_ws t1 = CHR '':'' # r2" and v: "p_value n r2 = Some (v, t2)"
      by (cases "skip_ws t1") (auto split: option.splits if_splits)
    with a s k obtain c r3 where t2: "skip_ws t2 = c # r3"
      by (auto split: option.splits if_splits list.splits)
    then have "t2 \<noteq> []" by (auto simp: skip_ws_def)
    with IH v have "p_value n (r2 @ u) = Some (v, t2 @ u)" by blast
    with a s k t1 v t2 IH skip_ws_Cons [OF s] skip_ws_Cons [OF t1] skip_ws_Cons [OF t2]
      p_str_append [OF k]
    show ?thesis by (auto split: if_splits)
  qed
  ultimately show ?case by blast
qed

lemmas p_value_append = p_append [THEN conjunct1, rule_format]

text \<open>More fuel never changes a result.\<close>

lemma p_more:
  "(\<forall>s r. p_value n s = Some r \<longrightarrow> p_value (n @ m) s = Some r) \<and>
   (\<forall>s r. p_elems n s = Some r \<longrightarrow> p_elems (n @ m) s = Some r) \<and>
   (\<forall>s r. p_members n s = Some r \<longrightarrow> p_members (n @ m) s = Some r)"
proof (induction n)
  case Nil
  show ?case by simp
next
  case (Cons x n)
  then show ?case by (auto split: list.splits option.splits if_splits)
qed

text \<open>Only the length of the fuel matters.\<close>

lemma p_length:
  "length n = length m \<Longrightarrow> p_value n = p_value m \<and> p_elems n = p_elems m \<and> p_members n = p_members m"
proof (induction n m rule: list_induct2)
  case Nil
  show ?case by (auto simp: fun_eq_iff)
next
  case (Cons x n y m)
  then show ?case
    by (intro conjI ext) (simp_all only: p_value.simps p_elems.simps p_members.simps)
qed

lemma p_fuel:
  assumes "length n \<le> length m"
  shows "p_value n s = Some r \<Longrightarrow> p_value m s = Some r"
    and "p_elems n s = Some rs \<Longrightarrow> p_elems m s = Some rs"
    and "p_members n s = Some rm \<Longrightarrow> p_members m s = Some rm"
proof -
  define k where "k = take (length n) m"
  have m: "m = k @ drop (length n) m" and len: "length n = length k"
    using assms by (simp_all add: k_def)
  show "p_value n s = Some r \<Longrightarrow> p_value m s = Some r"
    using p_length [OF len] p_more [of k "drop (length n) m"] m by metis
  show "p_elems n s = Some rs \<Longrightarrow> p_elems m s = Some rs"
    using p_length [OF len] p_more [of k "drop (length n) m"] m by metis
  show "p_members n s = Some rm \<Longrightarrow> p_members m s = Some rm"
    using p_length [OF len] p_more [of k "drop (length n) m"] m by metis
qed

subsection \<open>Parsing a concatenation\<close>

lemma skip_ws_pre [simp]: "\<not> ws c \<Longrightarrow> skip_ws (c # s) = c # s"
  by (simp add: skip_ws_def)

lemma ws_marks [simp]:
  "\<not> ws (CHR '','')" "\<not> ws (CHR '']'')" "\<not> ws (CHR ''}'')" "\<not> ws (CHR ''['')" "\<not> ws (CHR ''{'')"
  "\<not> ws (CHR '':'')" "\<not> ws dq"
  by (simp_all add: ws_def)

lemma delim_marks [simp]: "delim (CHR '','' # s)" "delim (CHR '']'' # s)" "delim (CHR ''}'' # s)" "delim []"
  by (simp_all add: delim_def)

lemma delim_skip: "skip_ws t = [] \<Longrightarrow> skip_ws (t @ c # u) = skip_ws (c # u)"
  by (auto simp: skip_ws_def dropWhile_eq_Nil_conv)

text \<open>
  \<open>fits k s v\<close>: with fuel \<open>k\<close>, the text \<open>s\<close> is read as \<open>v\<close> in front of any delimiter, up to white
  space.
\<close>

definition fits :: "nat \<Rightarrow> string \<Rightarrow> rj \<Rightarrow> bool" where
  "fits k s v \<longleftrightarrow> (\<forall>(n::string) u. k \<le> length n \<longrightarrow> delim u \<longrightarrow>
     (\<exists>t. p_value n (s @ u) = Some (v, t @ u) \<and> skip_ws t = []))"

lemma parse_fits: "parse s = Some v \<Longrightarrow> fits (3 * length s) s v"
proof -
  assume "parse s = Some v"
  then obtain t where p: "p_value (s @ s @ s) s = Some (v, t)" and t: "skip_ws t = []"
    by (auto simp: parse_def split: option.splits if_splits)
  show ?thesis
    unfolding fits_def
  proof (intro allI impI)
    fix n :: string and u
    assume "3 * length s \<le> length n" and d: "delim u"
    then have "p_value n s = Some (v, t)"
      using p_fuel(1) [OF _ p, of n] by simp
    with d t show "\<exists>t. p_value n (s @ u) = Some (v, t @ u) \<and> skip_ws t = []"
      using p_value_append by blast
  qed
qed

lemma fitsD:
  assumes "fits k s v" and "k \<le> length n" and "delim u"
  obtains t where "p_value n (s @ u) = Some (v, t @ u)" and "skip_ws t = []"
  using assms unfolding fits_def by blast

lemma p_elems_Join:
  assumes "list_all2 (\<lambda>s v. fits k s v) ss vs" and "ss \<noteq> []" and "k + length ss \<le> length n"
  shows "p_elems n (Join ss '','' @ CHR '']'' # u) = Some (vs, u)"
  using assms
proof (induction ss vs arbitrary: n rule: list_all2_induct)
  case Nil
  then show ?case by simp
next
  case (Cons s ss v vs)
  then obtain x m where n: "n = x # m" by (cases n) auto
  show ?case
  proof (cases ss)
    case Nil
    have "vs = []" using Cons.hyps(2) Nil by simp
    have "k \<le> length m" using Cons.prems n by simp
    then obtain t where "p_value m (s @ CHR '']'' # u) = Some (v, t @ CHR '']'' # u)" and "skip_ws t = []"
      using fitsD [OF Cons.hyps(1), of m "CHR '']'' # u"] by auto
    then show ?thesis using n Nil \<open>vs = []\<close> by (simp add: delim_skip)
  next
    case (Cons s' ss')
    let ?rest = "Join ss '','' @ CHR '']'' # u"
    have "k \<le> length m" using Cons.prems n by simp
    then obtain t where "p_value m (s @ CHR '','' # ?rest) = Some (v, t @ CHR '','' # ?rest)"
      and "skip_ws t = []"
      using fitsD [OF Cons.hyps(1), of m "CHR '','' # ?rest"] by auto
    moreover have "p_elems m ?rest = Some (vs, u)"
      using Cons.IH [of m] Cons.prems n \<open>ss = s' # ss'\<close> by simp
    ultimately show ?thesis
      using n \<open>ss = s' # ss'\<close> by (simp add: Join_Cons delim_skip)
  qed
qed

lemma fits_mono: "fits k s v \<Longrightarrow> k \<le> k' \<Longrightarrow> fits k' s v"
  by (auto simp: fits_def)

lemma fits_exact:
  assumes "\<And>n u. k \<le> length n \<Longrightarrow> delim u \<Longrightarrow> p_value n (s @ u) = Some (v, u)"
  shows "fits k s v"
  unfolding fits_def
proof (intro allI impI)
  fix n :: string and u
  assume "k \<le> length n" and "delim u"
  then have "p_value n (s @ u) = Some (v, [] @ u) \<and> skip_ws [] = []"
    using assms by (simp add: skip_ws_def)
  then show "\<exists>t. p_value n (s @ u) = Some (v, t @ u) \<and> skip_ws t = []" by blast
qed

lemma fits_nonblank: "fits k s v \<Longrightarrow> skip_ws s \<noteq> []"
proof -
  assume "fits k s v"
  then obtain t where "p_value (replicate k (CHR ''a'')) (s @ []) = Some (v, t @ [])"
    using fitsD [of k s v "replicate k (CHR ''a'')" "[]"] by auto
  then show ?thesis by (auto dest: p_nonblank)
qed

text \<open>A value never starts with a closing bracket.\<close>

lemma fits_head: "fits k s v \<Longrightarrow> hd (skip_ws s) \<noteq> CHR '']'' \<and> hd (skip_ws s) \<noteq> CHR ''}''"
proof -
  assume f: "fits k s v"
  then obtain t where p: "p_value (replicate k (CHR ''a'')) (s @ []) = Some (v, t @ [])"
    using fitsD [of k s v "replicate k (CHR ''a'')" "[]"] by auto
  obtain c r where "skip_ws s = c # r" using fits_nonblank [OF f] by (cases "skip_ws s") auto
  with p show ?thesis
    by (cases k) (auto simp: p_lit_def HasPrefix_iff num_char_def split: if_splits)
qed

lemma Join_append: "ss \<noteq> [] \<Longrightarrow> \<exists>r. Join ss sep = hd ss @ r"
  by (cases ss; cases "tl ss") auto

lemma fits_array:
  assumes "list_all2 (fits k) ss vs" and "k + length ss + 1 \<le> k'"
  shows "fits k' (''['' @ Join ss '','' @ '']'') (RArr vs)"
proof (rule fits_exact)
  fix n :: string and u
  assume n: "k' \<le> length n" "delim u"
  with assms(2) obtain x m where m: "n = x # m" by (cases n) auto
  show "p_value n ((''['' @ Join ss '','' @ '']'') @ u) = Some (RArr vs, u)"
  proof (cases "ss = []")
    case True
    with assms(1) m show ?thesis by simp
  next
    case False
    then obtain s0 ss' v0 vs' where ss: "ss = s0 # ss'" and f0: "fits k s0 v0"
      using assms(1) by (cases ss) (auto simp: list_all2_Cons1)
    obtain r where r: "Join ss '','' = s0 @ r" using Join_append [OF False] ss by auto
    have "skip_ws (Join ss '','' @ CHR '']'' # u) = skip_ws s0 @ r @ CHR '']'' # u"
      using r skip_ws_append [OF fits_nonblank [OF f0]] by simp
    then have "hd (skip_ws (Join ss '','' @ CHR '']'' # u)) \<noteq> CHR '']''"
      using fits_head [OF f0] fits_nonblank [OF f0] by (cases "skip_ws s0") auto
    moreover have "p_elems m (Join ss '','' @ CHR '']'' # u) = Some (vs, u)"
      using p_elems_Join [OF assms(1) False] assms(2) n m by simp
    ultimately show ?thesis using m by simp
  qed
qed

lemma p_members_Join:
  assumes "list_all2 (\<lambda>s (k, v). \<exists>t. s = print_str k @ '':'' @ t \<and> fits f t v) ss kvs"
    and "ss \<noteq> []" and "f + length ss \<le> length n"
  shows "p_members n (Join ss '','' @ CHR ''}'' # u) = Some (kvs, u)"
  using assms
proof (induction ss kvs arbitrary: n rule: list_all2_induct)
  case Nil
  then show ?case by simp
next
  case (Cons s ss kv kvs)
  obtain k v where kv: "kv = (k, v)" by (cases kv)
  with Cons.hyps(1) obtain w where s: "s = print_str k @ '':'' @ w" and w: "fits f w v" by auto
  obtain x m where n: "n = x # m" using Cons.prems by (cases n) auto
  have m: "f \<le> length m" using Cons.prems n by simp
  have str: "p_str (concat (map esc k) @ dq # CHR '':'' # w @ r) = Some (k, CHR '':'' # w @ r)" for r
    by (rule p_str_print)
  show ?case
  proof (cases "ss = []")
    case True
    then have "kvs = []" using Cons.hyps(2) by simp
    obtain t where "p_value m (w @ CHR ''}'' # u) = Some (v, t @ CHR ''}'' # u)" and "skip_ws t = []"
      using fitsD [OF w m, of "CHR ''}'' # u"] by auto
    then show ?thesis
      using n True s kv \<open>kvs = []\<close> str by (simp add: print_str_def delim_skip)
  next
    case False
    let ?rest = "Join ss '','' @ CHR ''}'' # u"
    obtain t where "p_value m (w @ CHR '','' # ?rest) = Some (v, t @ CHR '','' # ?rest)"
      and "skip_ws t = []"
      using fitsD [OF w m, of "CHR '','' # ?rest"] by auto
    moreover have "p_members m ?rest = Some (kvs, u)"
      using Cons.IH [of m] Cons.prems n False by simp
    ultimately show ?thesis
      using n False s kv str by (simp add: Join_Cons print_str_def delim_skip)
  qed
qed

lemma fits_object:
  assumes "list_all2 (\<lambda>s (k, v). \<exists>t. s = print_str k @ '':'' @ t \<and> fits f t v) ss kvs"
    and "f + length ss + 1 \<le> f'"
  shows "fits f' (''{'' @ Join ss '','' @ ''}'') (RObj kvs)"
proof (rule fits_exact)
  fix n :: string and u
  assume n: "f' \<le> length n" "delim u"
  with assms(2) obtain x m where m: "n = x # m" by (cases n) auto
  show "p_value n ((''{'' @ Join ss '','' @ ''}'') @ u) = Some (RObj kvs, u)"
  proof (cases "ss = []")
    case True
    with assms(1) m show ?thesis by simp
  next
    case False
    then obtain s0 ss' k0 v0 kvs' t where ss: "ss = s0 # ss'" and "s0 = print_str k0 @ t"
      using assms(1) by (cases ss) (auto simp: list_all2_Cons1)
    then obtain r where r: "Join ss '','' @ CHR ''}'' # u = dq # r"
      using Join_append [OF False, of "'',''"] by (auto simp: print_str_def)
    have "p_members m (dq # r) = Some (kvs, u)"
      using p_members_Join [OF assms(1) False, of m u] assms(2) n m r by simp
    with r m show ?thesis by simp
  qed
qed

subsection \<open>Printing and parsing back\<close>

lemma length_Join_commas: "length ss \<le> Suc (length (Join ss '',''))"
  by (induction ss "'',''" rule: Join.induct) auto

lemma length_Join: "s \<in> set ss \<Longrightarrow> length s + length ss \<le> Suc (length (Join ss '',''))"
proof (induction ss "'',''" rule: Join.induct)
  case (3 w v ws)
  then show ?case using length_Join_commas [of "v # ws"] by auto
qed auto

lemma fits_array_len:
  assumes "list_all2 (\<lambda>s v. fits (3 * length s) s v) ss vs"
  shows "fits (3 * length (''['' @ Join ss '','' @ '']'')) (''['' @ Join ss '','' @ '']'') (RArr vs)"
proof -
  let ?k = "3 * (length (Join ss '','') + 1 - length ss)"
  have "list_all2 (fits ?k) ss vs"
    using assms length_Join by (rule_tac list.rel_mono_strong [OF assms])
      (auto elim!: fits_mono simp: algebra_simps dest!: length_Join)
  then show ?thesis using length_Join_commas [of ss] by (elim fits_array) simp
qed

lemma fits_object_len:
  assumes "list_all2 (\<lambda>s (k, v). \<exists>t. s = print_str k @ '':'' @ t \<and> fits (3 * length t) t v) ss kvs"
  shows "fits (3 * length (''{'' @ Join ss '','' @ ''}'')) (''{'' @ Join ss '','' @ ''}'') (RObj kvs)"
proof -
  let ?k = "3 * (length (Join ss '','') + 1 - length ss)"
  have "list_all2 (\<lambda>s (k, v). \<exists>t. s = print_str k @ '':'' @ t \<and> fits ?k t v) ss kvs"
  proof (rule list.rel_mono_strong [OF assms])
    fix s and kv :: "string \<times> rj"
    assume "s \<in> set ss" and a: "case kv of (k, v) \<Rightarrow> \<exists>t. s = print_str k @ '':'' @ t \<and> fits (3 * length t) t v"
    then have "length s + length ss \<le> Suc (length (Join ss '',''))" by (intro length_Join)
    with a show "case kv of (k, v) \<Rightarrow> \<exists>t. s = print_str k @ '':'' @ t \<and> fits ?k t v"
      by (auto elim!: fits_mono)
  qed
  then show ?thesis using length_Join_commas [of ss] by (elim fits_object) simp
qed

lemma fits_lit:
  assumes "s \<noteq> []" and "\<not> ws (hd s)" and "hd s \<notin> {dq, CHR ''['', CHR ''{''}"
    and "\<And>u. delim u \<Longrightarrow> p_lit (s @ u) = Some (v, u)"
  shows "fits (3 * length s) s v"
proof (rule fits_exact)
  fix n :: string and u
  assume "3 * length s \<le> length n" and "delim u"
  moreover obtain c r where "s = c # r" using assms(1) by (cases s) auto
  ultimately show "p_value n (s @ u) = Some (v, u)"
    using assms by (cases n) auto
qed

lemma fits_print: "rj_ok v \<Longrightarrow> fits (3 * length (print v)) (print v) v"
proof (induction v)
  case RNull
  show ?case by (rule fits_lit) (auto simp: p_lit_def ws_def num_char_def HasPrefix_iff)
next
  case (RBool b)
  show ?case
    by (rule fits_lit) (auto simp: p_lit_def ws_def num_char_def HasPrefix_iff split: if_splits)
next
  case (RNum n)
  then have n: "n \<noteq> []" "\<forall>c \<in> set n. num_char c" by (auto simp: list_all_iff)
  have "p_lit (n @ u) = Some (RNum n, u)" if "delim u" for u
  proof -
    have "dropWhile num_char n = []" and "takeWhile num_char n = n"
      using n by (simp_all add: takeWhile_eq_all_conv)
    then have "p_lit n = Some (RNum n, [])" using n by (cases n) (auto simp: p_lit_def)
    then show ?thesis using p_lit_append that by fastforce
  qed
  moreover have "\<not> ws (hd n) \<and> hd n \<notin> {dq, CHR ''['', CHR ''{''}"
    using n by (cases n) (auto simp: num_char_def ws_def)
  ultimately show ?case using n by (simp add: fits_lit)
next
  case (RStr s)
  have "p_value n (print_str s @ u) = Some (RStr s, u)" if "3 * length (print_str s) \<le> length n" for n u
    using that p_str_print [of s u] by (cases n) (auto simp: print_str_def)
  then show ?case by (intro fits_exact) simp
next
  case (RArr vs)
  then have "list_all2 (\<lambda>s v. fits (3 * length s) s v) (map print vs) vs"
    by (auto simp: list_all2_map1 list_all_iff intro!: list.rel_refl_strong)
  then show ?case using fits_array_len by simp
next
  case (RObj kvs)
  then have "list_all2 (\<lambda>s (k, v). \<exists>t. s = print_str k @ '':'' @ t \<and> fits (3 * length t) t v)
      (map (\<lambda>(k, v). print_str k @ '':'' @ print v) kvs) kvs"
    by (auto simp: list_all2_map1 list_all_iff intro!: list.rel_refl_strong)
  then show ?case using fits_object_len by simp
qed

lemma fits_parse: "fits (3 * length s) s v \<Longrightarrow> rj_ok v \<Longrightarrow> parse s = Some v"
proof -
  assume f: "fits (3 * length s) s v" and ok: "rj_ok v"
  obtain t where "p_value (s @ s @ s) (s @ []) = Some (v, t @ [])" and "skip_ws t = []"
    using fitsD [OF f, of "s @ s @ s" "[]"] by auto
  with ok show ?thesis by (simp add: parse_def)
qed

theorem parse_print: "rj_ok v \<Longrightarrow> parse (print v) = Some v"
  by (simp add: fits_print fits_parse)

lemma parse_ok: "parse s = Some v \<Longrightarrow> rj_ok v"
  by (auto simp: parse_def split: option.splits if_splits)

lemma parse_array:
  assumes "list_all2 (\<lambda>t v. parse t = Some v) ts vs"
  shows "parse (''['' @ Join ts '','' @ '']'') = Some (RArr vs)"
proof (rule fits_parse)
  have "list_all2 (\<lambda>s v. fits (3 * length s) s v) ts vs"
    using assms by (rule list_all2_mono) (simp add: parse_fits)
  then show "fits (3 * length (''['' @ Join ts '','' @ '']'')) (''['' @ Join ts '','' @ '']'') (RArr vs)"
    by (rule fits_array_len)
  have "list_all2 (\<lambda>t v. rj_ok v) ts vs"
    using assms by (rule list_all2_mono) (simp add: parse_ok)
  then show "rj_ok (RArr vs)"
    by (auto simp: list_all2_conv_all_nth list_all_length)
qed

section \<open>The library\<close>

definition ref_D :: "string \<Rightarrow> json option" where
  "ref_D s = map_option rj_abs (parse s)"

type_synonym ref_result = "rj option"

text \<open>A result carries a tree the library has parsed; \<open>ref_V\<close> is blind to anything else.\<close>

definition ref_V :: "ref_result \<Rightarrow> json option" where
  "ref_V r = (case r of None \<Rightarrow> None | Some v \<Rightarrow> if rj_ok v then Some (rj_abs v) else None)"

fun gv_rj :: "govalue \<Rightarrow> rj" where
  "gv_rj (VString s) = RStr s"
| "gv_rj (VStrings None) = RNull"
| "gv_rj (VStrings (Some ss)) = RArr (map RStr ss)"
| "gv_rj (VMap kvs) = RObj (map (\<lambda>(k, v). (k, case v of None \<Rightarrow> RNull | Some s \<Rightarrow> RStr s)) kvs)"

definition ref_set :: "bytes \<Rightarrow> string \<Rightarrow> rj \<Rightarrow> bytes res" where
  "ref_set x p u =
     (case (if bytes_str x = [] then Some (RObj []) else parse (bytes_str x)) of
        None \<Rightarrow> Inl (Errorf ''invalid document'')
      | Some v \<Rightarrow>
          (case rset v (jpath p) u of
             None \<Rightarrow> Inl (Errorf ''cannot set the path'')
           | Some w \<Rightarrow> Inr (Some (print w))))"

definition ref_checked :: "rj option \<Rightarrow> rj option" where
  "ref_checked r = (case r of None \<Rightarrow> None | Some v \<Rightarrow> if rj_ok v then Some v else None)"

definition ref_lib :: "ref_result jsonlib" where
  "ref_lib = \<lparr>
     gjson_GetBytes = (\<lambda>x p. case parse (bytes_str x) of None \<Rightarrow> None | Some v \<Rightarrow> rget v (jpath p)),
     gjson_ParseBytes = (\<lambda>x. parse (bytes_str x)),
     gjson_ValidBytes = (\<lambda>x. parse (bytes_str x) \<noteq> None),
     gjson_Get = (\<lambda>r p. case ref_checked r of None \<Rightarrow> None | Some v \<Rightarrow> rget v (jpath p)),
     gjson_Exists = (\<lambda>r. ref_checked r \<noteq> None),
     gjson_IsObject = (\<lambda>r. case ref_checked r of Some (RObj kvs) \<Rightarrow> True | _ \<Rightarrow> False),
     gjson_String = (\<lambda>r. case ref_checked r of
        None \<Rightarrow> []
      | Some RNull \<Rightarrow> []
      | Some (RStr s) \<Rightarrow> s
      | Some v \<Rightarrow> print v),
     gjson_Array = (\<lambda>r. case ref_checked r of
        None \<Rightarrow> [] | Some RNull \<Rightarrow> [] | Some (RArr vs) \<Rightarrow> map Some vs | Some v \<Rightarrow> [Some v]),
     gjson_Map = (\<lambda>r. case ref_checked r of
        Some (RObj kvs) \<Rightarrow> map (\<lambda>(k, v). (k, Some v)) kvs | _ \<Rightarrow> []),
     gjson_IsNil = (\<lambda>r. ref_checked r = None \<or> ref_checked r = Some RNull),
     gjson_Raw = (\<lambda>r. case ref_checked r of None \<Rightarrow> [] | Some v \<Rightarrow> print v),
     sjson_SetBytes = (\<lambda>x p v. ref_set x p (gv_rj v)),
     sjson_SetRawBytes = (\<lambda>x p y. case parse (bytes_str y) of
        None \<Rightarrow> Inl (Errorf ''invalid value'')
      | Some u \<Rightarrow> ref_set x p u) \<rparr>"

subsection \<open>The laws\<close>

lemma letter_ascii: "letter c \<Longrightarrow> ascii_byte c"
proof -
  have "list_all ascii_byte ''abcdefghijklmnopqrstuvwxyzABCDEFGHIJKLMNOPQRSTUVWXYZ''" by code_simp
  then show "letter c \<Longrightarrow> ?thesis" by (simp only: list_all_iff letter_def)
qed

lemma letters_utf8: "list_all letter w \<Longrightarrow> utf8 w"
  by (induction w) (auto simp: letter_ascii)

lemma plain_path_utf8: "plain_path p \<Longrightarrow> list_all utf8 (jpath p)"
  by (auto simp: plain_path_def list_all_iff letters_utf8)

lemma gv_rj_ok: "gv_ok v \<Longrightarrow> rj_ok (gv_rj v)"
  by (induction v rule: gv_rj.induct)
    (auto simp: list_all_iff comp_def case_prod_beta split: option.splits)

lemma gv_rj_abs: "rj_abs (gv_rj v) = gv_json v"
proof (induction v rule: gv_rj.induct)
  case (4 kvs)
  have "map_of (map (\<lambda>(k, v). (k, ptr_json v)) kvs) = map_option ptr_json \<circ> map_of kvs"
    by (rule ext) (simp add: map_of_abs)
  moreover have "map (\<lambda>(k, v). (k, rj_abs v)) (map (\<lambda>(k, v). (k, case v of None \<Rightarrow> RNull | Some s \<Rightarrow> RStr s)) kvs) =
      map (\<lambda>(k, v). (k, ptr_json v)) kvs"
    by (auto simp: ptr_json_def split: option.splits)
  ultimately show ?case by (simp only: gv_rj.simps rj_abs.simps gv_json.simps)
qed auto

lemma ref_V_Some: "ref_V r = Some j \<longleftrightarrow> (\<exists>v. r = Some v \<and> rj_ok v \<and> j = rj_abs v)"
  by (auto simp: ref_V_def split: option.splits)

lemma ref_V_checked: "ref_V r = map_option rj_abs (ref_checked r)"
  by (auto simp: ref_V_def ref_checked_def split: option.splits)

lemma ref_checked_ok: "ref_checked r = Some v \<Longrightarrow> rj_ok v"
  by (auto simp: ref_checked_def split: option.splits if_splits)

lemma doc_ref: "doc ref_D x j \<longleftrightarrow> (\<exists>b v. x = Some b \<and> parse b = Some v \<and> j = rj_abs v)"
  by (auto simp: doc_def ref_D_def)

lemma ref_V_rget: "rj_ok v \<Longrightarrow> ref_V (rget v ks) = jget (rj_abs v) ks"
  using rj_ok_rget [of v ks] rget_abs [of v ks] by (auto simp: ref_V_def split: option.splits)

lemma ref_set_yields:
  assumes "(if bytes_str x = [] then Some (RObj []) else parse (bytes_str x)) = Some v"
    and "rj_ok v" and "rj_ok u" and "plain_path p" and "settable (rj_abs v) (jpath p)"
  shows "yields ref_D (ref_set x p u) (jset (rj_abs v) (jpath p) (rj_abs u))"
proof -
  from rset_abs [OF assms(5), of u] obtain w where
    w: "rset v (jpath p) u = Some w" "rj_abs w = jset (rj_abs v) (jpath p) (rj_abs u)" by blast
  then have "rj_ok w"
    using rj_ok_rset assms plain_path_utf8 by blast
  then have "ref_D (print w) = Some (jset (rj_abs v) (jpath p) (rj_abs u))"
    using w by (simp add: ref_D_def parse_print)
  with assms(1) w show ?thesis by (simp add: ref_set_def)
qed

lemma parse_Nil: "parse [] = None"
  by (simp add: parse_def)

lemma ref_D_set:
  assumes "doc ref_D x j" and "rj_ok u" and "plain_path p" and "settable j (jpath p)"
  shows "yields ref_D (ref_set x p u) (jset j (jpath p) (rj_abs u))"
proof -
  from assms(1) obtain b v where b: "x = Some b" "parse b = Some v" "j = rj_abs v"
    by (auto simp: doc_ref)
  moreover from b have "b \<noteq> []" by (auto simp: parse_Nil)
  ultimately show ?thesis
    using ref_set_yields [of x v u p] assms parse_ok by auto
qed

lemma rj_abs_inv:
  "rj_abs v = JNull \<longleftrightarrow> v = RNull"
  "rj_abs v = JStr s \<longleftrightarrow> v = RStr s"
  "rj_abs v = JBool b \<longleftrightarrow> v = RBool b"
  "rj_abs v = JArr js \<longleftrightarrow> (\<exists>vs. v = RArr vs \<and> js = map rj_abs vs)"
  "rj_abs v = JObj m \<longleftrightarrow> (\<exists>kvs. v = RObj kvs \<and> m = map_of (map (\<lambda>(k, v). (k, rj_abs v)) kvs))"
  by (cases v; auto)+

lemma parse_head:
  "parse (CHR ''{'' # t) = Some v \<Longrightarrow> \<exists>kvs. v = RObj kvs"
  "parse (CHR ''['' # t) = Some v \<Longrightarrow> \<exists>vs. v = RArr vs"
  by (auto simp: parse_def split: option.splits if_splits)

lemma rj_ok_jget:
  assumes "rj_ok v" and "jget (rj_abs v) ks = Some j"
  obtains u where "rj_ok u" and "rj_abs u = j"
proof -
  from assms(2) obtain u where "rget v ks = Some u" and "rj_abs u = j"
    using rget_abs [of v ks] by (cases "rget v ks") auto
  with assms(1) that rj_ok_rget show thesis by blast
qed

lemma ref_array:
  assumes "list_all2 (\<lambda>t j. ref_D t = Some j) ts js"
  shows "ref_D (''['' @ Join ts '','' @ '']'') = Some (JArr js)"
proof -
  have p: "list_all2 (\<lambda>t v. parse t = Some v) ts (map (\<lambda>t. the (parse t)) ts)"
    using assms by (auto simp: list_all2_conv_all_nth ref_D_def)
  have "js = map rj_abs (map (\<lambda>t. the (parse t)) ts)"
    using assms by (auto simp: list_all2_conv_all_nth ref_D_def intro!: nth_equalityI)
  with parse_array [OF p] show ?thesis by (simp add: ref_D_def)
qed

interpretation ref: json_library ref_lib ref_D ref_V
proof (unfold_locales, goal_cases)
  case (1 x j p)
  then show ?case by (auto simp: doc_ref ref_lib_def ref_V_rget parse_ok)
next
  case (2 x p)
  then show ?case by (simp add: ref_lib_def parse_Nil ref_V_def)
next
  case (3 x j)
  then show ?case by (auto simp: doc_ref ref_lib_def ref_V_Some parse_ok)
next
  case (4 x j)
  then show ?case by (auto simp: doc_ref ref_lib_def)
next
  case (5 p r)
  then show ?case
    using ref_checked_ok [of r]
    by (auto simp: ref_lib_def ref_V_checked [of r] ref_V_rget split: option.splits) (simp add: ref_V_def)
next
  case (6 r)
  then show ?case by (simp add: ref_lib_def ref_V_checked)
next
  case (7 r)
  then show ?case
    by (auto simp: ref_lib_def ref_V_checked rj_abs_inv split: option.splits rj.splits)
next
  case (8 r s)
  then show ?case
    by (auto simp: ref_lib_def ref_V_checked split: option.splits rj.splits if_splits)
next
  case (9 r js)
  then obtain vs where k: "ref_checked r = Some (RArr vs)" and js: "js = map rj_abs vs"
    by (auto simp: ref_V_checked rj_abs_inv)
  with ref_checked_ok [OF k] show ?case by (simp add: ref_lib_def ref_V_def list_all_iff)
next
  case (10 r)
  then show ?case by (auto simp: ref_lib_def ref_V_checked rj_abs_inv)
next
  case (11 r m)
  then obtain kvs where k: "ref_checked r = Some (RObj kvs)" and m: "m = map_of (map (\<lambda>(k, v). (k, rj_abs v)) kvs)"
    by (auto simp: ref_V_checked rj_abs_inv)
  from ref_checked_ok [OF k] have ok: "distinct (map fst kvs)" "\<And>k v. (k, v) \<in> set kvs \<Longrightarrow> rj_ok v"
    by (auto simp: list_all_iff)
  have "map_option ref_V (map_of (map (\<lambda>(k, v). (k, Some v)) kvs) k) = map_option Some (m k)" for k
    using ok(2) by (auto simp: m map_of_abs option.map_comp comp_def ref_V_def
        intro!: option.map_cong dest!: map_of_SomeD)
  with ok k show ?case by (simp add: ref_lib_def comp_def case_prod_beta)
next
  case (12 r)
  then show ?case by (auto simp: ref_lib_def ref_V_checked rj_abs_inv)
next
  case (13 r)
  then show ?case by (auto simp: ref_lib_def ref_V_checked rj_abs_inv)
next
  case (14 r j)
  then show ?case
    by (auto simp: ref_lib_def ref_V_checked ref_D_def parse_print ref_checked_ok)
next
  case (15 r)
  then show ?case by (auto simp: ref_lib_def ref_V_checked)
next
  case (16 x j p v)
  then show ?case using ref_D_set [of x j "gv_rj v" p] by (simp add: ref_lib_def gv_rj_ok gv_rj_abs)
next
  case (17 x p v)
  then show ?case
    using ref_set_yields [of x "RObj []" "gv_rj v" p] by (simp add: ref_lib_def gv_rj_ok gv_rj_abs)
next
  case (18 x j p y u)
  then show ?case by (auto simp: ref_lib_def doc_ref [of y] ref_D_set parse_ok)
next
  case (19 ts js)
  then show ?case by (rule ref_array)
next
  case (20 t j)
  then show ?case by (auto simp: ref_D_def dest: parse_head)
next
  case (21 t j)
  then show ?case by (auto simp: ref_D_def dest: parse_head)
next
  case 22
  then show ?case by (simp add: ref_D_def parse_Nil)
next
  case (23 b j ks s)
  then show ?case by (auto simp: ref_D_def rj_abs_inv dest!: parse_ok elim!: rj_ok_jget [rotated])
next
  case (24 b j ks m k u)
  then show ?case
    by (auto simp: ref_D_def rj_abs_inv list_all_iff map_of_abs dest!: parse_ok map_of_SomeD
        elim!: rj_ok_jget [rotated]) fastforce
next
  case (25 b j ks js s)
  then show ?case
    by (auto simp: ref_D_def rj_abs_inv list_all_iff eq_commute [of "JStr s"] dest!: parse_ok
        elim!: rj_ok_jget [rotated]) fastforce
qed

lemma ref_doc: "rj_ok v \<Longrightarrow> doc ref_D (Some (print v)) (rj_abs v)"
  by (simp add: ref_D_def parse_print)

end
