(* ===== verification/Rules.thy ===== *)
theory Rules
  imports Name_Rewriter Json_Reference
begin

text \<open>
  The rewrite rules, \<^verbatim>\<open>pkg/rewriter/rules.go\<close>: groups and resources that are renamed, the lookups by
  group, kind and resource type, the renaming of API versions, kinds, resources, short names and
  categories, and the exclude rules. The Go maps \<^verbatim>\<open>Rules\<close> and \<^verbatim>\<open>ResourceRules\<close> are iterated by the
  code, in an order the language leaves open; they are association lists, the list order being the
  order of the iteration. A pointer result is an option, \<^verbatim>\<open>nil\<close> being \<open>None\<close>. A category list may be
  \<^verbatim>\<open>nil\<close>, which reaches the payload as \<^verbatim>\<open>null\<close>, so it is an option too.

  \<open>rules_wf\<close> says when a rule set is consistent, \<open>rules_ready\<close> that it is consistent, made of UTF-8
  texts and initialised. Shown: initialisation establishes \<open>rules_ready\<close>; API versions survive a
  rename and a restore in both directions; the lookups that iterate over the maps do not depend on
  the order; an exclude rule matches by kind, name and labels.
\<close>

section \<open>Model\<close>

record GroupRule =
  gr_Group :: string
  gr_Versions :: "string list"
  gr_PreferredVersion :: string
  gr_Renamed :: string

record ResourceRule =
  rs_Kind :: string
  rs_ListKind :: string
  rs_Plural :: string
  rs_Singular :: string
  rs_ShortNames :: "string list"
  rs_Categories :: "string list option"
  rs_Versions :: "string list"
  rs_PreferredVersion :: string

record APIGroupRule =
  ag_GroupRule :: GroupRule
  ag_ResourceRules :: "(string \<times> ResourceRule) list"

record WebhookRule =
  wh_Path :: string
  wh_Group :: string
  wh_Resource :: string

record ExcludeRule =
  ex_Kinds :: "string list"
  ex_MatchNames :: "string list"
  ex_MatchLabels :: "(string \<times> string) list"

record RewriteRules =
  rr_KindPrefix :: string
  rr_ResourceTypePrefix :: string
  rr_ShortNamePrefix :: string
  rr_Categories :: "string list option"
  rr_Rules :: "(string \<times> APIGroupRule) list"
  rr_Webhooks :: "string \<Rightarrow> WebhookRule option"
  rr_Labels :: MetadataReplace
  rr_Annotations :: MetadataReplace
  rr_Finalizers :: MetadataReplace
  rr_Excludes :: "ExcludeRule list"
  rr_labelsRewriter :: PrefixedNameRewriter
  rr_annotationsRewriter :: PrefixedNameRewriter
  rr_finalizersRewriter :: PrefixedNameRewriter
  rr_apiGroupsIndex :: MapIndexer

definition originalKinds :: "RewriteRules \<Rightarrow> string list" where
  "originalKinds rr =
     concat (map (\<lambda>(_, apiGroupRule).
       concat (map (\<lambda>(_, resourceRule). [rs_Kind resourceRule, rs_ListKind resourceRule])
         (ag_ResourceRules apiGroupRule))) (rr_Rules rr))"

definition rr_Init :: "RewriteRules \<Rightarrow> RewriteRules" where
  "rr_Init rr =
     (let rr1 = rr\<lparr> rr_labelsRewriter := NewPrefixedNameRewriter (rr_Labels rr),
                    rr_annotationsRewriter := NewPrefixedNameRewriter (rr_Annotations rr),
                    rr_finalizersRewriter := NewPrefixedNameRewriter (rr_Finalizers rr) \<rparr>;
          kinds = originalKinds rr1;
          rr2 = (if length kinds > 0
                 then rr1\<lparr> rr_Excludes := rr_Excludes rr1 @
                        [\<lparr> ex_Kinds = kinds, ex_MatchNames = [], ex_MatchLabels = [] \<rparr>] \<rparr>
                 else rr1)
      in rr2\<lparr> rr_apiGroupsIndex :=
           foldl (\<lambda>m (_, apiGroupRule). mi_AddPair m (gr_Group (ag_GroupRule apiGroupRule)) (gr_Renamed (ag_GroupRule apiGroupRule)))
             NewMapIndexer (rr_Rules rr2) \<rparr>)"

text \<open>\<^verbatim>\<open>GetAPIGroupList\<close> builds a value for the JSON encoder.\<close>

definition version_entry :: "string \<Rightarrow> string \<Rightarrow> json" where
  "version_entry grp ver =
     JObj [''groupVersion'' \<mapsto> JStr (grp @ ''/'' @ ver), ''version'' \<mapsto> JStr ver]"

definition rr_GetAPIGroupList :: "RewriteRules \<Rightarrow> json list" where
  "rr_GetAPIGroupList rr =
     map (\<lambda>(_, rGroup). let g = ag_GroupRule rGroup in
       JObj [''name'' \<mapsto> JStr (gr_Group g),
             ''preferredVersion'' \<mapsto> version_entry (gr_Group g) (gr_PreferredVersion g),
             ''versions'' \<mapsto> JArr (map (version_entry (gr_Group g)) (gr_Versions g))]) (rr_Rules rr)"

fun ResourceByKind_in :: "string \<Rightarrow> (string \<times> ResourceRule) list \<Rightarrow> string \<Rightarrow> (string \<times> string \<times> bool) option" where
  "ResourceByKind_in groupName [] kind = None"
| "ResourceByKind_in groupName ((resName, res) # rest) kind =
     (if rs_Kind res = kind then Some (groupName, resName, False)
      else if rs_ListKind res = kind then Some (groupName, resName, True)
      else ResourceByKind_in groupName rest kind)"

fun ResourceByKind_loop :: "(string \<times> APIGroupRule) list \<Rightarrow> string \<Rightarrow> string \<times> string \<times> bool" where
  "ResourceByKind_loop [] kind = ([], [], False)"
| "ResourceByKind_loop ((groupName, grp) # rest) kind =
     (case ResourceByKind_in groupName (ag_ResourceRules grp) kind of
       Some r \<Rightarrow> r
     | None \<Rightarrow> ResourceByKind_loop rest kind)"

definition rr_ResourceByKind :: "RewriteRules \<Rightarrow> string \<Rightarrow> string \<times> string \<times> bool" where
  "rr_ResourceByKind rr kind = ResourceByKind_loop (rr_Rules rr) kind"

definition rr_WebhookRule :: "RewriteRules \<Rightarrow> string \<Rightarrow> WebhookRule option" where
  "rr_WebhookRule rr path = rr_Webhooks rr path"

definition rr_IsRenamedGroup :: "RewriteRules \<Rightarrow> string \<Rightarrow> bool" where
  "rr_IsRenamedGroup rr apiGroup =
     (case Cut apiGroup (CHR ''/'') of (apiGroup, _, _) \<Rightarrow> mi_IsRenamed (rr_apiGroupsIndex rr) apiGroup)"

definition rr_HasGroup :: "RewriteRules \<Rightarrow> string \<Rightarrow> bool" where
  "rr_HasGroup rr grp = (case Cut grp (CHR ''/'') of (grp, _, _) \<Rightarrow> map_of (rr_Rules rr) grp \<noteq> None)"

definition rr_GroupRule :: "RewriteRules \<Rightarrow> string \<Rightarrow> GroupRule option" where
  "rr_GroupRule rr grp = map_option ag_GroupRule (map_of (rr_Rules rr) grp)"

fun KindRules_loop :: "GroupRule \<Rightarrow> (string \<times> ResourceRule) list \<Rightarrow> string \<Rightarrow> (GroupRule \<times> ResourceRule) option" where
  "KindRules_loop groupRule [] kind = None"
| "KindRules_loop groupRule ((resName, resRule) # rest) kind =
     (if rs_Kind resRule = kind then Some (groupRule, resRule)
      else if rs_ListKind resRule = kind then Some (groupRule, resRule)
      else KindRules_loop groupRule rest kind)"

definition rr_KindRules :: "RewriteRules \<Rightarrow> string \<Rightarrow> string \<Rightarrow> (GroupRule \<times> ResourceRule) option" where
  "rr_KindRules rr apiGroup kind =
     (case Cut apiGroup (CHR ''/'') of (grp, _, _) \<Rightarrow>
       (case map_of (rr_Rules rr) grp of
         None \<Rightarrow> None
       | Some groupRule \<Rightarrow> KindRules_loop (ag_GroupRule groupRule) (ag_ResourceRules groupRule) kind))"

definition rr_ResourceRules :: "RewriteRules \<Rightarrow> string \<Rightarrow> string \<Rightarrow> (GroupRule \<times> ResourceRule) option" where
  "rr_ResourceRules rr apiGroup resource =
     (case Cut apiGroup (CHR ''/'') of (grp, _, _) \<Rightarrow>
       (case map_of (rr_Rules rr) grp of
         None \<Rightarrow> None
       | Some groupRule \<Rightarrow>
           (case Cut resource (CHR ''/'') of (resource, _, _) \<Rightarrow>
             (case map_of (ag_ResourceRules groupRule) resource of
               None \<Rightarrow> None
             | Some resourceRule \<Rightarrow> Some (ag_GroupRule groupRule, resourceRule)))))"

text \<open>The two searches over all groups differ only in the field of the resource rule they compare.\<close>

fun find_resource :: "(ResourceRule \<Rightarrow> bool) \<Rightarrow> (string \<times> ResourceRule) list \<Rightarrow> ResourceRule option" where
  "find_resource q [] = None"
| "find_resource q ((resName, res) # rest) = (if q res then Some res else find_resource q rest)"

fun find_group_resource :: "(ResourceRule \<Rightarrow> bool) \<Rightarrow> (string \<times> APIGroupRule) list \<Rightarrow> (GroupRule \<times> ResourceRule) option" where
  "find_group_resource q [] = None"
| "find_group_resource q ((groupName, grp) # rest) =
     (case find_resource q (ag_ResourceRules grp) of
       Some res \<Rightarrow> Some (ag_GroupRule grp, res)
     | None \<Rightarrow> find_group_resource q rest)"

definition rr_GroupResourceRules :: "RewriteRules \<Rightarrow> string \<Rightarrow> (GroupRule \<times> ResourceRule) option" where
  "rr_GroupResourceRules rr resourceType =
     (case Cut resourceType (CHR ''/'') of (resourceType, _, _) \<Rightarrow>
       find_group_resource (\<lambda>res. rs_Plural res = resourceType) (rr_Rules rr))"

definition rr_GroupResourceRulesByKind :: "RewriteRules \<Rightarrow> string \<Rightarrow> (GroupRule \<times> ResourceRule) option" where
  "rr_GroupResourceRulesByKind rr kind = find_group_resource (\<lambda>res. rs_Kind res = kind) (rr_Rules rr)"

definition rr_RenameResource :: "RewriteRules \<Rightarrow> string \<Rightarrow> string" where
  "rr_RenameResource rr resource = rr_ResourceTypePrefix rr @ resource"

definition rr_RenameKind :: "RewriteRules \<Rightarrow> string \<Rightarrow> string" where
  "rr_RenameKind rr kind = rr_KindPrefix rr @ kind"

definition rr_RestoreResource :: "RewriteRules \<Rightarrow> string \<Rightarrow> string" where
  "rr_RestoreResource rr resource = TrimPrefix resource (rr_ResourceTypePrefix rr)"

definition rr_RestoreKind :: "RewriteRules \<Rightarrow> string \<Rightarrow> string" where
  "rr_RestoreKind rr kind = TrimPrefix kind (rr_KindPrefix rr)"

definition rr_RestoreApiVersion :: "RewriteRules \<Rightarrow> string \<Rightarrow> string" where
  "rr_RestoreApiVersion rr apiVersion =
     (case Cut apiVersion (CHR ''/'') of (apiGroup, version, found) \<Rightarrow>
       if \<not> found then mi_Restore (rr_apiGroupsIndex rr) apiVersion
       else mi_Restore (rr_apiGroupsIndex rr) apiGroup @ ''/'' @ version)"

definition rr_RenameApiVersion :: "RewriteRules \<Rightarrow> string \<Rightarrow> string" where
  "rr_RenameApiVersion rr apiVersion =
     (case Cut apiVersion (CHR ''/'') of (apiGroup, version, found) \<Rightarrow>
       if \<not> found then mi_Rename (rr_apiGroupsIndex rr) apiVersion
       else mi_Rename (rr_apiGroupsIndex rr) apiGroup @ ''/'' @ version)"

definition rr_RenameCategories :: "RewriteRules \<Rightarrow> string list option \<Rightarrow> string list option" where
  "rr_RenameCategories rr categories =
     (if categories = None \<or> categories = Some [] then Some [] else rr_Categories rr)"

definition rr_RestoreCategories :: "ResourceRule option \<Rightarrow> string list option" where
  "rr_RestoreCategories resourceRule =
     (case resourceRule of None \<Rightarrow> Some [] | Some res \<Rightarrow> rs_Categories res)"

definition rr_RenameShortName :: "RewriteRules \<Rightarrow> string \<Rightarrow> string" where
  "rr_RenameShortName rr shortName = rr_ShortNamePrefix rr @ shortName"

definition rr_RestoreShortName :: "RewriteRules \<Rightarrow> string \<Rightarrow> string" where
  "rr_RestoreShortName rr shortName = TrimPrefix shortName (rr_ShortNamePrefix rr)"

definition rr_RenameShortNames :: "RewriteRules \<Rightarrow> string list \<Rightarrow> string list" where
  "rr_RenameShortNames rr shortNames = map (\<lambda>shortName. rr_ShortNamePrefix rr @ shortName) shortNames"

definition rr_RestoreShortNames :: "RewriteRules \<Rightarrow> string list \<Rightarrow> string list" where
  "rr_RestoreShortNames rr shortNames = map (\<lambda>shortName. TrimPrefix shortName (rr_ShortNamePrefix rr)) shortNames"

subsection \<open>Exclude rules\<close>

definition mapStringStringFromBytes :: "'r jsonlib \<Rightarrow> bytes \<Rightarrow> string \<Rightarrow> (string \<times> string) list" where
  "mapStringStringFromBytes L obj p =
     map (\<lambda>(field, value). (field, gjson_String L value)) (gjson_Map L (gjson_GetBytes L obj p))"

text \<open>The index expression \<^verbatim>\<open>obj[k]\<close> is the empty string for a missing key.\<close>

definition mapContainsMap :: "(string \<times> string) list \<Rightarrow> (string \<times> string) list \<Rightarrow> bool" where
  "mapContainsMap obj match =
     (if length match = 0 then True
      else list_all (\<lambda>(k, v). (case map_of obj k of None \<Rightarrow> [] | Some x \<Rightarrow> x) = v) match)"

definition ex_Match :: "'r jsonlib \<Rightarrow> ExcludeRule \<Rightarrow> bytes \<Rightarrow> string \<Rightarrow> bool" where
  "ex_Match L r obj kind =
     (let objKind = (if kind = [] then gjson_String L (gjson_GetBytes L obj ''kind'') else kind);
          kindMatch = (length (ex_Kinds r) = 0 \<or> list_ex (\<lambda>k. objKind = k) (ex_Kinds r));
          objLabels = mapStringStringFromBytes L obj ''metadata.labels'';
          matchLabels = (length (ex_MatchLabels r) = 0 \<or> mapContainsMap objLabels (ex_MatchLabels r));
          objName = gjson_String L (gjson_GetBytes L obj ''metadata.name'');
          matchName = (length (ex_MatchNames r) = 0 \<or> list_ex (\<lambda>n. objName = n) (ex_MatchNames r))
      in kindMatch \<and> matchLabels \<and> matchName)"

definition rr_ShouldExclude :: "'r jsonlib \<Rightarrow> RewriteRules \<Rightarrow> bytes \<Rightarrow> string \<Rightarrow> bool" where
  "rr_ShouldExclude L rr obj kind = list_ex (\<lambda>exclude. ex_Match L exclude obj kind) (rr_Excludes rr)"

section \<open>Consistent rule sets\<close>

definition group_names :: "RewriteRules \<Rightarrow> string list" where
  "group_names rr = map (\<lambda>(_, ag). gr_Group (ag_GroupRule ag)) (rr_Rules rr)"

definition renamed_names :: "RewriteRules \<Rightarrow> string list" where
  "renamed_names rr = map (\<lambda>(_, ag). gr_Renamed (ag_GroupRule ag)) (rr_Rules rr)"

text \<open>
  Each group stands under its own name and each resource under its plural; names have no \<^verbatim>\<open>/\<close>; no
  two groups share an original or a renamed name and no name is both; no two resources share a kind.
\<close>

definition rules_wf :: "RewriteRules \<Rightarrow> bool" where
  "rules_wf rr \<longleftrightarrow>
     list_all (\<lambda>(g, ag). gr_Group (ag_GroupRule ag) = g \<and> CHR ''/'' \<notin> set g \<and>
       CHR ''/'' \<notin> set (gr_Renamed (ag_GroupRule ag)) \<and>
       distinct (map fst (ag_ResourceRules ag)) \<and>
       list_all (\<lambda>(r, res). rs_Plural res = r \<and> CHR ''/'' \<notin> set r) (ag_ResourceRules ag)) (rr_Rules rr) \<and>
     distinct (group_names rr) \<and> distinct (renamed_names rr) \<and>
     list_all (\<lambda>g. g \<notin> set (group_names rr)) (renamed_names rr) \<and>
     distinct (originalKinds rr)"

definition rule_text :: "MetadataReplaceRule \<Rightarrow> bool" where
  "rule_text r \<longleftrightarrow> utf8 (mr_Original r) \<and> utf8 (mr_Renamed r) \<and> utf8 (mr_OriginalValue r) \<and> utf8 (mr_RenamedValue r)"

definition replace_text :: "MetadataReplace \<Rightarrow> bool" where
  "replace_text R \<longleftrightarrow> list_all rule_text (mr_Names R) \<and> list_all rule_text (mr_Prefixes R)"

definition strings_text :: "string list option \<Rightarrow> bool" where
  "strings_text ss = (case ss of None \<Rightarrow> True | Some xs \<Rightarrow> list_all utf8 xs)"

definition resource_text :: "ResourceRule \<Rightarrow> bool" where
  "resource_text res \<longleftrightarrow> utf8 (rs_Kind res) \<and> utf8 (rs_ListKind res) \<and> utf8 (rs_Plural res) \<and>
     utf8 (rs_Singular res) \<and> list_all utf8 (rs_ShortNames res) \<and> strings_text (rs_Categories res)"

definition rules_text :: "RewriteRules \<Rightarrow> bool" where
  "rules_text rr \<longleftrightarrow>
     utf8 (rr_KindPrefix rr) \<and> utf8 (rr_ResourceTypePrefix rr) \<and> utf8 (rr_ShortNamePrefix rr) \<and>
     strings_text (rr_Categories rr) \<and>
     list_all (\<lambda>(_, ag). utf8 (gr_Group (ag_GroupRule ag)) \<and> utf8 (gr_Renamed (ag_GroupRule ag)) \<and>
       list_all (\<lambda>(_, res). resource_text res) (ag_ResourceRules ag)) (rr_Rules rr) \<and>
     replace_text (rr_Labels rr) \<and> replace_text (rr_Annotations rr) \<and> replace_text (rr_Finalizers rr)"

text \<open>What \<^verbatim>\<open>Init\<close> establishes on a consistent rule set of UTF-8 texts.\<close>

definition rules_ready :: "RewriteRules \<Rightarrow> bool" where
  "rules_ready rr \<longleftrightarrow> rules_wf rr \<and> rules_text rr \<and>
     rr_labelsRewriter rr = NewPrefixedNameRewriter (rr_Labels rr) \<and>
     rr_annotationsRewriter rr = NewPrefixedNameRewriter (rr_Annotations rr) \<and>
     rr_finalizersRewriter rr = NewPrefixedNameRewriter (rr_Finalizers rr) \<and>
     rr_apiGroupsIndex rr =
       foldl (\<lambda>m (_, ag). mi_AddPair m (gr_Group (ag_GroupRule ag)) (gr_Renamed (ag_GroupRule ag)))
         NewMapIndexer (rr_Rules rr)"

interpretation grp: pair_index NewMapIndexer
  "\<lambda>m (_, ag). mi_AddPair m (gr_Group (ag_GroupRule ag)) (gr_Renamed (ag_GroupRule ag))"
  "\<lambda>(_, ag). gr_Group (ag_GroupRule ag)" "\<lambda>(_, ag). gr_Renamed (ag_GroupRule ag)" mi_idx mi_reverse
  by unfold_locales (auto simp: NewMapIndexer_def mi_AddPair_def split: prod.split)

lemma rr_Init_sel [simp]:
  "rr_Rules (rr_Init rr) = rr_Rules rr" "rr_KindPrefix (rr_Init rr) = rr_KindPrefix rr"
  "rr_ResourceTypePrefix (rr_Init rr) = rr_ResourceTypePrefix rr"
  "rr_ShortNamePrefix (rr_Init rr) = rr_ShortNamePrefix rr" "rr_Categories (rr_Init rr) = rr_Categories rr"
  "rr_Labels (rr_Init rr) = rr_Labels rr" "rr_Annotations (rr_Init rr) = rr_Annotations rr"
  "rr_Finalizers (rr_Init rr) = rr_Finalizers rr"
  by (simp_all add: rr_Init_def Let_def)

lemma rules_wf_Init [simp]: "rules_wf (rr_Init rr) = rules_wf rr"
  by (simp add: rules_wf_def group_names_def renamed_names_def originalKinds_def)

lemma rules_text_Init [simp]: "rules_text (rr_Init rr) = rules_text rr"
  by (simp add: rules_text_def)

lemma rules_ready_Init: "rules_wf rr \<Longrightarrow> rules_text rr \<Longrightarrow> rules_ready (rr_Init rr)"
  unfolding rules_ready_def by (simp, simp add: rr_Init_def Let_def)

lemma ready_index:
  assumes "rules_ready rr"
  shows "inverse_index (mi_idx (rr_apiGroupsIndex rr)) (mi_reverse (rr_apiGroupsIndex rr))"
    and "mi_idx (rr_apiGroupsIndex rr) a \<noteq> None \<longleftrightarrow> a \<in> set (group_names rr)"
    and "mi_reverse (rr_apiGroupsIndex rr) b \<noteq> None \<longleftrightarrow> b \<in> set (renamed_names rr)"
  using assms grp.build_bijection [of "rr_Rules rr"] grp.fwd_dom [of "rr_Rules rr" a]
    grp.bwd_dom [of "rr_Rules rr" b]
  by (simp_all add: rules_ready_def rules_wf_def inverse_index_def group_names_def renamed_names_def)

lemma ready_index_range:
  assumes "rules_ready rr" and "mi_idx (rr_apiGroupsIndex rr) a = Some b"
  shows "a \<in> set (group_names rr) \<and> b \<in> set (renamed_names rr)"
  using ready_index [OF assms(1)] assms(2) by (metis inverse_indexD option.distinct(1))

lemma group_name_props:
  assumes "rules_ready rr" and "g \<in> set (group_names rr) \<union> set (renamed_names rr)"
  shows "CHR ''/'' \<notin> set g" and "utf8 g"
  using assms by (auto simp: rules_ready_def rules_wf_def rules_text_def group_names_def renamed_names_def list_all_iff)

lemma group_names_rules:
  assumes "rules_ready rr"
  shows "map fst (rr_Rules rr) = group_names rr"
  using assms unfolding rules_ready_def rules_wf_def group_names_def by (auto simp: list_all_iff)

lemma renamed_not_group: "rules_ready rr \<Longrightarrow> g \<in> set (renamed_names rr) \<Longrightarrow> g \<notin> set (group_names rr)"
  by (auto simp: rules_ready_def rules_wf_def list_all_iff)

subsection \<open>API versions\<close>

text \<open>The group an API version belongs to, and the two tests on it.\<close>

definition group_of :: "string \<Rightarrow> string" where
  "group_of av = fst (Cut av (CHR ''/''))"

lemma rr_HasGroup_iff: "rules_ready rr \<Longrightarrow> rr_HasGroup rr av \<longleftrightarrow> group_of av \<in> set (group_names rr)"
  using group_names_rules [of rr]
  by (cases av "CHR ''/''" rule: Cut_cases)
    (auto simp: rr_HasGroup_def group_of_def map_of_eq_None_iff simp flip: set_map)

lemma rr_IsRenamedGroup_iff:
  "rules_ready rr \<Longrightarrow> rr_IsRenamedGroup rr av \<longleftrightarrow> group_of av \<in> set (renamed_names rr)"
  using ready_index(3) [of rr]
  by (cases av "CHR ''/''" rule: Cut_cases) (simp_all add: rr_IsRenamedGroup_def group_of_def mi_IsRenamed_def)

lemma mi_Rename_cases:
  assumes "rules_ready rr"
  obtains (renamed) b where "a \<in> set (group_names rr)" "mi_Rename (rr_apiGroupsIndex rr) a = b"
      "b \<in> set (renamed_names rr)" "mi_Restore (rr_apiGroupsIndex rr) b = a"
    | (same) "a \<notin> set (group_names rr)" "mi_Rename (rr_apiGroupsIndex rr) a = a"
proof (cases "mi_idx (rr_apiGroupsIndex rr) a")
  case None
  with ready_index(2) [OF assms, of a] show thesis by (intro same) (auto simp: mi_Rename_def)
next
  case (Some b)
  with inverse_indexD [OF ready_index(1) [OF assms] Some] ready_index_range [OF assms Some] show thesis
    by (intro renamed [of b]) (auto simp: mi_Rename_def mi_Restore_def)
qed

lemma mi_Restore_cases:
  assumes "rules_ready rr"
  obtains (restored) a where "b \<in> set (renamed_names rr)" "mi_Restore (rr_apiGroupsIndex rr) b = a"
      "a \<in> set (group_names rr)" "mi_Rename (rr_apiGroupsIndex rr) a = b"
    | (same) "b \<notin> set (renamed_names rr)" "mi_Restore (rr_apiGroupsIndex rr) b = b"
proof (cases "mi_reverse (rr_apiGroupsIndex rr) b")
  case None
  with ready_index(3) [OF assms, of b] show thesis by (intro same) (auto simp: mi_Restore_def)
next
  case (Some a)
  then have "mi_idx (rr_apiGroupsIndex rr) a = Some b"
    using inverse_indexD [OF inverse_index_sym [OF ready_index(1) [OF assms]]] by blast
  with Some ready_index_range [OF assms this] show thesis
    by (intro restored [of a]) (auto simp: mi_Rename_def mi_Restore_def)
qed

lemma rename_av_cut:
  assumes "rules_ready rr"
  shows "group_of (rr_RenameApiVersion rr av) = mi_Rename (rr_apiGroupsIndex rr) (group_of av)"
    and "group_of av \<notin> set (group_names rr) \<Longrightarrow> rr_RenameApiVersion rr av = av"
    and "group_of av \<in> set (group_names rr) \<Longrightarrow> rr_RestoreApiVersion rr (rr_RenameApiVersion rr av) = av"
proof -
  show "group_of (rr_RenameApiVersion rr av) = mi_Rename (rr_apiGroupsIndex rr) (group_of av)"
    and "group_of av \<notin> set (group_names rr) \<Longrightarrow> rr_RenameApiVersion rr av = av"
    and "group_of av \<in> set (group_names rr) \<Longrightarrow> rr_RestoreApiVersion rr (rr_RenameApiVersion rr av) = av"
    by (cases av "CHR ''/''" rule: Cut_cases; cases rule: mi_Rename_cases [OF assms, of "group_of av"];
        auto simp: group_of_def rr_RenameApiVersion_def rr_RestoreApiVersion_def
          dest: group_name_props(1) [OF assms, OF UnI2])+
qed

lemma restore_av_cut:
  assumes "rules_ready rr"
  shows "group_of (rr_RestoreApiVersion rr av) = mi_Restore (rr_apiGroupsIndex rr) (group_of av)"
    and "group_of av \<notin> set (renamed_names rr) \<Longrightarrow> rr_RestoreApiVersion rr av = av"
    and "group_of av \<in> set (renamed_names rr) \<Longrightarrow> rr_RenameApiVersion rr (rr_RestoreApiVersion rr av) = av"
proof -
  show "group_of (rr_RestoreApiVersion rr av) = mi_Restore (rr_apiGroupsIndex rr) (group_of av)"
    and "group_of av \<notin> set (renamed_names rr) \<Longrightarrow> rr_RestoreApiVersion rr av = av"
    and "group_of av \<in> set (renamed_names rr) \<Longrightarrow> rr_RenameApiVersion rr (rr_RestoreApiVersion rr av) = av"
    by (cases av "CHR ''/''" rule: Cut_cases; cases rule: mi_Restore_cases [OF assms, of "group_of av"];
        auto simp: group_of_def rr_RenameApiVersion_def rr_RestoreApiVersion_def
          dest: group_name_props(1) [OF assms, OF UnI1])+
qed

text \<open>
  API versions: once the rules are initialised, an API version of a group with rules is renamed
  to one of a renamed group and restored to itself; an API version of a renamed group is restored
  to one of a group with rules and renamed to itself; every other one is left alone. The version
  suffix is kept.
\<close>

theorem apiversion_roundtrip:
  assumes "rules_wf rr0" and "rules_text rr0" and "rr = rr_Init rr0"
  shows "(rr_HasGroup rr av \<longrightarrow>
       rr_IsRenamedGroup rr (rr_RenameApiVersion rr av) \<and> rr_RestoreApiVersion rr (rr_RenameApiVersion rr av) = av) \<and>
     (rr_IsRenamedGroup rr av \<longrightarrow>
       rr_HasGroup rr (rr_RestoreApiVersion rr av) \<and> rr_RenameApiVersion rr (rr_RestoreApiVersion rr av) = av) \<and>
     (\<not> rr_HasGroup rr av \<longrightarrow> rr_RenameApiVersion rr av = av) \<and>
     (\<not> rr_IsRenamedGroup rr av \<longrightarrow> rr_RestoreApiVersion rr av = av)"
proof -
  have ready: "rules_ready rr" using assms rules_ready_Init by simp
  have "mi_Rename (rr_apiGroupsIndex rr) (group_of av) \<in> set (renamed_names rr)"
    if "group_of av \<in> set (group_names rr)"
    by (rule mi_Rename_cases [OF ready, of "group_of av"]) (use that in auto)
  moreover have "mi_Restore (rr_apiGroupsIndex rr) (group_of av) \<in> set (group_names rr)"
    if "group_of av \<in> set (renamed_names rr)"
    by (rule mi_Restore_cases [OF ready, of "group_of av"]) (use that in auto)
  ultimately show ?thesis
    using rename_av_cut [OF ready] restore_av_cut [OF ready] rr_HasGroup_iff [OF ready] rr_IsRenamedGroup_iff [OF ready]
    by simp
qed

definition sample_group :: "string \<Rightarrow> string \<Rightarrow> (string \<times> ResourceRule) list \<Rightarrow> string \<times> APIGroupRule" where
  "sample_group g r rs = (g, \<lparr> ag_GroupRule = \<lparr> gr_Group = g, gr_Versions = [''v1''], gr_PreferredVersion = ''v1'', gr_Renamed = r \<rparr>,
     ag_ResourceRules = rs \<rparr>)"

definition sample_resource :: "string \<Rightarrow> string \<Rightarrow> string \<Rightarrow> string \<times> ResourceRule" where
  "sample_resource plural singular kind = (plural,
     \<lparr> rs_Kind = kind, rs_ListKind = kind @ ''List'', rs_Plural = plural, rs_Singular = singular, rs_ShortNames = [''sr''],
       rs_Categories = Some [''all''], rs_Versions = [''v1''], rs_PreferredVersion = ''v1'' \<rparr>)"

definition sample_rules :: RewriteRules where
  "sample_rules =
     \<lparr> rr_KindPrefix = ''P'', rr_ResourceTypePrefix = ''p'', rr_ShortNamePrefix = ''p'', rr_Categories = Some [''pall''],
       rr_Rules = [sample_group ''g.io'' ''x.g.io'' [sample_resource ''rs'' ''r'' ''R''], sample_group ''h.io'' ''x.h.io'' [sample_resource ''qs'' ''q'' ''Q'']],
       rr_Webhooks = [''/validate'' \<mapsto> \<lparr> wh_Path = ''/validate'', wh_Group = ''g.io'', wh_Resource = ''rs'' \<rparr>],
       rr_Labels = sample_replace, rr_Annotations = sample_replace, rr_Finalizers = sample_replace,
       rr_Excludes = [\<lparr> ex_Kinds = [''Pod''], ex_MatchNames = [], ex_MatchLabels = [(''hide'', ''yes'')] \<rparr>],
       rr_labelsRewriter = NewPrefixedNameRewriter sample_replace, rr_annotationsRewriter = NewPrefixedNameRewriter sample_replace,
       rr_finalizersRewriter = NewPrefixedNameRewriter sample_replace, rr_apiGroupsIndex = NewMapIndexer \<rparr>"

lemma sample_rules_wf: "rules_wf sample_rules" and sample_rules_text: "rules_text sample_rules"
  by code_simp+

lemma sample_rules_ready: "rules_ready (rr_Init sample_rules)"
  by (rule rules_ready_Init [OF sample_rules_wf sample_rules_text])

theorem apiversion_roundtrip_witness:
  "rr_RestoreApiVersion (rr_Init sample_rules) (rr_RenameApiVersion (rr_Init sample_rules) ''g.io/v1'') = ''g.io/v1''"
proof -
  have "rr_HasGroup (rr_Init sample_rules) ''g.io/v1''" by code_simp
  then show ?thesis using apiversion_roundtrip [OF sample_rules_wf sample_rules_text refl, of "''g.io/v1''"] by blast
qed

subsection \<open>Lookups that iterate\<close>

lemma ResourceByKind_in_None:
  "ResourceByKind_in g rs kind = None \<longleftrightarrow> kind \<notin> set (concat (map (\<lambda>(_, res). [rs_Kind res, rs_ListKind res]) rs))"
  by (induction g rs kind rule: ResourceByKind_in.induct) auto

lemma ResourceByKind_in_hit:
  assumes "distinct (concat (map (\<lambda>(_, res). [rs_Kind res, rs_ListKind res]) rs))" and "(r, res) \<in> set rs"
    and "kind = rs_Kind res \<or> kind = rs_ListKind res"
  shows "ResourceByKind_in g rs kind = Some (g, r, kind \<noteq> rs_Kind res)"
  using assms
proof (induction g rs kind rule: ResourceByKind_in.induct)
  case (2 g n u rest kind)
  show ?case
  proof (cases "(r, res) = (n, u)")
    case True
    with "2.prems" show ?thesis by auto
  next
    case False
    with "2.prems" have "(r, res) \<in> set rest" by auto
    then have "{rs_Kind res, rs_ListKind res} \<subseteq> set (concat (map (\<lambda>(_, res). [rs_Kind res, rs_ListKind res]) rest))"
      by force
    with "2.prems" have "rs_Kind u \<noteq> kind" "rs_ListKind u \<noteq> kind" by auto
    with "2.IH" "2.prems" \<open>(r, res) \<in> set rest\<close> show ?thesis by simp
  qed
qed simp

definition kinds_in :: "APIGroupRule \<Rightarrow> string list" where
  "kinds_in ag = concat (map (\<lambda>(_, res). [rs_Kind res, rs_ListKind res]) (ag_ResourceRules ag))"

lemma originalKinds_kinds_in: "originalKinds rr = concat (map (\<lambda>(_, ag). kinds_in ag) (rr_Rules rr))"
  by (simp add: originalKinds_def kinds_in_def)

lemma kinds_in_mem: "(r, res) \<in> set (ag_ResourceRules ag) \<Longrightarrow> rs_Kind res \<in> set (kinds_in ag) \<and> rs_ListKind res \<in> set (kinds_in ag)"
  by (force simp: kinds_in_def)

lemma ResourceByKind_loop_hit:
  assumes "distinct (concat (map (\<lambda>(_, ag). kinds_in ag) rules))" and "(g, ag) \<in> set rules"
    and "(r, res) \<in> set (ag_ResourceRules ag)" and "kind = rs_Kind res \<or> kind = rs_ListKind res"
  shows "ResourceByKind_loop rules kind = (g, r, kind \<noteq> rs_Kind res)"
  using assms
proof (induction rules kind rule: ResourceByKind_loop.induct)
  case (2 n u rest kind)
  from "2.prems" have k: "kind \<in> set (kinds_in ag)" using kinds_in_mem by blast
  show ?case
  proof (cases "(g, ag) = (n, u)")
    case True
    with "2.prems" ResourceByKind_in_hit [of "ag_ResourceRules ag"] show ?thesis by (auto simp: kinds_in_def)
  next
    case False
    with "2.prems" have mem: "(g, ag) \<in> set rest" by auto
    with k have "kind \<in> set (concat (map (\<lambda>(_, ag). kinds_in ag) rest))" by force
    with "2.prems" have "kind \<notin> set (kinds_in u)" by auto
    then have "ResourceByKind_in n (ag_ResourceRules u) kind = None"
      by (simp add: ResourceByKind_in_None kinds_in_def)
    with "2.IH" "2.prems" mem show ?thesis by simp
  qed
qed simp

lemma ResourceByKind_loop_miss:
  "kind \<notin> set (concat (map (\<lambda>(_, ag). kinds_in ag) rules)) \<Longrightarrow> ResourceByKind_loop rules kind = ([], [], False)"
proof (induction rules kind rule: ResourceByKind_loop.induct)
  case (2 n u rest kind)
  then have "ResourceByKind_in n (ag_ResourceRules u) kind = None"
    by (simp add: ResourceByKind_in_None kinds_in_def)
  with 2 show ?case by simp
qed simp

lemma KindRules_loop_eq:
  "KindRules_loop gr rs kind =
     map_option (\<lambda>res. (gr, res)) (find_resource (\<lambda>res. rs_Kind res = kind \<or> rs_ListKind res = kind) rs)"
  by (induction gr rs kind rule: KindRules_loop.induct) auto

lemma find_resource_None: "find_resource q rs = None \<longleftrightarrow> (\<forall>(r, res) \<in> set rs. \<not> q res)"
  by (induction q rs rule: find_resource.induct) auto

lemma find_resource_Some: "find_resource q rs = Some res \<Longrightarrow> q res \<and> (\<exists>r. (r, res) \<in> set rs)"
  by (induction q rs rule: find_resource.induct) (auto split: if_splits)

lemma find_resource_hit:
  assumes "(r, res) \<in> set rs" and "q res" and "\<And>r' res'. (r', res') \<in> set rs \<Longrightarrow> q res' \<Longrightarrow> res' = res"
  shows "find_resource q rs = Some res"
proof (cases "find_resource q rs")
  case None
  with assms(1,2) show ?thesis by (auto simp: find_resource_None)
next
  case (Some x)
  with assms(3) find_resource_Some [OF Some] show ?thesis by auto
qed

lemma find_group_resource_None:
  "find_group_resource q rules = None \<longleftrightarrow> (\<forall>(g, ag) \<in> set rules. \<forall>(r, res) \<in> set (ag_ResourceRules ag). \<not> q res)"
  by (induction q rules rule: find_group_resource.induct) (auto simp: find_resource_None split: option.split, auto dest!: find_resource_Some)

lemma find_group_resource_Some:
  "find_group_resource q rules = Some (gr, res) \<Longrightarrow>
   q res \<and> (\<exists>g ag r. (g, ag) \<in> set rules \<and> gr = ag_GroupRule ag \<and> (r, res) \<in> set (ag_ResourceRules ag))"
proof (induction q rules rule: find_group_resource.induct)
  case (2 q n u rest)
  show ?case
  proof (cases "find_resource q (ag_ResourceRules u)")
    case (Some a)
    with "2.prems" find_resource_Some [OF Some] show ?thesis by auto
  next
    case None
    with 2 show ?thesis by fastforce
  qed
qed simp

lemma same_kind_same_resource:
  assumes "distinct (kinds_in ag)" and "distinct (map fst (ag_ResourceRules ag))"
    and "(r, res) \<in> set (ag_ResourceRules ag)" and "(r', res') \<in> set (ag_ResourceRules ag)"
    and "kind = rs_Kind res \<or> kind = rs_ListKind res" and "kind = rs_Kind res' \<or> kind = rs_ListKind res'"
  shows "res' = res"
proof -
  have "ResourceByKind_in [] (ag_ResourceRules ag) kind = Some ([], r, kind \<noteq> rs_Kind res)"
    "ResourceByKind_in [] (ag_ResourceRules ag) kind = Some ([], r', kind \<noteq> rs_Kind res')"
    using ResourceByKind_in_hit [of "ag_ResourceRules ag", folded kinds_in_def] assms by blast+
  then have "r' = r" by simp
  with assms show ?thesis by (auto dest: eq_key_imp_eq_value)
qed

lemma distinct_kinds_in: "distinct (originalKinds rr) \<Longrightarrow> (g, ag) \<in> set (rr_Rules rr) \<Longrightarrow> distinct (kinds_in ag)"
  by (force simp: originalKinds_kinds_in distinct_concat_iff)

lemma rules_entry:
  assumes "rules_wf rr" and "(g, ag) \<in> set (rr_Rules rr)"
  shows "CHR ''/'' \<notin> set g" and "gr_Group (ag_GroupRule ag) = g" and "distinct (map fst (ag_ResourceRules ag))"
    and "map_of (rr_Rules rr) g = Some ag"
    and "(r, res) \<in> set (ag_ResourceRules ag) \<Longrightarrow> rs_Plural res = r \<and> CHR ''/'' \<notin> set r"
proof -
  show "CHR ''/'' \<notin> set g" "gr_Group (ag_GroupRule ag) = g" "distinct (map fst (ag_ResourceRules ag))"
    "(r, res) \<in> set (ag_ResourceRules ag) \<Longrightarrow> rs_Plural res = r \<and> CHR ''/'' \<notin> set r"
    using assms by (auto simp: rules_wf_def list_all_iff)
  have "map fst (rr_Rules rr) = group_names rr"
    using assms(1) unfolding rules_wf_def group_names_def by (auto simp: list_all_iff)
  with assms show "map_of (rr_Rules rr) g = Some ag" by (simp add: rules_wf_def)
qed

lemma KindRules_hit:
  assumes "rules_wf rr" and "(g, ag) \<in> set (rr_Rules rr)" and "(r, res) \<in> set (ag_ResourceRules ag)"
    and "kind = rs_Kind res \<or> kind = rs_ListKind res" and "group_of av = g"
  shows "rr_KindRules rr av kind = Some (ag_GroupRule ag, res)"
proof -
  have "find_resource (\<lambda>res. rs_Kind res = kind \<or> rs_ListKind res = kind) (ag_ResourceRules ag) = Some res"
  proof (rule find_resource_hit [OF assms(3)])
    show "res' = res" if "(r', res') \<in> set (ag_ResourceRules ag)" "rs_Kind res' = kind \<or> rs_ListKind res' = kind" for r' res'
      by (rule same_kind_same_resource [OF distinct_kinds_in [OF _ assms(2)] rules_entry(3) [OF assms(1,2)] assms(3) that(1) assms(4)])
        (use that(2) assms(1) in \<open>auto simp: rules_wf_def\<close>)
  qed (use assms(4) in auto)
  with rules_entry(4) [OF assms(1,2)] assms(5) show ?thesis
    by (auto simp: rr_KindRules_def group_of_def KindRules_loop_eq split: prod.split)
qed

text \<open>
  Lookups by kind do not depend on the iteration order of the rule maps: in a consistent rule
  set the group and the resource that own a kind or a list kind are the ones found, together with
  the right list flag, whatever the order; with the group known, its rules are found too, and a
  kind no resource owns is not found.
\<close>

theorem kind_lookup_unique:
  assumes "rules_wf rr"
  shows "(\<forall>(g, ag) \<in> set (rr_Rules rr). \<forall>(r, res) \<in> set (ag_ResourceRules ag). \<forall>kind \<in> {rs_Kind res, rs_ListKind res}.
       rr_ResourceByKind rr kind = (g, r, kind \<noteq> rs_Kind res) \<and>
       rr_KindRules rr g kind = Some (ag_GroupRule ag, res)) \<and>
     (\<forall>kind. kind \<notin> set (originalKinds rr) \<longrightarrow> rr_ResourceByKind rr kind = ([], [], False))"
proof (intro conjI ballI allI impI, clarify)
  fix g ag r res kind
  assume *: "(g, ag) \<in> set (rr_Rules rr)" "(r, res) \<in> set (ag_ResourceRules ag)" "kind \<in> {rs_Kind res, rs_ListKind res}"
  then have "rr_ResourceByKind rr kind = (g, r, kind \<noteq> rs_Kind res)"
    unfolding rr_ResourceByKind_def
    by (intro ResourceByKind_loop_hit) (use assms in \<open>auto simp: rules_wf_def originalKinds_kinds_in\<close>)
  moreover have "group_of g = g" using rules_entry(1) [OF assms *(1)] by (simp add: group_of_def)
  then have "rr_KindRules rr g kind = Some (ag_GroupRule ag, res)"
    using KindRules_hit [OF assms *(1,2)] *(3) by blast
  ultimately show "rr_ResourceByKind rr kind = (g, r, kind \<noteq> rs_Kind res) \<and> rr_KindRules rr g kind = Some (ag_GroupRule ag, res)"
    by blast
next
  show "rr_ResourceByKind rr kind = ([], [], False)" if "kind \<notin> set (originalKinds rr)" for kind
    using that ResourceByKind_loop_miss by (simp add: rr_ResourceByKind_def originalKinds_kinds_in)
qed

theorem kind_lookup_unique_witness: "rr_ResourceByKind sample_rules ''QList'' = (''h.io'', ''qs'', True)"
proof -
  have "sample_group ''h.io'' ''x.h.io'' [sample_resource ''qs'' ''q'' ''Q''] \<in> set (rr_Rules sample_rules)"
    by (simp add: sample_rules_def)
  with kind_lookup_unique [OF sample_rules_wf] show ?thesis
    by (auto simp: sample_group_def sample_resource_def)
qed

section \<open>Texts stay texts\<close>

lemma utf8_slash [simp]: "utf8 (CHR ''/'' # s) = utf8 s" "utf8 (CHR ''='' # s) = utf8 s" "utf8 (CHR ''.'' # s) = utf8 s"
  by simp_all

lemma rule_key_text: "rule_text r \<Longrightarrow> utf8 (rule_orig_key r) \<and> utf8 (rule_ren_key r)"
  by (auto simp: rule_text_def rule_orig_key_def rule_ren_key_def joinKV_def)

lemma index_text:
  assumes "list_all rule_text rs"
  shows "indexRules rs a = Some b \<Longrightarrow> utf8 b" and "indexRulesReverse rs a = Some b \<Longrightarrow> utf8 b"
proof -
  show "utf8 b" if "indexRules rs a = Some b"
    using names.fwd_range [of rs a b] that assms rule_key_text
    by (auto simp: indexRules_index list_all_iff)
  show "utf8 b" if "indexRulesReverse rs a = Some b"
    using names.bwd_range [of rs a b] that assms rule_key_text
    by (auto simp: indexRulesReverse_index list_all_iff)
qed

lemma splitKV_text: "utf8 r \<Longrightarrow> utf8 (fst (splitKV r)) \<and> utf8 (snd (splitKV r))"
proof (cases "Cut r (CHR ''='')")
  case (fields b a f)
  show ?thesis if "utf8 r" using utf8_Cut [OF ascii_seps(2) that fields] fields by (simp add: splitKV_def)
qed

lemma lookup_text:
  assumes "\<And>a b. names a = Some b \<Longrightarrow> utf8 b" and "\<And>a b. prefixes a = Some b \<Longrightarrow> utf8 b"
    and "utf8 n" and "utf8 v"
  shows "utf8 (fst (snd (lookup_name names prefixes n v))) \<and> utf8 (snd (snd (lookup_name names prefixes n v)))"
proof (cases n "CHR ''/''" rule: Cut_cases)
  case (found b a)
  then have "utf8 a" using utf8_Cut [of "CHR ''/''" n] assms(3) ascii_seps(1) by blast
  with found assms show ?thesis
    by (auto simp: lookup_name_def splitKV_text split: option.split)
next
  case missing
  with assms show ?thesis by (auto simp: lookup_name_def splitKV_text split: option.split)
qed

lemma PreservedPrefix_text: "utf8 PreservedPrefix"
  by code_simp

lemma pnr_text:
  assumes "replace_text R" and "p = NewPrefixedNameRewriter R" and "utf8 n" and "utf8 v"
  shows "utf8 (fst (pnr_RewriteNameValue p n v action))" and "utf8 (snd (pnr_RewriteNameValue p n v action))"
    and "utf8 (pnr_Rewrite p n action)"
proof -
  have ren: "utf8 (fst (pnr_rename p n v)) \<and> utf8 (snd (pnr_rename p n v))" if "utf8 n" "utf8 v" for n v
    using lookup_text [of "namesRenameIdx p" "prefixRenameIdx p" n v] index_text assms that
    by (auto simp: pnr_rename_lookup replace_text_def restorePreservedName_def utf8_TrimPrefix PreservedPrefix_text)
  have res: "utf8 (fst (pnr_restore p n v)) \<and> utf8 (snd (pnr_restore p n v))" if "utf8 n" "utf8 v" for n v
    using lookup_text [of "namesRestoreIdx p" "prefixRestoreIdx p" n v] index_text assms that
    by (auto simp: pnr_restore_lookup replace_text_def preserveName_def PreservedPrefix_text)
  show "utf8 (fst (pnr_RewriteNameValue p n v action))" "utf8 (snd (pnr_RewriteNameValue p n v action))"
    using ren res assms by (cases action; simp add: pnr_RewriteNameValue_def)+
  show "utf8 (pnr_Rewrite p n action)"
    using ren res assms by (cases action; simp add: pnr_Rewrite_def)
qed

lemma ready_rewriters:
  assumes "rules_ready rr"
  shows "rr_labelsRewriter rr = NewPrefixedNameRewriter (rr_Labels rr) \<and> replace_text (rr_Labels rr)"
    and "rr_annotationsRewriter rr = NewPrefixedNameRewriter (rr_Annotations rr) \<and> replace_text (rr_Annotations rr)"
    and "rr_finalizersRewriter rr = NewPrefixedNameRewriter (rr_Finalizers rr) \<and> replace_text (rr_Finalizers rr)"
  using assms by (simp_all add: rules_ready_def rules_text_def)

lemma ready_rewriters_text:
  assumes "rules_ready rr" and "utf8 n" and "utf8 v"
    and "p \<in> {rr_labelsRewriter rr, rr_annotationsRewriter rr, rr_finalizersRewriter rr}"
  shows "utf8 (fst (pnr_RewriteNameValue p n v action))" and "utf8 (snd (pnr_RewriteNameValue p n v action))"
    and "utf8 (pnr_Rewrite p n action)"
  using ready_rewriters [OF assms(1)] assms(2-4) by (auto intro: pnr_text)

lemma ready_text:
  assumes "rules_ready rr" and "utf8 s"
  shows "utf8 (rr_RenameApiVersion rr s)" "utf8 (rr_RestoreApiVersion rr s)"
    and "utf8 (rr_RenameKind rr s)" "utf8 (rr_RestoreKind rr s)" "utf8 (rr_RenameResource rr s)"
    and "utf8 (rr_RestoreResource rr s)" "utf8 (rr_RenameShortName rr s)" "utf8 (rr_RestoreShortName rr s)"
proof -
  have pre: "utf8 (rr_KindPrefix rr)" "utf8 (rr_ResourceTypePrefix rr)" "utf8 (rr_ShortNamePrefix rr)"
    using assms(1) by (simp_all add: rules_ready_def rules_text_def)
  then show "utf8 (rr_RenameKind rr s)" "utf8 (rr_RestoreKind rr s)" "utf8 (rr_RenameResource rr s)"
    "utf8 (rr_RestoreResource rr s)" "utf8 (rr_RenameShortName rr s)" "utf8 (rr_RestoreShortName rr s)"
    using assms(2) by (auto simp: rr_RenameKind_def rr_RestoreKind_def rr_RenameResource_def rr_RestoreResource_def
      rr_RenameShortName_def rr_RestoreShortName_def utf8_TrimPrefix)
  have ren: "utf8 (mi_Rename (rr_apiGroupsIndex rr) g)" if "utf8 g" for g
    by (rule mi_Rename_cases [OF assms(1), of g]) (use that group_name_props(2) [OF assms(1)] in auto)
  have res: "utf8 (mi_Restore (rr_apiGroupsIndex rr) g)" if "utf8 g" for g
    by (rule mi_Restore_cases [OF assms(1), of g]) (use that group_name_props(2) [OF assms(1)] in auto)
  have "utf8 (rr_RenameApiVersion rr s) \<and> utf8 (rr_RestoreApiVersion rr s)"
  proof (cases s "CHR ''/''" rule: Cut_cases)
    case (found b a)
    then have "utf8 b \<and> utf8 a" using utf8_cut [OF ascii_seps(1), of b a] assms(2) by simp
    with found ren res show ?thesis by (simp add: rr_RenameApiVersion_def rr_RestoreApiVersion_def utf8_append)
  next
    case missing
    with ren res assms(2) show ?thesis by (simp add: rr_RenameApiVersion_def rr_RestoreApiVersion_def)
  qed
  then show "utf8 (rr_RenameApiVersion rr s)" "utf8 (rr_RestoreApiVersion rr s)" by simp_all
qed

section \<open>Exclusion\<close>

text \<open>
  Every original kind and list kind of the rules is excluded from the responses once the rules
  are initialised, whatever the object is: an object the server holds under an original kind is
  never shown to the client.
\<close>

theorem init_excludes_original_kinds:
  assumes "kind \<in> set (originalKinds rr)" and "kind \<noteq> []"
  shows "rr_ShouldExclude L (rr_Init rr) obj kind"
proof -
  have "originalKinds (rr\<lparr> rr_labelsRewriter := a, rr_annotationsRewriter := b, rr_finalizersRewriter := c \<rparr>) = originalKinds rr" for a b c
    by (simp add: originalKinds_def)
  then have "\<lparr> ex_Kinds = originalKinds rr, ex_MatchNames = [], ex_MatchLabels = [] \<rparr> \<in> set (rr_Excludes (rr_Init rr))"
    using assms(1) by (auto simp: rr_Init_def Let_def)
  moreover have "ex_Match L \<lparr> ex_Kinds = originalKinds rr, ex_MatchNames = [], ex_MatchLabels = [] \<rparr> obj kind"
    using assms by (auto simp: ex_Match_def Let_def list_ex_iff)
  ultimately show ?thesis unfolding rr_ShouldExclude_def list_ex_iff by blast
qed

theorem init_excludes_original_kinds_witness:
  "\<exists>L :: unit jsonlib. rr_ShouldExclude L (rr_Init sample_rules) (Some ''{}'') ''RList''"
proof -
  have "''RList'' \<in> set (originalKinds sample_rules)" by code_simp
  then show ?thesis using init_excludes_original_kinds by blast
qed

text \<open>What an exclude rule means for a JSON value. \<open>jtext_at\<close> is the text at a path, nothing if there is none.\<close>

definition jtext_at :: "json \<Rightarrow> string list \<Rightarrow> string" where
  "jtext_at j ks = (case jtext (jget j ks) of Some s \<Rightarrow> s | None \<Rightarrow> [])"

definition has_text :: "json \<Rightarrow> string list \<Rightarrow> bool" where
  "has_text j ks \<longleftrightarrow> jtext (jget j ks) \<noteq> None"

definition has_text_map :: "json \<Rightarrow> string list \<Rightarrow> bool" where
  "has_text_map j ks \<longleftrightarrow> (case jget j ks of
     None \<Rightarrow> True | Some JNull \<Rightarrow> True
   | Some (JObj m) \<Rightarrow> (\<forall>k v. m k = Some v \<longrightarrow> jtext (Some v) \<noteq> None) | _ \<Rightarrow> False)"

definition excluded_by :: "ExcludeRule \<Rightarrow> json \<Rightarrow> string \<Rightarrow> bool" where
  "excluded_by r j kind \<longleftrightarrow>
     (ex_Kinds r = [] \<or> (if kind = [] then jtext_at j [''kind''] else kind) \<in> set (ex_Kinds r)) \<and>
     (\<forall>(k, v) \<in> set (ex_MatchLabels r). jtext_at j [''metadata'', ''labels'', k] = v) \<and>
     (ex_MatchNames r = [] \<or> jtext_at j [''metadata'', ''name''] \<in> set (ex_MatchNames r))"

context json_library
begin

lemma String_at:
  "doc D x j \<Longrightarrow> plain_path p \<Longrightarrow> has_text j (jpath p) \<Longrightarrow> gjson_String L (gjson_GetBytes L x p) = jtext_at j (jpath p)"
  using String [of "gjson_GetBytes L x p"] GetBytes [of x j p] by (auto simp: has_text_def jtext_at_def)

lemma label_lookup:
  assumes "doc D x j" and "has_text_map j [''metadata'', ''labels'']"
  shows "(case map_of (mapStringStringFromBytes L x ''metadata.labels'') k of None \<Rightarrow> [] | Some s \<Rightarrow> s) =
    jtext_at j [''metadata'', ''labels'', k]"
proof -
  let ?r = "gjson_GetBytes L x ''metadata.labels''"
  have V: "V ?r = jget j [''metadata'', ''labels'']" using GetBytes [OF assms(1)] by simp
  have split: "jget j [''metadata'', ''labels'', k] = (case jget j [''metadata'', ''labels''] of None \<Rightarrow> None | Some v \<Rightarrow> jget v [k])"
    using jget_append [of j "[''metadata'', ''labels'']" "[k]"] by simp
  have mo: "map_of (mapStringStringFromBytes L x ''metadata.labels'') k = map_option (gjson_String L) (map_of (gjson_Map L ?r) k)"
    by (simp add: mapStringStringFromBytes_def map_of_map)
  show ?thesis
  proof (cases "\<exists>m. V ?r = Some (JObj m)")
    case True
    then obtain m where m: "V ?r = Some (JObj m)" by blast
    show ?thesis
    proof (cases "map_of (gjson_Map L ?r) k")
      case None
      with Map_obj [OF m] have "m k = None" by (metis None_eq_map_option_iff option.map_disc_iff)
      with None m V split mo show ?thesis by (simp add: jtext_at_def)
    next
      case (Some v)
      have "map_option V (map_of (gjson_Map L ?r) k) = map_option Some (m k)" using Map_obj [OF m] by blast
      with Some obtain u where u: "m k = Some u" "V v = Some u" by (cases "m k") auto
      with assms(2) m V obtain s where s: "jtext (Some u) = Some s" by (fastforce simp: has_text_map_def)
      then have "gjson_String L v = s" using String [of v s] u by simp
      with s u Some m V split mo show ?thesis by (simp add: jtext_at_def)
    qed
  next
    case False
    with assms(2) V have n: "V ?r = None \<or> V ?r = Some JNull" by (auto simp: has_text_map_def split: option.splits json.splits)
    with Map_other mo have "map_of (mapStringStringFromBytes L x ''metadata.labels'') k = None" by simp
    with n V split show ?thesis by (auto simp: jtext_at_def)
  qed
qed

lemma ex_Match_refines:
  assumes "doc D x j" and "has_text j [''kind'']" and "has_text j [''metadata'', ''name'']"
    and "has_text_map j [''metadata'', ''labels'']"
  shows "ex_Match L r x kind \<longleftrightarrow> excluded_by r j kind"
  using String_at [OF assms(1), of "''kind''"] String_at [OF assms(1), of "''metadata.name''"] assms
  by (auto simp: ex_Match_def excluded_by_def Let_def list_ex_iff mapContainsMap_def list_all_iff label_lookup)

end

text \<open>
  The exclude rules read the object the way they are documented: over any library that obeys
  the laws, an object is excluded exactly when some rule has its kind, its name and all its labels,
  a missing condition counting as met and a missing label as the empty one.
\<close>

theorem should_exclude_refines:
  assumes "json_library L D V" and "doc D x j" and "has_text j [''kind'']" and "has_text j [''metadata'', ''name'']"
    and "has_text_map j [''metadata'', ''labels'']"
  shows "rr_ShouldExclude L rr x kind \<longleftrightarrow> (\<exists>r \<in> set (rr_Excludes rr). excluded_by r j kind)"
  using json_library.ex_Match_refines [OF assms] by (simp add: rr_ShouldExclude_def list_ex_iff)

definition sample_pod :: rj where
  "sample_pod = RObj [(''kind'', RStr ''Pod''), (''metadata'', RObj [(''name'', RStr ''p''), (''labels'', RObj [(''hide'', RStr ''yes'')])])]"

theorem should_exclude_refines_witness:
  "rr_ShouldExclude ref_lib sample_rules (Some (print sample_pod)) ''Pod'' \<longleftrightarrow>
     (\<exists>r \<in> set (rr_Excludes sample_rules). excluded_by r (rj_abs sample_pod) ''Pod'')"
proof (rule should_exclude_refines [OF ref.json_library_axioms ref_doc])
  show "rj_ok sample_pod" by code_simp
  show "has_text_map (rj_abs sample_pod) [''metadata'', ''labels'']" by (simp add: has_text_map_def sample_pod_def)
qed (simp_all add: has_text_def sample_pod_def)

end
