(* ===== verification/Transformers.thy ===== *)
theory Transformers
  imports Rules
begin

text \<open>
  The generic payload transformers of \<^verbatim>\<open>pkg/rewriter/transformers.go\<close>, \<^verbatim>\<open>list.go\<close> and \<^verbatim>\<open>map.go\<close>. The
  array transformers take a state along: the sources pass closures that set a flag of the
  enclosing function, and the flag is the state (\<open>unit\<close> where there is none).

  Each transformer is related to a function on JSON values (\<open>j_string\<close>, \<open>j_object\<close>, \<open>j_strings\<close>,
  \<open>j_array\<close>, \<open>j_map\<close>) by a lemma of the locale \<open>json_library\<close>; the component theories compose these
  lemmas.
\<close>

section \<open>Model\<close>

definition Root :: string where
  "Root = ''@ROOT''"

definition GetBytes :: "'r jsonlib \<Rightarrow> bytes \<Rightarrow> string \<Rightarrow> 'r" where
  "GetBytes L obj path = (if path = Root then gjson_ParseBytes L obj else gjson_GetBytes L obj path)"

definition SetRawBytes :: "'r jsonlib \<Rightarrow> bytes \<Rightarrow> string \<Rightarrow> bytes \<Rightarrow> bytes res" where
  "SetRawBytes L obj path value = (if path = Root then Inr value else sjson_SetRawBytes L obj path value)"

definition TransformString :: "'r jsonlib \<Rightarrow> bytes \<Rightarrow> string \<Rightarrow> (string \<Rightarrow> string) \<Rightarrow> bytes res" where
  "TransformString L obj path transformFn =
     (let pathStr = gjson_GetBytes L obj path in
      if \<not> gjson_Exists L pathStr then Inr obj
      else sjson_SetBytes L obj path (VString (transformFn (gjson_String L pathStr))))"

definition TransformObject :: "'r jsonlib \<Rightarrow> bytes \<Rightarrow> string \<Rightarrow> (bytes \<Rightarrow> bytes res) \<Rightarrow> bytes res" where
  "TransformObject L obj path transformFn =
     (let pathObj = gjson_GetBytes L obj path in
      if \<not> gjson_IsObject L pathObj then Inr obj
      else res_bind (transformFn (Some (gjson_Raw L pathObj))) (\<lambda>rwrObj. sjson_SetRawBytes L obj path rwrObj))"

fun strings_loop :: "('s \<Rightarrow> string \<Rightarrow> 's \<times> string) \<Rightarrow> 's \<Rightarrow> string list \<Rightarrow> 's \<times> string list" where
  "strings_loop transformFn st [] = (st, [])"
| "strings_loop transformFn st (item # items) =
     (case transformFn st item of (st1, rwrItem) \<Rightarrow>
       (case strings_loop transformFn st1 items of (st2, rwrItems) \<Rightarrow> (st2, rwrItem # rwrItems)))"

definition TransformArrayOfStringsS ::
  "'r jsonlib \<Rightarrow> bytes \<Rightarrow> string \<Rightarrow> ('s \<Rightarrow> string \<Rightarrow> 's \<times> string) \<Rightarrow> 's \<Rightarrow> 's \<times> bytes res" where
  "TransformArrayOfStringsS L obj arrayPath transformFn st =
     (let items = gjson_Array L (gjson_GetBytes L obj arrayPath) in
      if length items = 0 then (st, Inr obj)
      else (case strings_loop transformFn st (map (gjson_String L) items) of
        (st1, rwrItems) \<Rightarrow> (st1, sjson_SetBytes L obj arrayPath (VStrings (Some rwrItems)))))"

definition TransformArrayOfStrings :: "'r jsonlib \<Rightarrow> bytes \<Rightarrow> string \<Rightarrow> (string \<Rightarrow> string) \<Rightarrow> bytes res" where
  "TransformArrayOfStrings L obj arrayPath transformFn =
     snd (TransformArrayOfStringsS L obj arrayPath (\<lambda>_ item. ((), transformFn item)) ())"

fun RewriteArray_loop ::
  "'r jsonlib \<Rightarrow> ('s \<Rightarrow> bytes \<Rightarrow> 's \<times> bytes res) \<Rightarrow> 's \<Rightarrow> bool \<Rightarrow> string \<Rightarrow> 'r list \<Rightarrow> 's \<times> string res" where
  "RewriteArray_loop L transformFn st first rwrItems [] = (st, Inr rwrItems)"
| "RewriteArray_loop L transformFn st first rwrItems (item # items) =
     (case transformFn st (Some (gjson_Raw L item)) of
       (st1, Inl err) \<Rightarrow>
         if errors_Is_SkipItem err then RewriteArray_loop L transformFn st1 first rwrItems items
         else (st1, Inl err)
     | (st1, Inr rwrItem) \<Rightarrow>
         RewriteArray_loop L transformFn st1 False
           ((if first then rwrItems else rwrItems @ '','') @
            (case rwrItem of None \<Rightarrow> gjson_Raw L item | Some b \<Rightarrow> b)) items)"

definition RewriteArrayS ::
  "'r jsonlib \<Rightarrow> bytes \<Rightarrow> string \<Rightarrow> ('s \<Rightarrow> bytes \<Rightarrow> 's \<times> bytes res) \<Rightarrow> 's \<Rightarrow> 's \<times> bytes res" where
  "RewriteArrayS L obj arrayPath transformFn st =
     (let items = gjson_Array L (GetBytes L obj arrayPath) in
      if length items = 0 then (st, Inr obj)
      else (case RewriteArray_loop L transformFn st True ''['' items of
        (st1, r) \<Rightarrow> (st1, res_bind r (\<lambda>buf. SetRawBytes L obj arrayPath (Some (buf @ '']''))))))"

definition RewriteArray :: "'r jsonlib \<Rightarrow> bytes \<Rightarrow> string \<Rightarrow> (bytes \<Rightarrow> bytes res) \<Rightarrow> bytes res" where
  "RewriteArray L obj arrayPath transformFn =
     snd (RewriteArrayS L obj arrayPath (\<lambda>_ item. ((), transformFn item)) ())"

definition RewriteResourceOrList :: "'r jsonlib \<Rightarrow> bytes \<Rightarrow> string \<Rightarrow> (bytes \<Rightarrow> bytes res) \<Rightarrow> bytes res" where
  "RewriteResourceOrList L payload listKind transformFn =
     (let kind = gjson_String L (gjson_GetBytes L payload ''kind'') in
      if kind \<noteq> listKind then transformFn payload
      else RewriteArray L payload ''items'' transformFn)"

definition RewriteResourceOrList2 :: "'r jsonlib \<Rightarrow> bytes \<Rightarrow> (bytes \<Rightarrow> bytes res) \<Rightarrow> bytes res" where
  "RewriteResourceOrList2 L payload transformFn =
     (let kind = gjson_String L (gjson_GetBytes L payload ''kind'') in
      if \<not> HasSuffix kind ''List'' then transformFn payload
      else RewriteArray L payload ''items'' transformFn)"

definition TransformPatch ::
  "'r jsonlib \<Rightarrow> bytes \<Rightarrow> (bytes \<Rightarrow> bytes res) option \<Rightarrow> (bytes \<Rightarrow> bytes res) option \<Rightarrow> bytes res" where
  "TransformPatch L obj transformMerge transformJSON =
     (case bytes_str obj of
       [] \<Rightarrow> Inr obj
     | c # _ \<Rightarrow>
         (case (c = CHR ''{'', transformMerge) of
           (True, Some fn) \<Rightarrow> fn obj
         | _ \<Rightarrow>
             (case (c = CHR ''['', transformJSON) of
               (True, Some fn) \<Rightarrow> RewriteArray L obj Root fn
             | _ \<Rightarrow> Inr obj)))"

text \<open>
  \<^verbatim>\<open>RewriteMapStringString\<close>: the Go map of the members is in the order of its iteration, and so is
  the new one, where a later member overwrites an earlier one with the same new key.
\<close>

definition RewriteMapStringString ::
  "'r jsonlib \<Rightarrow> bytes \<Rightarrow> string \<Rightarrow> (string \<Rightarrow> string \<Rightarrow> string \<times> string) \<Rightarrow> bytes res" where
  "RewriteMapStringString L obj mapPath transformFn =
     (let m = gjson_Map L (gjson_GetBytes L obj mapPath) in
      if length m = 0 then Inr obj
      else sjson_SetBytes L obj mapPath (VMap (foldl (\<lambda>newMap (k, v).
        case transformFn k (gjson_String L v) of (newK, newV) \<Rightarrow>
          if gjson_IsNil L v \<and> newV = [] then AList.update newK None newMap
          else AList.update newK (Some newV) newMap) [] m)))"

section \<open>The transformers on JSON values\<close>

definition j_string :: "string list \<Rightarrow> (string \<Rightarrow> string) \<Rightarrow> json \<Rightarrow> json" where
  "j_string ks f j = (case jget j ks of None \<Rightarrow> j | Some _ \<Rightarrow> jset j ks (JStr (f (jtext_at j ks))))"

definition j_object :: "string list \<Rightarrow> (json \<Rightarrow> json) \<Rightarrow> json \<Rightarrow> json" where
  "j_object ks f j = (case jget j ks of Some (JObj m) \<Rightarrow> jset j ks (f (JObj m)) | _ \<Rightarrow> j)"

definition items_at :: "json \<Rightarrow> string list \<Rightarrow> json list" where
  "items_at j ks = (case jget j ks of Some (JArr vs) \<Rightarrow> vs | _ \<Rightarrow> [])"

definition item_text :: "json \<Rightarrow> string" where
  "item_text v = (case jtext (Some v) of Some s \<Rightarrow> s | None \<Rightarrow> [])"

definition j_strings :: "string list \<Rightarrow> (string \<Rightarrow> string) \<Rightarrow> json \<Rightarrow> json" where
  "j_strings ks f j =
     (if items_at j ks = [] then j else jset j ks (JArr (map (\<lambda>v. JStr (f (item_text v))) (items_at j ks))))"

text \<open>An array item is dropped when the function gives \<open>None\<close>.\<close>

definition j_array :: "string list \<Rightarrow> (json \<Rightarrow> json option) \<Rightarrow> json \<Rightarrow> json" where
  "j_array ks f j = (if items_at j ks = [] then j else jset j ks (JArr (List.map_filter f (items_at j ks))))"

text \<open>A member of a string map under its new key: null stays null unless a value is put in its place.\<close>

definition map_entry :: "(string \<Rightarrow> string \<Rightarrow> string \<times> string) \<Rightarrow> string \<Rightarrow> json \<Rightarrow> string \<times> json" where
  "map_entry f k v =
     (case f k (item_text v) of (k', s) \<Rightarrow> (k', if v = JNull \<and> s = [] then JNull else JStr s))"

definition map_image :: "(string \<Rightarrow> string \<Rightarrow> string \<times> string) \<Rightarrow> (string \<Rightarrow> json option) \<Rightarrow> (string \<Rightarrow> json option)" where
  "map_image f m = (\<lambda>k'. if \<exists>k v. m k = Some v \<and> fst (map_entry f k v) = k'
     then Some (SOME u. \<exists>k v. m k = Some v \<and> map_entry f k v = (k', u)) else None)"

definition members_at :: "json \<Rightarrow> string list \<Rightarrow> (string \<Rightarrow> json option)" where
  "members_at j ks = (case jget j ks of Some (JObj m) \<Rightarrow> m | _ \<Rightarrow> Map.empty)"

definition j_map :: "string list \<Rightarrow> (string \<Rightarrow> string \<Rightarrow> string \<times> string) \<Rightarrow> json \<Rightarrow> json" where
  "j_map ks f j =
     (if members_at j ks = Map.empty then j else jset j ks (JObj (map_image f (members_at j ks))))"

text \<open>The new keys do not collide.\<close>

definition no_clash :: "(string \<Rightarrow> string \<Rightarrow> string \<times> string) \<Rightarrow> (string \<Rightarrow> json option) \<Rightarrow> bool" where
  "no_clash f m \<longleftrightarrow> (\<forall>k v k' v'. m k = Some v \<longrightarrow> m k' = Some v' \<longrightarrow>
     fst (map_entry f k v) = fst (map_entry f k' v') \<longrightarrow> k = k')"

text \<open>Well-typed places: an array or nothing, an array of texts or nothing.\<close>

definition has_array :: "json \<Rightarrow> string list \<Rightarrow> bool" where
  "has_array j ks \<longleftrightarrow> (case jget j ks of None \<Rightarrow> True | Some JNull \<Rightarrow> True | Some (JArr _) \<Rightarrow> True | _ \<Rightarrow> False)"

definition has_text_array :: "json \<Rightarrow> string list \<Rightarrow> bool" where
  "has_text_array j ks \<longleftrightarrow> has_array j ks \<and> (\<forall>v \<in> set (items_at j ks). jtext (Some v) \<noteq> None)"

lemma map_image_Some:
  assumes "no_clash f m"
  shows "map_image f m k' = Some u \<longleftrightarrow> (\<exists>k v. m k = Some v \<and> map_entry f k v = (k', u))"
proof
  assume l: "map_image f m k' = Some u"
  then have "\<exists>u. \<exists>k v. m k = Some v \<and> map_entry f k v = (k', u)"
    by (auto simp: map_image_def split: if_splits) (metis prod.collapse)
  from someI_ex [OF this] l show "\<exists>k v. m k = Some v \<and> map_entry f k v = (k', u)"
    by (auto simp: map_image_def split: if_splits)
next
  assume "\<exists>k v. m k = Some v \<and> map_entry f k v = (k', u)"
  then obtain k v where kv: "m k = Some v" "map_entry f k v = (k', u)" by blast
  have "u' = u" if "\<exists>k v. m k = Some v \<and> map_entry f k v = (k', u')" for u'
    using that kv assms unfolding no_clash_def by (metis fst_conv option.inject snd_conv)
  with kv have "(SOME u. \<exists>k v. m k = Some v \<and> map_entry f k v = (k', u)) = u"
    by (intro some_equality) blast+
  with kv show "map_image f m k' = Some u"
    unfolding map_image_def by (metis fst_conv)
qed

section \<open>Refinement\<close>

text \<open>
  What a step on one array item may do: fail with the skip error where the item is dropped, return
  the new item, or return \<^verbatim>\<open>nil\<close> for an item that stays.
\<close>

definition item_ok :: "(string \<Rightarrow> json option) \<Rightarrow> bytes res \<Rightarrow> json \<Rightarrow> json option \<Rightarrow> bool" where
  "item_ok D r v u \<longleftrightarrow> (case u of
     None \<Rightarrow> (\<exists>e. r = Inl e \<and> errors_Is_SkipItem e)
   | Some w \<Rightarrow> yields D r w \<or> r = Inr None \<and> w = v)"

lemma item_ok_Some [refine]: "yields D r w \<Longrightarrow> item_ok D r v (Some w)"
  by (simp add: item_ok_def)

lemma item_ok_keep [refine]: "item_ok D (Inr None) v (Some v)"
  by (simp add: item_ok_def)

lemma item_ok_skip [refine]: "item_ok D (Inl SkipItem) v None"
  by (simp add: item_ok_def)

lemma Join_concat: "Join (t # ts) sep = t @ concat (map (\<lambda>t. sep @ t) ts)"
  by (induction ts arbitrary: t) auto

lemma map_filter_None [simp]: "f x = None \<Longrightarrow> List.map_filter f (x # xs) = List.map_filter f xs"
  by (simp add: List.map_filter_simps)

lemma map_filter_Some [simp]: "f x = Some y \<Longrightarrow> List.map_filter f (x # xs) = y # List.map_filter f xs"
  by (simp add: List.map_filter_simps)

lemma map_filter_Some_map [simp]: "List.map_filter (\<lambda>x. Some (f x)) xs = map f xs"
  by (induction xs) (simp_all add: List.map_filter_simps)

lemma strings_loop_map: "strings_loop (\<lambda>_ item. ((), f item)) u items = ((), map f items)"
  by (induction items arbitrary: u) auto

lemma has_array_cases:
  assumes "has_array j ks"
  obtains (none) "jget j ks = None \<or> jget j ks = Some JNull" "items_at j ks = []"
    | (arr) vs where "jget j ks = Some (JArr vs)" "items_at j ks = vs"
  using assms by (auto simp: has_array_def items_at_def split: option.splits json.splits)

text \<open>A Go map filled by a loop of assignments.\<close>

lemma update_list_all: "P (k, v) \<Longrightarrow> list_all P m \<Longrightarrow> list_all P (AList.update k v m)"
  by (induction m) auto

lemma fill_map:
  "map_of (foldl (\<lambda>m x. AList.update (fst (e x)) (snd (e x)) m) m xs) = map_of m ++ map_of (rev (map e xs))"
  "distinct (map fst m) \<Longrightarrow> distinct (map fst (foldl (\<lambda>m x. AList.update (fst (e x)) (snd (e x)) m) m xs))"
  "list_all P m \<Longrightarrow> (\<And>x. x \<in> set xs \<Longrightarrow> P (e x)) \<Longrightarrow> list_all P (foldl (\<lambda>m x. AList.update (fst (e x)) (snd (e x)) m) m xs)"
  by (induction xs arbitrary: m) (simp_all add: update_conv' distinct_update update_list_all)

lemma fill_lookup:
  assumes "distinct (map (\<lambda>x. fst (e x)) xs)"
  shows "map_of (foldl (\<lambda>m x. AList.update (fst (e x)) (snd (e x)) m) [] xs) k = Some u \<longleftrightarrow> (\<exists>x \<in> set xs. e x = (k, u))"
proof -
  have "distinct (map fst (rev (map e xs)))"
    using assms by (simp add: rev_map comp_def flip: rev_map)
  then show ?thesis by (force simp: fill_map(1))
qed

text \<open>The text a result carries in a loop over an array.\<close>

definition text_of_item :: "(string \<Rightarrow> json option) \<Rightarrow> bytes res \<Rightarrow> string \<Rightarrow> json \<Rightarrow> bool" where
  "text_of_item D r raw w \<longleftrightarrow> (\<exists>b. r = Inr b \<and> D (case b of None \<Rightarrow> raw | Some t \<Rightarrow> t) = Some w)"

lemma item_ok_text: "D raw = Some v \<Longrightarrow> item_ok D r v (Some w) \<Longrightarrow> text_of_item D r raw w"
  by (auto simp: item_ok_def text_of_item_def yields_def doc_def)

definition go_entry :: "'r jsonlib \<Rightarrow> (string \<Rightarrow> string \<Rightarrow> string \<times> string) \<Rightarrow> string \<times> 'r \<Rightarrow> string \<times> string option" where
  "go_entry L f kv = (case f (fst kv) (gjson_String L (snd kv)) of (newK, newV) \<Rightarrow>
     (newK, if gjson_IsNil L (snd kv) \<and> newV = [] then None else Some newV))"

definition filled :: "'r jsonlib \<Rightarrow> (string \<Rightarrow> string \<Rightarrow> string \<times> string) \<Rightarrow> (string \<times> 'r) list \<Rightarrow> (string \<times> string option) list" where
  "filled L f ms = foldl (\<lambda>newMap kv. AList.update (fst (go_entry L f kv)) (snd (go_entry L f kv)) newMap) [] ms"

context json_library
begin

lemma utf8_jtext_at: "doc D x j \<Longrightarrow> utf8 (jtext_at j ks)"
proof -
  assume d: "doc D x j"
  have b: "utf8 ''true''" "utf8 ''false''" by code_simp+
  show ?thesis
  proof (cases "jget j ks")
    case (Some v)
    then show ?thesis using d b by (cases v) (auto simp: jtext_at_def doc_def intro: text_str)
  qed (simp add: jtext_at_def)
qed

lemma utf8_item_text: "doc D x j \<Longrightarrow> v \<in> set (items_at j ks) \<Longrightarrow> utf8 (item_text v)"
proof -
  assume d: "doc D x j" and v: "v \<in> set (items_at j ks)"
  have b: "utf8 ''true''" "utf8 ''false''" by code_simp+
  have "jget j ks = Some (JArr (items_at j ks))"
    using v by (cases "jget j ks") (auto simp: items_at_def split: json.splits)
  with d b v show ?thesis by (cases v) (auto simp: item_text_def doc_def intro: text_val)
qed

lemma TransformString_yields:
  assumes "doc D x j" and "plain_path p" and "has_text j (jpath p)" and "utf8 (f (jtext_at j (jpath p)))"
  shows "yields D (TransformString L x p f) (j_string (jpath p) f j)"
proof (cases "jget j (jpath p)")
  case None
  then show ?thesis using GetBytes [OF assms(1,2)] assms(1) by (simp add: TransformString_def Exists j_string_def)
next
  case (Some v)
  then show ?thesis
    using GetBytes [OF assms(1,2)] SetBytes [OF assms(1,2) jget_settable [OF Some], of "VString (f (jtext_at j (jpath p)))"]
      String_at [OF assms(1-3)] assms(4)
    by (simp add: TransformString_def Exists j_string_def)
qed

lemma TransformObject_yields:
  assumes "doc D x j" and "plain_path p"
    and "\<And>m y. jget j (jpath p) = Some (JObj m) \<Longrightarrow> doc D y (JObj m) \<Longrightarrow> yields D (F y) (f (JObj m))"
  shows "yields D (TransformObject L x p F) (j_object (jpath p) f j)"
proof (cases "\<exists>m. jget j (jpath p) = Some (JObj m)")
  case True
  then obtain m where m: "jget j (jpath p) = Some (JObj m)" by blast
  let ?r = "gjson_GetBytes L x p"
  have V: "V ?r = Some (JObj m)" using GetBytes [OF assms(1,2)] m by simp
  then have "doc D (Some (gjson_Raw L ?r)) (JObj m)" by (simp add: Raw)
  then have "yields D (F (Some (gjson_Raw L ?r))) (f (JObj m))" by (rule assms(3) [OF m])
  then have "yields D (res_bind (F (Some (gjson_Raw L ?r))) (sjson_SetRawBytes L x p)) (jset j (jpath p) (f (JObj m)))"
    using SetRawBytes [OF assms(1,2) jget_settable [OF m]] by (rule yields_bind)
  with m V show ?thesis by (simp add: TransformObject_def IsObject j_object_def)
next
  case False
  then show ?thesis using GetBytes [OF assms(1,2)] assms(1)
    by (auto simp: TransformObject_def IsObject j_object_def split: option.splits json.splits)
qed

lemma Array_items:
  assumes "doc D x j" and "plain_path p" and "has_array j (jpath p)"
  shows "map V (gjson_Array L (gjson_GetBytes L x p)) = map Some (items_at j (jpath p))"
  using GetBytes [OF assms(1,2)] Array_arr Array_nil
  by (cases rule: has_array_cases [OF assms(3)]) auto

lemma map_String_items:
  "map V rs = map Some vs \<Longrightarrow> (\<forall>v \<in> set vs. jtext (Some v) \<noteq> None) \<Longrightarrow> map (gjson_String L) rs = map item_text vs"
proof (induction rs arbitrary: vs)
  case (Cons r rs)
  then obtain v ws where vs: "vs = v # ws" "V r = Some v" by auto
  with Cons.prems(2) obtain s where s: "jtext (Some v) = Some s" by auto
  with String [of r s] vs have "gjson_String L r = item_text v" by (simp add: item_text_def)
  with Cons vs show ?case by simp
qed simp

lemma TransformArrayOfStrings_yields:
  assumes "doc D x j" and "plain_path p" and "has_text_array j (jpath p)"
    and "\<And>v. v \<in> set (items_at j (jpath p)) \<Longrightarrow> utf8 (f (item_text v))"
  shows "yields D (TransformArrayOfStrings L x p f) (j_strings (jpath p) f j)"
proof -
  let ?rs = "gjson_Array L (gjson_GetBytes L x p)"
  from assms(3) have ha: "has_array j (jpath p)" by (simp add: has_text_array_def)
  have items: "map V ?rs = map Some (items_at j (jpath p))" using Array_items [OF assms(1,2) ha] .
  then have str: "map (gjson_String L) ?rs = map item_text (items_at j (jpath p))"
    using assms(3) by (intro map_String_items) (auto simp: has_text_array_def)
  show ?thesis
  proof (cases "items_at j (jpath p) = []")
    case True
    with items assms(1) show ?thesis
      by (simp add: TransformArrayOfStrings_def TransformArrayOfStringsS_def j_strings_def)
  next
    case False
    then obtain vs where vs: "jget j (jpath p) = Some (JArr vs)"
      by (auto simp: items_at_def split: option.splits json.splits)
    with False items have ne: "?rs \<noteq> []" by auto
    have "yields D (sjson_SetBytes L x p (VStrings (Some (map f (map item_text (items_at j (jpath p)))))))
        (jset j (jpath p) (gv_json (VStrings (Some (map f (map item_text (items_at j (jpath p))))))))"
      by (rule SetBytes [OF assms(1,2) jget_settable [OF vs]]) (use assms(4) in \<open>auto simp: list_all_iff\<close>)
    with False ne show ?thesis
      by (simp add: TransformArrayOfStrings_def TransformArrayOfStringsS_def j_strings_def strings_loop_map str comp_def)
  qed
qed

lemma RewriteArray_loop_rest:
  assumes "map V items = map Some vs"
    and "\<And>v y st. v \<in> set vs \<Longrightarrow> doc D y v \<Longrightarrow> item_ok D (snd (F st y)) v (g v)"
  shows "\<exists>st' ts. RewriteArray_loop L F st False buf items = (st', Inr (buf @ concat (map (\<lambda>t. '','' @ t) ts))) \<and>
    list_all2 (\<lambda>t j. D t = Some j) ts (List.map_filter g vs)"
  using assms
proof (induction items arbitrary: vs st buf)
  case Nil
  then show ?case by (auto simp: List.map_filter_simps)
next
  case (Cons r rs)
  then obtain v ws where vs: "vs = v # ws" "V r = Some v" "map V rs = map Some ws" by auto
  have raw: "D (gjson_Raw L r) = Some v" using Raw vs(2) by simp
  obtain st1 o1 where F: "F st (Some (gjson_Raw L r)) = (st1, o1)" by (cases "F st (Some (gjson_Raw L r))")
  have ok: "item_ok D o1 v (g v)" using Cons.prems(2) [of v "Some (gjson_Raw L r)" st] raw vs F by simp
  have P: "item_ok D (snd (F st y)) v (g v)" if "v \<in> set ws" "doc D y v" for v y st
    using Cons.prems(2) that vs(1) by simp
  note IH = Cons.IH [OF vs(3) P]
  show ?case
  proof (cases "g v")
    case None
    with ok obtain e where "o1 = Inl e" "errors_Is_SkipItem e" by (auto simp: item_ok_def)
    with None F vs IH [of st1 buf] show ?thesis by simp
  next
    case (Some w)
    with ok have "text_of_item D o1 (gjson_Raw L r) w" using item_ok_text [of D, OF raw] by simp
    then obtain b where b: "o1 = Inr b" "D (case b of None \<Rightarrow> gjson_Raw L r | Some t \<Rightarrow> t) = Some w"
      unfolding text_of_item_def by blast
    let ?t = "case b of None \<Rightarrow> gjson_Raw L r | Some t \<Rightarrow> t"
    obtain st' ts where "RewriteArray_loop L F st1 False (buf @ '','' @ ?t) rs =
        (st', Inr ((buf @ '','' @ ?t) @ concat (map (\<lambda>t. '','' @ t) ts)))"
      "list_all2 (\<lambda>t j. D t = Some j) ts (List.map_filter g ws)"
      using IH [of st1 "buf @ '','' @ ?t"] by auto
    with Some F vs b show ?thesis by (intro exI [of _ st'] exI [of _ "?t # ts"]) simp
  qed
qed

lemma RewriteArray_loop_first:
  assumes "map V items = map Some vs"
    and "\<And>v y st. v \<in> set vs \<Longrightarrow> doc D y v \<Longrightarrow> item_ok D (snd (F st y)) v (g v)"
  shows "\<exists>st' ts. RewriteArray_loop L F st True buf items = (st', Inr (buf @ Join ts '','')) \<and>
    list_all2 (\<lambda>t j. D t = Some j) ts (List.map_filter g vs)"
  using assms
proof (induction items arbitrary: vs st)
  case Nil
  then show ?case by (auto simp: List.map_filter_simps)
next
  case (Cons r rs)
  then obtain v ws where vs: "vs = v # ws" "V r = Some v" "map V rs = map Some ws" by auto
  have raw: "D (gjson_Raw L r) = Some v" using Raw vs(2) by simp
  obtain st1 o1 where F: "F st (Some (gjson_Raw L r)) = (st1, o1)" by (cases "F st (Some (gjson_Raw L r))")
  have ok: "item_ok D o1 v (g v)" using Cons.prems(2) [of v "Some (gjson_Raw L r)" st] raw vs F by simp
  have P: "item_ok D (snd (F st y)) v (g v)" if "v \<in> set ws" "doc D y v" for v y st
    using Cons.prems(2) that vs(1) by simp
  show ?case
  proof (cases "g v")
    case None
    with ok obtain e where "o1 = Inl e" "errors_Is_SkipItem e" by (auto simp: item_ok_def)
    with None F vs Cons.IH [OF vs(3) P, of st1] show ?thesis by simp
  next
    case (Some w)
    with ok have "text_of_item D o1 (gjson_Raw L r) w" using item_ok_text [of D, OF raw] by simp
    then obtain b where b: "o1 = Inr b" "D (case b of None \<Rightarrow> gjson_Raw L r | Some t \<Rightarrow> t) = Some w"
      unfolding text_of_item_def by blast
    let ?t = "case b of None \<Rightarrow> gjson_Raw L r | Some t \<Rightarrow> t"
    obtain st' ts where "RewriteArray_loop L F st1 False (buf @ ?t) rs =
        (st', Inr ((buf @ ?t) @ concat (map (\<lambda>t. '','' @ t) ts)))"
      "list_all2 (\<lambda>t j. D t = Some j) ts (List.map_filter g ws)"
      using RewriteArray_loop_rest [where F = F and g = g, OF vs(3) P, of st1 "buf @ ?t"] by auto
    with Some F vs b show ?thesis by (intro exI [of _ st'] exI [of _ "?t # ts"]) (simp add: Join_concat)
  qed
qed

lemma RewriteArray_buffer:
  assumes "map V items = map Some vs"
    and "\<And>v y. v \<in> set vs \<Longrightarrow> doc D y v \<Longrightarrow> item_ok D (F y) v (g v)"
  shows "\<exists>b. snd (RewriteArray_loop L (\<lambda>_ item. ((), F item)) () True ''['' items) = Inr b \<and>
    doc D (Some (b @ '']'')) (JArr (List.map_filter g vs))"
proof -
  obtain ts where "snd (RewriteArray_loop L (\<lambda>_ item. ((), F item)) () True ''['' items) = Inr (''['' @ Join ts '','')"
    "list_all2 (\<lambda>t j. D t = Some j) ts (List.map_filter g vs)"
    using RewriteArray_loop_first [OF assms(1), of "\<lambda>_ item. ((), F item)" g "()" "''[''"] assms(2) by auto
  with array_text show ?thesis by simp
qed

lemma RewriteArray_yields:
  assumes "doc D x j" and "plain_path p" and "p \<noteq> Root" and "has_array j (jpath p)"
    and "\<And>v y. v \<in> set (items_at j (jpath p)) \<Longrightarrow> doc D y v \<Longrightarrow> item_ok D (F y) v (g v)"
  shows "yields D (RewriteArray L x p F) (j_array (jpath p) g j)"
proof -
  let ?rs = "gjson_Array L (gjson_GetBytes L x p)"
  have items: "map V ?rs = map Some (items_at j (jpath p))" using Array_items [OF assms(1,2,4)] .
  show ?thesis
  proof (cases "items_at j (jpath p) = []")
    case True
    with items assms(1,3) show ?thesis by (simp add: RewriteArray_def RewriteArrayS_def j_array_def Let_def GetBytes_def)
  next
    case False
    then obtain vs where vs: "jget j (jpath p) = Some (JArr vs)"
      by (auto simp: items_at_def split: option.splits json.splits)
    from False items have ne: "?rs \<noteq> []" by auto
    from RewriteArray_buffer [where F = F and g = g, OF items assms(5)] obtain b where
      b: "snd (RewriteArray_loop L (\<lambda>_ item. ((), F item)) () True ''['' ?rs) = Inr b"
        "doc D (Some (b @ '']'')) (JArr (List.map_filter g (items_at j (jpath p))))" by blast
    with ne False assms(3) SetRawBytes [OF assms(1,2) jget_settable [OF vs] b(2)] show ?thesis
      by (simp add: RewriteArray_def RewriteArrayS_def j_array_def Let_def GetBytes_def SetRawBytes_def prod.case_eq_if)
  qed
qed

lemma RewriteArray_root_yields:
  assumes "doc D x (JArr vs)"
    and "\<And>v y. v \<in> set vs \<Longrightarrow> doc D y v \<Longrightarrow> item_ok D (F y) v (g v)"
  shows "yields D (RewriteArray L x Root F) (JArr (List.map_filter g vs))"
proof -
  let ?rs = "gjson_Array L (gjson_ParseBytes L x)"
  have items: "map V ?rs = map Some vs" using Array_arr [OF ParseBytes [OF assms(1)]] .
  show ?thesis
  proof (cases "vs = []")
    case True
    with items assms(1) show ?thesis
      by (simp add: RewriteArray_def RewriteArrayS_def Let_def GetBytes_def List.map_filter_simps)
  next
    case False
    from False items have ne: "?rs \<noteq> []" by auto
    from RewriteArray_buffer [where F = F and g = g, OF items assms(2)] obtain b where
      b: "snd (RewriteArray_loop L (\<lambda>_ item. ((), F item)) () True ''['' ?rs) = Inr b"
        "doc D (Some (b @ '']'')) (JArr (List.map_filter g vs))" by blast
    with ne False show ?thesis
      by (simp add: RewriteArray_def RewriteArrayS_def Let_def GetBytes_def SetRawBytes_def prod.case_eq_if)
  qed
qed

lemma RewriteMapStringString_eq:
  "RewriteMapStringString L x p f =
     (let m = gjson_Map L (gjson_GetBytes L x p) in
      if m = [] then Inr x
      else sjson_SetBytes L x p (VMap (foldl (\<lambda>newMap kv. AList.update (fst (go_entry L f kv)) (snd (go_entry L f kv)) newMap) [] m)))"
proof -
  have "(\<lambda>newMap (k, v). case f k (gjson_String L v) of (newK, newV) \<Rightarrow>
          if gjson_IsNil L v \<and> newV = [] then AList.update newK None newMap
          else AList.update newK (Some newV) newMap) =
        (\<lambda>newMap kv. AList.update (fst (go_entry L f kv)) (snd (go_entry L f kv)) newMap)"
    by (auto simp: fun_eq_iff go_entry_def split: prod.split)
  then show ?thesis by (simp add: RewriteMapStringString_def Let_def)
qed

lemma go_entry_map_entry:
  assumes "V r = Some v" and "jtext (Some v) \<noteq> None"
  shows "map_entry f k v = (fst (go_entry L f (k, r)), ptr_json (snd (go_entry L f (k, r))))"
proof -
  obtain s where s: "jtext (Some v) = Some s" using assms(2) by auto
  then have "gjson_String L r = item_text v" using String [of r s] assms(1) by (simp add: item_text_def)
  then show ?thesis using assms(1) by (auto simp: map_entry_def go_entry_def IsNil ptr_json_def split: prod.split)
qed

lemma Map_members:
  assumes "doc D x j" and "plain_path p" and "has_text_map j (jpath p)"
  defines "ms \<equiv> gjson_Map L (gjson_GetBytes L x p)"
  shows "distinct (map fst ms)"
    and "(k, r) \<in> set ms \<Longrightarrow> \<exists>v. V r = Some v \<and> members_at j (jpath p) k = Some v \<and> jtext (Some v) \<noteq> None"
    and "members_at j (jpath p) k = Some v \<Longrightarrow> \<exists>r. (k, r) \<in> set ms \<and> V r = Some v"
proof -
  let ?r = "gjson_GetBytes L x p"
  have V: "V ?r = jget j (jpath p)" using GetBytes [OF assms(1,2)] .
  consider (obj) m where "jget j (jpath p) = Some (JObj m)" | (no) "V ?r = None \<or> V ?r = Some JNull" "members_at j (jpath p) = Map.empty"
    using assms(3) V by (auto simp: has_text_map_def members_at_def split: option.splits json.splits)
  then have "distinct (map fst ms) \<and>
    ((k, r) \<in> set ms \<longrightarrow> (\<exists>v. V r = Some v \<and> members_at j (jpath p) k = Some v \<and> jtext (Some v) \<noteq> None)) \<and>
    (members_at j (jpath p) k = Some v \<longrightarrow> (\<exists>r. (k, r) \<in> set ms \<and> V r = Some v))"
  proof cases
    case obj
    then have m: "members_at j (jpath p) = m" "V ?r = Some (JObj m)" using V by (simp_all add: members_at_def)
    have M: "distinct (map fst ms)" "map_option V (map_of ms k) = map_option Some (m k)"
      using Map_obj [OF m(2)] by (auto simp: ms_def)
    have "(k, r) \<in> set ms \<Longrightarrow> map_of ms k = Some r" using M(1) by simp
    moreover have "map_of ms k = Some r' \<Longrightarrow> (k, r') \<in> set ms" for r' by (rule map_of_SomeD)
    ultimately show ?thesis
      using M m(1) obj assms(3) by (cases "m k"; cases "map_of ms k") (auto simp: has_text_map_def)
  next
    case no
    then show ?thesis using Map_other by (simp add: ms_def)
  qed
  then show "distinct (map fst ms)"
    and "(k, r) \<in> set ms \<Longrightarrow> \<exists>v. V r = Some v \<and> members_at j (jpath p) k = Some v \<and> jtext (Some v) \<noteq> None"
    and "members_at j (jpath p) k = Some v \<Longrightarrow> \<exists>r. (k, r) \<in> set ms \<and> V r = Some v"
    by blast+
qed

lemma filled_image:
  assumes "doc D x j" and "plain_path p" and "has_text_map j (jpath p)" and "no_clash f (members_at j (jpath p))"
  shows "map_option ptr_json \<circ> map_of (filled L f (gjson_Map L (gjson_GetBytes L x p))) = map_image f (members_at j (jpath p))"
proof
  fix k'
  let ?ms = "gjson_Map L (gjson_GetBytes L x p)" and ?m = "members_at j (jpath p)"
  note M = Map_members [OF assms(1-3)]
  have entry: "\<exists>v. ?m k = Some v \<and> map_entry f k v = (fst (go_entry L f (k, r)), ptr_json (snd (go_entry L f (k, r))))"
    if "(k, r) \<in> set ?ms" for k r
    using M(2) [OF that] go_entry_map_entry by blast
  have dist: "distinct (map (\<lambda>kv. fst (go_entry L f kv)) ?ms)"
  proof -
    have "kv = kv'" if "kv \<in> set ?ms" "kv' \<in> set ?ms" "fst (go_entry L f kv) = fst (go_entry L f kv')" for kv kv'
      using entry [of "fst kv" "snd kv"] entry [of "fst kv'" "snd kv'"] that assms(4) M(1)
      unfolding no_clash_def by (metis eq_key_imp_eq_value fst_conv prod.collapse)
    moreover have "distinct ?ms" using M(1) by (simp add: distinct_map)
    ultimately show ?thesis by (auto simp: distinct_map inj_on_def)
  qed
  note look = fill_lookup [OF dist, folded filled_def]
  have "map_image f ?m k' = Some (ptr_json u)" if "map_of (filled L f ?ms) k' = Some u" for u
  proof -
    from that obtain k r where "(k, r) \<in> set ?ms" "go_entry L f (k, r) = (k', u)" unfolding look by auto
    with entry show ?thesis unfolding map_image_Some [OF assms(4)] by (metis fst_conv snd_conv)
  qed
  moreover have "map_of (filled L f ?ms) k' \<noteq> None" if im: "map_image f ?m k' = Some w" for w
  proof -
    from im obtain k v where kv: "?m k = Some v" "map_entry f k v = (k', w)" unfolding map_image_Some [OF assms(4)] by blast
    then obtain r where r: "(k, r) \<in> set ?ms" using M(3) by blast
    with entry [OF r] kv have "go_entry L f (k, r) = (k', snd (go_entry L f (k, r)))" by (simp add: prod_eq_iff)
    with r show ?thesis using look [of k'] by blast
  qed
  ultimately show "(map_option ptr_json \<circ> map_of (filled L f ?ms)) k' = map_image f ?m k'"
    by (cases "map_of (filled L f ?ms) k'"; cases "map_image f ?m k'") fastforce+
qed

lemma filled_text:
  assumes "doc D x j" and "plain_path p" and "has_text_map j (jpath p)"
    and "\<And>k v. members_at j (jpath p) k = Some v \<Longrightarrow> utf8 (fst (f k (item_text v))) \<and> utf8 (snd (f k (item_text v)))"
  shows "gv_ok (VMap (filled L f (gjson_Map L (gjson_GetBytes L x p))))"
  unfolding gv_ok.simps filled_def
proof (intro conjI fill_map(2) fill_map(3))
  fix kv assume "kv \<in> set (gjson_Map L (gjson_GetBytes L x p))"
  then obtain k r where "kv = (k, r)" "(k, r) \<in> set (gjson_Map L (gjson_GetBytes L x p))" by (metis surj_pair)
  moreover from this obtain v where "V r = Some v" "members_at j (jpath p) k = Some v" "jtext (Some v) \<noteq> None"
    using Map_members(2) [OF assms(1-3)] by blast
  moreover from this have "gjson_String L r = item_text v" using String by (auto simp: item_text_def)
  ultimately show "case go_entry L f kv of (k, v) \<Rightarrow> utf8 k \<and> (case v of None \<Rightarrow> True | Some s \<Rightarrow> utf8 s)"
    using assms(4) [of k v] by (auto simp: go_entry_def split: prod.split)
qed simp_all

lemma RewriteMapStringString_yields:
  assumes "doc D x j" and "plain_path p" and "has_text_map j (jpath p)" and "no_clash f (members_at j (jpath p))"
    and "\<And>k v. members_at j (jpath p) k = Some v \<Longrightarrow> utf8 (fst (f k (item_text v))) \<and> utf8 (snd (f k (item_text v)))"
  shows "yields D (RewriteMapStringString L x p f) (j_map (jpath p) f j)"
proof -
  let ?ms = "gjson_Map L (gjson_GetBytes L x p)" and ?m = "members_at j (jpath p)"
  note M = Map_members [OF assms(1-3)]
  show ?thesis
  proof (cases "?ms = []")
    case True
    with M(3) have "?m = Map.empty" by (intro ext) (metis list.set(1) empty_iff not_None_eq)
    with True assms(1) show ?thesis by (simp add: RewriteMapStringString_eq Let_def j_map_def)
  next
    case False
    then obtain k r where "(k, r) \<in> set ?ms" by (metis list.set_intros(1) neq_Nil_conv surj_pair)
    then have "?m \<noteq> Map.empty" using M(2) by fastforce
    moreover from this obtain m where "jget j (jpath p) = Some (JObj m)"
      by (auto simp: members_at_def split: option.splits json.splits)
    then have "settable j (jpath p)" by (rule jget_settable)
    ultimately show ?thesis
      using False SetBytes [OF assms(1,2) _ filled_text [OF assms(1-3), of f, OF assms(5)]] filled_image [OF assms(1-4)]
      by (simp add: RewriteMapStringString_eq Let_def j_map_def filled_def)
  qed
qed

text \<open>A single resource or the items of a list.\<close>

lemma RewriteResourceOrList_yields:
  assumes "doc D x j" and "has_text j [''kind'']"
    and "jtext_at j [''kind''] \<noteq> lk \<Longrightarrow> yields D (F x) (f j)"
    and "jtext_at j [''kind''] = lk \<Longrightarrow> has_array j [''items'']"
    and "\<And>v y. jtext_at j [''kind''] = lk \<Longrightarrow> v \<in> set (items_at j [''items'']) \<Longrightarrow> doc D y v \<Longrightarrow> item_ok D (F y) v (g v)"
  shows "yields D (RewriteResourceOrList L x lk F) (if jtext_at j [''kind''] \<noteq> lk then f j else j_array [''items''] g j)"
proof -
  have "gjson_String L (gjson_GetBytes L x ''kind'') = jtext_at j [''kind'']"
    using String_at [OF assms(1), of "''kind''"] assms(2) by simp
  with assms RewriteArray_yields [OF assms(1), of "''items''" F g] show ?thesis
    by (auto simp: RewriteResourceOrList_def Root_def)
qed

lemma RewriteResourceOrList2_yields:
  assumes "doc D x j" and "has_text j [''kind'']"
    and "\<not> HasSuffix (jtext_at j [''kind'']) ''List'' \<Longrightarrow> yields D (F x) (f j)"
    and "HasSuffix (jtext_at j [''kind'']) ''List'' \<Longrightarrow> has_array j [''items'']"
    and "\<And>v y. HasSuffix (jtext_at j [''kind'']) ''List'' \<Longrightarrow> v \<in> set (items_at j [''items'']) \<Longrightarrow> doc D y v \<Longrightarrow> item_ok D (F y) v (g v)"
  shows "yields D (RewriteResourceOrList2 L x F)
    (if \<not> HasSuffix (jtext_at j [''kind'']) ''List'' then f j else j_array [''items''] g j)"
proof -
  have "gjson_String L (gjson_GetBytes L x ''kind'') = jtext_at j [''kind'']"
    using String_at [OF assms(1), of "''kind''"] assms(2) by simp
  with assms RewriteArray_yields [OF assms(1), of "''items''" F g] show ?thesis
    by (auto simp: RewriteResourceOrList2_def Root_def)
qed

end

lemma TransformPatch_merge [simp]: "TransformPatch L (Some (CHR ''{'' # t)) (Some fn) fj = fn (Some (CHR ''{'' # t))"
  by (simp add: TransformPatch_def)

lemma TransformPatch_array [simp]:
  "TransformPatch L (Some (CHR ''['' # t)) fm (Some fn) = RewriteArray L (Some (CHR ''['' # t)) Root fn"
  by (simp add: TransformPatch_def split: option.split)

lemma RewriteArray_loop_error:
  assumes "F (Some (gjson_Raw L r)) = Inl e" and "\<not> errors_Is_SkipItem e"
    and "\<And>q e'. q \<in> set before \<Longrightarrow> F (Some (gjson_Raw L q)) = Inl e' \<Longrightarrow> errors_Is_SkipItem e'"
  shows "snd (RewriteArray_loop L (\<lambda>_ item. ((), F item)) () first buf (before @ r # after)) = Inl e"
  using assms
proof (induction "before" arbitrary: first buf)
  case (Cons q qs)
  then show ?case by (cases "F (Some (gjson_Raw L q))") auto
qed simp

section \<open>Locality\<close>

text \<open>A transformer leaves every path that forks off its own path alone.\<close>

lemma jget_j_forks [simp]:
  assumes "forks ks ls"
  shows "jget (j_string ks f j) ls = jget j ls" and "jget (j_object ks h j) ls = jget j ls"
    and "jget (j_strings ks f j) ls = jget j ls" and "jget (j_array ks g j) ls = jget j ls"
    and "jget (j_map ks e j) ls = jget j ls"
  using assms
  by (auto simp: j_string_def j_object_def j_strings_def j_array_def j_map_def jget_jset_forks split: option.split json.split)

lemma place_cong:
  assumes "jget i ls = jget j ls"
  shows "has_array i ls = has_array j ls" and "has_text_array i ls = has_text_array j ls" and "has_text i ls = has_text j ls"
    and "has_text_map i ls = has_text_map j ls" and "items_at i ls = items_at j ls" and "members_at i ls = members_at j ls"
    and "jtext_at i ls = jtext_at j ls"
  using assms by (simp_all add: has_array_def has_text_array_def has_text_def has_text_map_def items_at_def members_at_def jtext_at_def)

definition is_object :: "json \<Rightarrow> bool" where
  "is_object j \<longleftrightarrow> (case j of JObj _ \<Rightarrow> True | _ \<Rightarrow> False)"

lemma is_object_settable: "is_object j \<Longrightarrow> settable j [k]"
  by (cases j) (auto simp: is_object_def split: option.split)

lemma is_object_jset [simp]: "is_object j \<Longrightarrow> is_object (jset j [k] v)"
  by (cases j) (auto simp: is_object_def)

lemma is_object_JObj [simp]: "is_object (JObj m)"
  by (simp add: is_object_def)

context json_library
begin

lemma members_text:
  assumes "doc D x j" and "members_at j ks k = Some v"
  shows "utf8 k" and "utf8 (item_text v)"
proof -
  from assms(2) obtain m where m: "jget j ks = Some (JObj m)" "m k = Some v"
    by (cases "jget j ks") (auto simp: members_at_def split: json.splits)
  from assms(1) obtain b where b: "D b = Some j" by (auto simp: doc_def)
  show "utf8 k" by (rule text_key [OF b m])
  have "jget j (ks @ [k]) = Some v" using m by (simp add: jget_append)
  moreover have "utf8 ''true''" "utf8 ''false''" by code_simp+
  ultimately show "utf8 (item_text v)" using text_str [OF b] by (cases v) (auto simp: item_text_def)
qed

lemma SetString_yields:
  "doc D x j \<Longrightarrow> plain_path p \<Longrightarrow> settable j (jpath p) \<Longrightarrow> utf8 s \<Longrightarrow>
   yields D (sjson_SetBytes L x p (VString s)) (jset j (jpath p) (JStr s))"
  using SetBytes [of x j p "VString s"] by simp

end

section \<open>Properties of the transformers\<close>

text \<open>
  C31. Rewriting an array: over any JSON library that obeys the laws, the array at the path becomes
  the array of the rewritten items in the same order, without the items the item function skips and
  with the items it returns nil for left as they were; a missing, null or empty array leaves the
  payload as it is. Nothing else of the payload changes.
\<close>

theorem rewrite_array_refines:
  assumes "json_library L D V" and "doc D x j" and "plain_path p" and "p \<noteq> Root" and "has_array j (jpath p)"
    and "\<And>v y. v \<in> set (items_at j (jpath p)) \<Longrightarrow> doc D y v \<Longrightarrow> item_ok D (F y) v (g v)"
  shows "yields D (RewriteArray L x p F) (j_array (jpath p) g j)"
  by (rule json_library.RewriteArray_yields [OF assms])

definition sample_list :: rj where
  "sample_list = RObj [(''kind'', RStr ''PodList''), (''items'', RArr [RStr ''a'', RStr ''b''])]"

definition sample_step :: "bytes \<Rightarrow> bytes res" where
  "sample_step y = (if gjson_String ref_lib (gjson_ParseBytes ref_lib y) = ''a'' then Inl SkipItem else Inr None)"

lemma sample_step_ok:
  assumes "doc ref_D y (JStr s)"
  shows "item_ok ref_D (sample_step y) (JStr s) (if s = ''a'' then None else Some (JStr s))"
proof -
  have "gjson_String ref_lib (gjson_ParseBytes ref_lib y) = s"
    by (rule ref.String) (simp add: ref.ParseBytes [OF assms])
  then show ?thesis by (simp add: sample_step_def item_ok_def)
qed

theorem rewrite_array_refines_witness:
  "yields ref_D (RewriteArray ref_lib (Some (print sample_list)) ''items'' sample_step)
     (JObj [''kind'' \<mapsto> JStr ''PodList'', ''items'' \<mapsto> JArr [JStr ''b'']])"
proof -
  let ?g = "\<lambda>v. if v = JStr ''a'' then None else Some v"
  have "yields ref_D (RewriteArray ref_lib (Some (print sample_list)) ''items'' sample_step)
      (j_array (jpath ''items'') ?g (rj_abs sample_list))"
  proof (rule rewrite_array_refines [OF ref.json_library_axioms ref_doc])
    show "rj_ok sample_list" by code_simp
    show "item_ok ref_D (sample_step y) v (?g v)"
      if "v \<in> set (items_at (rj_abs sample_list) (jpath ''items''))" "doc ref_D y v" for v y
    proof -
      from that obtain s where "v = JStr s" by (auto simp: items_at_def sample_list_def)
      with that(2) sample_step_ok [of y s] show ?thesis by (auto split: if_splits)
    qed
  qed (simp_all add: Root_def has_array_def sample_list_def)
  moreover have "j_array (jpath ''items'') ?g (rj_abs sample_list) = JObj [''kind'' \<mapsto> JStr ''PodList'', ''items'' \<mapsto> JArr [JStr ''b'']]"
    by (auto simp: j_array_def items_at_def sample_list_def List.map_filter_simps)
  ultimately show ?thesis by simp
qed

text \<open>
  A failing item: the first item for which the item function fails with anything but the skip
  error makes the whole array fail with that error; the payload is not changed.
\<close>

theorem rewrite_array_error:
  assumes "gjson_Array L (GetBytes L x p) = before @ r # after"
    and "F (Some (gjson_Raw L r)) = Inl e" and "\<not> errors_Is_SkipItem e"
    and "\<And>q e'. q \<in> set before \<Longrightarrow> F (Some (gjson_Raw L q)) = Inl e' \<Longrightarrow> errors_Is_SkipItem e'"
  shows "RewriteArray L x p F = Inl e"
  using RewriteArray_loop_error [where F = F and first = True and buf = "''[''" and after = "after", OF assms(2-4)] assms(1)
  by (simp add: RewriteArray_def RewriteArrayS_def Let_def prod.case_eq_if)

theorem rewrite_array_error_witness:
  "RewriteArray ref_lib (Some (print sample_list)) ''items'' (\<lambda>_. Inl (Errorf ''bad'')) = Inl (Errorf ''bad'')"
proof (rule rewrite_array_error)
  show "gjson_Array ref_lib (GetBytes ref_lib (Some (print sample_list)) ''items'') = [] @ Some (RStr ''a'') # [Some (RStr ''b'')]"
    by code_simp
qed simp_all

text \<open>
  Rewriting a string map (labels, annotations, selectors): every member moves to its new key
  with its new value, null stays null where no value is put in its place, and the rest of the
  payload is untouched, provided that no two members get the same new key. The result does not
  depend on the iteration order of the Go map.
\<close>

theorem rewrite_map_refines:
  assumes "json_library L D V" and "doc D x j" and "plain_path p" and "has_text_map j (jpath p)"
    and "no_clash f (members_at j (jpath p))"
    and "\<And>k v. members_at j (jpath p) k = Some v \<Longrightarrow> utf8 (fst (f k (item_text v))) \<and> utf8 (snd (f k (item_text v)))"
  shows "yields D (RewriteMapStringString L x p f) (j_map (jpath p) f j) \<and>
    (\<forall>k v. members_at j (jpath p) k = Some v \<longrightarrow>
      jget (j_map (jpath p) f j) (jpath p @ [fst (map_entry f k v)]) = Some (snd (map_entry f k v)))"
proof (intro conjI allI impI)
  show "yields D (RewriteMapStringString L x p f) (j_map (jpath p) f j)"
    by (rule json_library.RewriteMapStringString_yields [OF assms])
  fix k v assume m: "members_at j (jpath p) k = Some v"
  then obtain m' where "jget j (jpath p) = Some (JObj m')"
    by (auto simp: members_at_def split: option.splits json.splits)
  then have "settable j (jpath p)" by (rule jget_settable)
  moreover have "map_image f (members_at j (jpath p)) (fst (map_entry f k v)) = Some (snd (map_entry f k v))"
    unfolding map_image_Some [OF assms(5)] using m by (metis prod.collapse)
  moreover have "members_at j (jpath p) \<noteq> Map.empty" using m by auto
  ultimately show "jget (j_map (jpath p) f j) (jpath p @ [fst (map_entry f k v)]) = Some (snd (map_entry f k v))"
    by (simp add: j_map_def jget_append)
qed

theorem rewrite_map_refines_witness:
  "yields ref_D (RewriteMapStringString ref_lib (Some (print sample_pod)) ''metadata.labels'' (\<lambda>k v. (''x'' @ k, v)))
     (j_map (jpath ''metadata.labels'') (\<lambda>k v. (''x'' @ k, v)) (rj_abs sample_pod))"
proof -
  have u: "utf8 ''xhide''" "utf8 ''yes''" by code_simp+
  have m: "members_at (rj_abs sample_pod) (jpath ''metadata.labels'') = [''hide'' \<mapsto> JStr ''yes'']"
    by (simp add: members_at_def sample_pod_def)
  show ?thesis
  proof (rule rewrite_map_refines [THEN conjunct1, OF ref.json_library_axioms ref_doc])
    show "rj_ok sample_pod" by code_simp
    show "has_text_map (rj_abs sample_pod) (jpath ''metadata.labels'')"
      by (simp add: has_text_map_def sample_pod_def)
    show "no_clash (\<lambda>k v. (''x'' @ k, v)) (members_at (rj_abs sample_pod) (jpath ''metadata.labels''))"
      unfolding m by (simp add: no_clash_def)
  qed (use u m in \<open>auto simp: item_text_def split: if_splits\<close>)
qed

end
