(* ===== verification/Metadata.thy ===== *)
theory Metadata
  imports Transformers
begin

text \<open>
  Group, kind and metadata of a resource: \<^verbatim>\<open>pkg/rewriter/gvk.go\<close>, \<^verbatim>\<open>metadata.go\<close> and \<^verbatim>\<open>resource.go\<close>.
  The closures of the sources are written as local functions of the payload they get.

  Shown: the rewriting of references and of metadata refines a function on JSON values and touches
  only its own fields; references survive a rename and a restore; the JSON pointer escapes are
  inverse to each other and a patch that addresses one label is renamed at that label.
\<close>

section \<open>References: gvk.go\<close>

text \<open>What the two blocks of \<^verbatim>\<open>RewriteGVK\<close> compute: nothing, or the new group field and the new kind.\<close>

definition gvk_decision :: "RewriteRules \<Rightarrow> Action \<Rightarrow> string \<Rightarrow> string \<Rightarrow> (string \<times> string) option" where
  "gvk_decision rules action apiGroupVersion kind =
     (case action of
       Rename \<Rightarrow>
         (case rr_KindRules rules apiGroupVersion kind of
           None \<Rightarrow> None
         | Some _ \<Rightarrow> Some (rr_RenameApiVersion rules apiGroupVersion, rr_RenameKind rules kind))
     | Restore \<Rightarrow>
         if \<not> rr_IsRenamedGroup rules apiGroupVersion then None
         else (let rwrApiVersion = rr_RestoreApiVersion rules apiGroupVersion;
                   rwrKind = rr_RestoreKind rules kind
               in case rr_KindRules rules rwrApiVersion rwrKind of
                    None \<Rightarrow> None
                  | Some _ \<Rightarrow> Some (rwrApiVersion, rwrKind)))"

definition RewriteGVK :: "'r jsonlib \<Rightarrow> RewriteRules \<Rightarrow> bytes \<Rightarrow> Action \<Rightarrow> string \<Rightarrow> bytes res" where
  "RewriteGVK L rules obj action gvFieldName =
     (let kind = gjson_String L (gjson_GetBytes L obj ''kind'');
          apiGroupVersion = gjson_String L (gjson_GetBytes L obj gvFieldName)
      in case gvk_decision rules action apiGroupVersion kind of
           None \<Rightarrow> Inr obj
         | Some (rwrApiVersion, rwrKind) \<Rightarrow>
             res_bind (sjson_SetBytes L obj ''kind'' (VString rwrKind))
               (\<lambda>obj. sjson_SetBytes L obj gvFieldName (VString rwrApiVersion)))"

definition RewriteAPIGroupAndKind :: "'r jsonlib \<Rightarrow> RewriteRules \<Rightarrow> bytes \<Rightarrow> Action \<Rightarrow> bytes res" where
  "RewriteAPIGroupAndKind L rules obj action = RewriteGVK L rules obj action ''apiGroup''"

definition RewriteAPIVersionAndKind :: "'r jsonlib \<Rightarrow> RewriteRules \<Rightarrow> bytes \<Rightarrow> Action \<Rightarrow> bytes res" where
  "RewriteAPIVersionAndKind L rules obj action = RewriteGVK L rules obj action ''apiVersion''"

section \<open>Metadata: metadata.go\<close>

definition RewriteLabelsMap :: "'r jsonlib \<Rightarrow> RewriteRules \<Rightarrow> bytes \<Rightarrow> string \<Rightarrow> Action \<Rightarrow> bytes res" where
  "RewriteLabelsMap L rules obj path action =
     RewriteMapStringString L obj path (\<lambda>k v. pnr_RewriteNameValue (rr_labelsRewriter rules) k v action)"

definition RewriteAnnotationsMap :: "'r jsonlib \<Rightarrow> RewriteRules \<Rightarrow> bytes \<Rightarrow> string \<Rightarrow> Action \<Rightarrow> bytes res" where
  "RewriteAnnotationsMap L rules obj path action =
     RewriteMapStringString L obj path (\<lambda>k v. pnr_RewriteNameValue (rr_annotationsRewriter rules) k v action)"

definition RewriteFinalizers :: "'r jsonlib \<Rightarrow> RewriteRules \<Rightarrow> bytes \<Rightarrow> string \<Rightarrow> Action \<Rightarrow> bytes res" where
  "RewriteFinalizers L rules obj path action =
     TransformArrayOfStrings L obj path (\<lambda>finalizer. pnr_Rewrite (rr_finalizersRewriter rules) finalizer action)"

definition RewriteOwnerReferences :: "'r jsonlib \<Rightarrow> RewriteRules \<Rightarrow> bytes \<Rightarrow> string \<Rightarrow> Action \<Rightarrow> bytes res" where
  "RewriteOwnerReferences L rules obj path action =
     RewriteArray L obj path (\<lambda>ownerRefObj. RewriteAPIVersionAndKind L rules ownerRefObj action)"

definition RewriteMetadata :: "'r jsonlib \<Rightarrow> RewriteRules \<Rightarrow> bytes \<Rightarrow> Action \<Rightarrow> bytes res" where
  "RewriteMetadata L rules metadataObj action =
     res_bind (RewriteLabelsMap L rules metadataObj ''labels'' action) (\<lambda>metadataObj.
     res_bind (RewriteAnnotationsMap L rules metadataObj ''annotations'' action) (\<lambda>metadataObj.
     res_bind (RewriteFinalizers L rules metadataObj ''finalizers'' action) (\<lambda>metadataObj.
     RewriteOwnerReferences L rules metadataObj ''ownerReferences'' action)))"

definition decodeJSONPatchPath :: "string \<Rightarrow> string" where
  "decodeJSONPatchPath path = ReplaceAll (ReplaceAll path ''~1'' ''/'') ''~0'' ''~''"

definition encodeJSONPatchPath :: "string \<Rightarrow> string" where
  "encodeJSONPatchPath path = ReplaceAll (ReplaceAll path ''~'' ''~0'') ''/'' ''~1''"

text \<open>
  One of the three blocks of \<^verbatim>\<open>RenameMetadataPatch\<close> that rename a name inside the path: the new
  payload, or \<open>None\<close> when the block does not return.
\<close>

definition rename_in_path :: "'r jsonlib \<Rightarrow> bytes \<Rightarrow> string \<Rightarrow> string \<Rightarrow> PrefixedNameRewriter \<Rightarrow> bytes res option" where
  "rename_in_path L jsonPatch path prefix rewriter =
     (case CutPrefix path prefix of (enc, found) \<Rightarrow>
       if found then
         (let name = decodeJSONPatchPath enc;
              rwrName = pnr_Rewrite rewriter name Rename
          in if name \<noteq> rwrName
             then Some (sjson_SetBytes L jsonPatch ''path'' (VString (prefix @ encodeJSONPatchPath rwrName)))
             else None)
       else None)"

definition RenameMetadataPatch_json :: "'r jsonlib \<Rightarrow> RewriteRules \<Rightarrow> bytes \<Rightarrow> bytes res" where
  "RenameMetadataPatch_json L rules jsonPatch =
     (let path = gjson_String L (gjson_GetBytes L jsonPatch ''path'') in
      if path = ''/metadata/labels'' then RewriteLabelsMap L rules jsonPatch ''value'' Rename
      else if path = ''/metadata/annotations'' then RewriteAnnotationsMap L rules jsonPatch ''value'' Rename
      else if path = ''/metadata/finalizers'' then RewriteFinalizers L rules jsonPatch ''value'' Rename
      else if path = ''/metadata/ownerReferences'' then RewriteOwnerReferences L rules jsonPatch ''value'' Rename
      else if path = ''/metadata'' then
        TransformObject L jsonPatch ''value'' (\<lambda>metadataObj. RewriteMetadata L rules metadataObj Rename)
      else (case rename_in_path L jsonPatch path ''/metadata/labels/'' (rr_labelsRewriter rules) of
        Some r \<Rightarrow> r
      | None \<Rightarrow>
          (case rename_in_path L jsonPatch path ''/metadata/annotations/'' (rr_annotationsRewriter rules) of
            Some r \<Rightarrow> r
          | None \<Rightarrow>
              (case rename_in_path L jsonPatch path ''/metadata/finalizers/'' (rr_finalizersRewriter rules) of
                Some r \<Rightarrow> r
              | None \<Rightarrow> Inr jsonPatch))))"

definition RenameMetadataPatch :: "'r jsonlib \<Rightarrow> RewriteRules \<Rightarrow> bytes \<Rightarrow> bytes res" where
  "RenameMetadataPatch L rules patch =
     TransformPatch L patch
       (Some (\<lambda>mergePatch. TransformObject L mergePatch ''metadata'' (\<lambda>metadataObj. RewriteMetadata L rules metadataObj Rename)))
       (Some (RenameMetadataPatch_json L rules))"

section \<open>Resources: resource.go\<close>

definition RenameAPIVersionAndKind :: "'r jsonlib \<Rightarrow> RewriteRules \<Rightarrow> bytes \<Rightarrow> bytes res" where
  "RenameAPIVersionAndKind L rules obj =
     (let apiVersion = gjson_String L (gjson_GetBytes L obj ''apiVersion'') in
      res_bind (sjson_SetBytes L obj ''apiVersion'' (VString (rr_RenameApiVersion rules apiVersion))) (\<lambda>obj.
      let kind = gjson_String L (gjson_GetBytes L obj ''kind'') in
      sjson_SetBytes L obj ''kind'' (VString (rr_RenameKind rules kind))))"

definition RestoreAPIVersionAndKind :: "'r jsonlib \<Rightarrow> RewriteRules \<Rightarrow> bytes \<Rightarrow> bytes res" where
  "RestoreAPIVersionAndKind L rules obj =
     (let apiVersion = gjson_String L (gjson_GetBytes L obj ''apiVersion'') in
      res_bind (sjson_SetBytes L obj ''apiVersion'' (VString (rr_RestoreApiVersion rules apiVersion))) (\<lambda>obj.
      let kind = gjson_String L (gjson_GetBytes L obj ''kind'') in
      sjson_SetBytes L obj ''kind'' (VString (rr_RestoreKind rules kind))))"

definition RestoreManagedFields :: "'r jsonlib \<Rightarrow> RewriteRules \<Rightarrow> bytes \<Rightarrow> bytes res" where
  "RestoreManagedFields L rules obj =
     RewriteArray L obj ''metadata.managedFields'' (\<lambda>managedField.
       TransformString L managedField ''apiVersion'' (\<lambda>apiVersion. rr_RestoreApiVersion rules apiVersion))"

definition RenameManagedFields :: "'r jsonlib \<Rightarrow> RewriteRules \<Rightarrow> bytes \<Rightarrow> bytes res" where
  "RenameManagedFields L rules obj =
     RewriteArray L obj ''metadata.managedFields'' (\<lambda>managedField.
       TransformString L managedField ''apiVersion'' (\<lambda>apiVersion. rr_RenameApiVersion rules apiVersion))"

definition RenameResource :: "'r jsonlib \<Rightarrow> RewriteRules \<Rightarrow> bytes \<Rightarrow> bytes res" where
  "RenameResource L rules obj =
     res_bind (RenameAPIVersionAndKind L rules obj) (\<lambda>obj. RenameManagedFields L rules obj)"

definition RestoreResource :: "'r jsonlib \<Rightarrow> RewriteRules \<Rightarrow> bytes \<Rightarrow> bytes res" where
  "RestoreResource L rules obj =
     res_bind (RestoreAPIVersionAndKind L rules obj) (\<lambda>obj. RestoreManagedFields L rules obj)"

definition RenameResourcesList :: "'r jsonlib \<Rightarrow> RewriteRules \<Rightarrow> bytes \<Rightarrow> bytes res" where
  "RenameResourcesList L rules obj =
     res_bind (RenameAPIVersionAndKind L rules obj) (\<lambda>obj.
       RewriteArray L obj ''items'' (\<lambda>singleResource. RenameResource L rules singleResource))"

definition RestoreResourcesList :: "'r jsonlib \<Rightarrow> RewriteRules \<Rightarrow> bytes \<Rightarrow> bytes res" where
  "RestoreResourcesList L rules obj =
     res_bind (RestoreAPIVersionAndKind L rules obj) (\<lambda>obj.
       RewriteArray L obj ''items'' (\<lambda>singleResource. RestoreResource L rules singleResource))"

definition RewriteCustomResourceOrList :: "'r jsonlib \<Rightarrow> RewriteRules \<Rightarrow> bytes \<Rightarrow> Action \<Rightarrow> bytes res" where
  "RewriteCustomResourceOrList L rules obj action =
     (let kind = gjson_String L (gjson_GetBytes L obj ''kind'');
          kind = (case action of Restore \<Rightarrow> rr_RestoreKind rules kind | Rename \<Rightarrow> kind)
      in case rr_ResourceByKind rules kind of (origGroupName, origResName, isList) \<Rightarrow>
        if origGroupName = [] \<and> origResName = [] then Inr obj
        else if isList then
          (case action of Restore \<Rightarrow> RestoreResourcesList L rules obj | Rename \<Rightarrow> RenameResourcesList L rules obj)
        else (case action of Restore \<Rightarrow> RestoreResource L rules obj | Rename \<Rightarrow> RenameResource L rules obj))"

definition RenameResourcePatch :: "'r jsonlib \<Rightarrow> RewriteRules \<Rightarrow> bytes \<Rightarrow> bytes res" where
  "RenameResourcePatch L rules patch = RenameMetadataPatch L rules patch"

section \<open>JSON pointers\<close>

text \<open>The escapes of one character, and the two replacements as a walk over the characters.\<close>

definition esc_char :: "char \<Rightarrow> string" where
  "esc_char c = (if c = CHR ''~'' then ''~0'' else if c = CHR ''/'' then ''~1'' else [c])"

definition esc_tilde :: "char \<Rightarrow> string" where
  "esc_tilde c = (if c = CHR ''~'' then ''~0'' else [c])"

lemma ReplaceAll_tilde: "ReplaceAll s ''~'' ''~0'' = concat (map esc_tilde s)"
  by (induction s) (auto simp: esc_tilde_def HasPrefix_def)

lemma ReplaceAll_slash: "ReplaceAll (concat (map esc_tilde s)) ''/'' ''~1'' = concat (map esc_char s)"
  by (induction s) (auto simp: esc_tilde_def esc_char_def HasPrefix_def)

lemma ReplaceAll_unslash: "ReplaceAll (concat (map esc_char s)) ''~1'' ''/'' = concat (map esc_tilde s)"
  by (induction s) (auto simp: esc_tilde_def esc_char_def HasPrefix_def)

lemma ReplaceAll_untilde: "ReplaceAll (concat (map esc_tilde s)) ''~0'' ''~'' = s"
  by (induction s) (auto simp: esc_tilde_def HasPrefix_def)

lemma encode_eq: "encodeJSONPatchPath s = concat (map esc_char s)"
  by (simp add: encodeJSONPatchPath_def ReplaceAll_tilde ReplaceAll_slash)

text \<open>
  JSON pointer escapes: decoding an encoded name gives the name back, for every name, and an
  encoded name has no slash, so it stays one segment of the path.
\<close>

theorem json_pointer_roundtrip:
  "decodeJSONPatchPath (encodeJSONPatchPath s) = s \<and> CHR ''/'' \<notin> set (encodeJSONPatchPath s)"
  by (auto simp: encode_eq decodeJSONPatchPath_def ReplaceAll_unslash ReplaceAll_untilde esc_char_def split: if_splits)

section \<open>On JSON values\<close>

definition j_gvk :: "RewriteRules \<Rightarrow> Action \<Rightarrow> string \<Rightarrow> json \<Rightarrow> json" where
  "j_gvk rr action field j =
     (case gvk_decision rr action (jtext_at j [field]) (jtext_at j [''kind'']) of
       None \<Rightarrow> j
     | Some (av, k) \<Rightarrow> jset (jset j [''kind''] (JStr k)) [field] (JStr av))"

text \<open>A reference: an object whose kind and group field are texts.\<close>

definition ref_ok :: "string \<Rightarrow> json \<Rightarrow> bool" where
  "ref_ok field j \<longleftrightarrow> is_object j \<and> has_text j [''kind''] \<and> has_text j [field]"

definition j_metadata :: "RewriteRules \<Rightarrow> Action \<Rightarrow> json \<Rightarrow> json" where
  "j_metadata rr action j =
     j_array [''ownerReferences''] (\<lambda>r. Some (j_gvk rr action ''apiVersion'' r))
       (j_strings [''finalizers''] (\<lambda>f. pnr_Rewrite (rr_finalizersRewriter rr) f action)
         (j_map [''annotations''] (\<lambda>k v. pnr_RewriteNameValue (rr_annotationsRewriter rr) k v action)
           (j_map [''labels''] (\<lambda>k v. pnr_RewriteNameValue (rr_labelsRewriter rr) k v action) j)))"

text \<open>A string map that the rewriter can rewrite: texts, and no two new keys collide.\<close>

definition map_ok :: "PrefixedNameRewriter \<Rightarrow> Action \<Rightarrow> json \<Rightarrow> string list \<Rightarrow> bool" where
  "map_ok p action j ks \<longleftrightarrow>
     has_text_map j ks \<and> no_clash (\<lambda>k v. pnr_RewriteNameValue p k v action) (members_at j ks)"

definition metadata_ok :: "RewriteRules \<Rightarrow> Action \<Rightarrow> json \<Rightarrow> bool" where
  "metadata_ok rr action j \<longleftrightarrow>
     map_ok (rr_labelsRewriter rr) action j [''labels''] \<and> map_ok (rr_annotationsRewriter rr) action j [''annotations''] \<and>
     has_text_array j [''finalizers''] \<and> has_array j [''ownerReferences''] \<and>
     list_all (ref_ok ''apiVersion'') (items_at j [''ownerReferences''])"

lemma map_ok_cong: "jget i ks = jget j ks \<Longrightarrow> map_ok p action i ks = map_ok p action j ks"
  unfolding map_ok_def using place_cong(4,6) [of i ks j] by simp

context json_library
begin

lemma RewriteGVK_yields:
  assumes "rules_ready rr" and "doc D x j" and "ref_ok field j" and "plain_path field" and "jpath field = [field]"
  shows "yields D (RewriteGVK L rr x action field) (j_gvk rr action field j)"
proof -
  from assms(3) have o: "is_object j" "has_text j [''kind'']" "has_text j [field]" by (simp_all add: ref_ok_def)
  have s: "gjson_String L (gjson_GetBytes L x ''kind'') = jtext_at j [''kind'']"
    "gjson_String L (gjson_GetBytes L x field) = jtext_at j [field]"
    using String_at [OF assms(2), of "''kind''"] String_at [OF assms(2,4)] o assms(5) by simp_all
  have u: "utf8 (jtext_at j [''kind''])" "utf8 (jtext_at j [field])" by (rule utf8_jtext_at [OF assms(2)])+
  show ?thesis
  proof (cases "gvk_decision rr action (jtext_at j [field]) (jtext_at j [''kind''])")
    case None
    with s assms(2) show ?thesis by (simp add: RewriteGVK_def j_gvk_def)
  next
    case (Some r)
    obtain av k where r: "r = (av, k)" by (cases r)
    have "utf8 av \<and> utf8 k"
      using Some r u ready_text [OF assms(1)]
      by (cases action) (auto simp: gvk_decision_def Let_def split: option.splits if_splits)
    with o(1) assms(2,4,5) Some r s show ?thesis
      by (auto simp: RewriteGVK_def j_gvk_def is_object_settable intro!: yields_bind SetString_yields [where p = field, unfolded assms(5)]
        SetString_yields [where p = "''kind''", simplified])
  qed
qed

lemma RewriteMap_rewriter_yields:
  assumes "rules_ready rr" and "doc D x j" and "plain_path p" and "map_ok w action j (jpath p)"
    and "w \<in> {rr_labelsRewriter rr, rr_annotationsRewriter rr, rr_finalizersRewriter rr}"
  shows "yields D (RewriteMapStringString L x p (\<lambda>k v. pnr_RewriteNameValue w k v action))
    (j_map (jpath p) (\<lambda>k v. pnr_RewriteNameValue w k v action) j)"
proof (rule RewriteMapStringString_yields [OF assms(2,3)])
  show "utf8 (fst (pnr_RewriteNameValue w k (item_text v) action)) \<and> utf8 (snd (pnr_RewriteNameValue w k (item_text v) action))"
    if "members_at j (jpath p) k = Some v" for k v
    using ready_rewriters_text [OF assms(1) members_text [OF assms(2) that] assms(5)] by simp
qed (use assms(4) in \<open>simp_all add: map_ok_def\<close>)

lemma RewriteLabelsMap_yields:
  "rules_ready rr \<Longrightarrow> doc D x j \<Longrightarrow> plain_path p \<Longrightarrow> map_ok (rr_labelsRewriter rr) action j (jpath p) \<Longrightarrow>
   yields D (RewriteLabelsMap L rr x p action) (j_map (jpath p) (\<lambda>k v. pnr_RewriteNameValue (rr_labelsRewriter rr) k v action) j)"
  unfolding RewriteLabelsMap_def by (rule RewriteMap_rewriter_yields) auto

lemma RewriteAnnotationsMap_yields:
  "rules_ready rr \<Longrightarrow> doc D x j \<Longrightarrow> plain_path p \<Longrightarrow> map_ok (rr_annotationsRewriter rr) action j (jpath p) \<Longrightarrow>
   yields D (RewriteAnnotationsMap L rr x p action) (j_map (jpath p) (\<lambda>k v. pnr_RewriteNameValue (rr_annotationsRewriter rr) k v action) j)"
  unfolding RewriteAnnotationsMap_def by (rule RewriteMap_rewriter_yields) auto

lemma RewriteFinalizers_yields:
  assumes "rules_ready rr" and "doc D x j" and "plain_path p" and "has_text_array j (jpath p)"
  shows "yields D (RewriteFinalizers L rr x p action)
    (j_strings (jpath p) (\<lambda>f. pnr_Rewrite (rr_finalizersRewriter rr) f action) j)"
  unfolding RewriteFinalizers_def
  by (rule TransformArrayOfStrings_yields [OF assms(2-4)])
    (use ready_rewriters_text(3) [OF assms(1) utf8_item_text [OF assms(2)] utf8_Nil] in blast)

lemma RewriteOwnerReferences_yields:
  assumes "rules_ready rr" and "doc D x j" and "plain_path p" and "p \<noteq> Root" and "has_array j (jpath p)"
    and "list_all (ref_ok ''apiVersion'') (items_at j (jpath p))"
  shows "yields D (RewriteOwnerReferences L rr x p action)
    (j_array (jpath p) (\<lambda>r. Some (j_gvk rr action ''apiVersion'' r)) j)"
  unfolding RewriteOwnerReferences_def RewriteAPIVersionAndKind_def
  by (rule RewriteArray_yields [OF assms(2-5)])
    (use assms(6) in \<open>auto simp: list_all_iff intro!: item_ok_Some RewriteGVK_yields [OF assms(1)]\<close>)

lemma RewriteMetadata_yields:
  assumes "rules_ready rr" and "doc D x j" and "metadata_ok rr action j"
  shows "yields D (RewriteMetadata L rr x action) (j_metadata rr action j)"
proof -
  note ok = assms(3) [unfolded metadata_ok_def]
  let ?l = "j_map [''labels''] (\<lambda>k v. pnr_RewriteNameValue (rr_labelsRewriter rr) k v action) j"
  let ?a = "j_map [''annotations''] (\<lambda>k v. pnr_RewriteNameValue (rr_annotationsRewriter rr) k v action) ?l"
  let ?f = "j_strings [''finalizers''] (\<lambda>f. pnr_Rewrite (rr_finalizersRewriter rr) f action) ?a"
  show ?thesis
    unfolding RewriteMetadata_def j_metadata_def
  proof (intro yields_bind)
    show "yields D (RewriteLabelsMap L rr x ''labels'' action) ?l"
      using RewriteLabelsMap_yields [OF assms(1,2), of "''labels''"] ok by simp
    show "yields D (RewriteAnnotationsMap L rr y ''annotations'' action) ?a" if "doc D y ?l" for y
      using RewriteAnnotationsMap_yields [OF assms(1) that, of "''annotations''"] ok
        map_ok_cong [of ?l "[''annotations'']" j] by simp
    show "yields D (RewriteFinalizers L rr y ''finalizers'' action) ?f" if "doc D y ?a" for y
      using RewriteFinalizers_yields [OF assms(1) that, of "''finalizers''"] ok
        place_cong(2) [of ?a "[''finalizers'']" j] by simp
    show "yields D (RewriteOwnerReferences L rr y ''ownerReferences'' action)
        (j_array [''ownerReferences''] (\<lambda>r. Some (j_gvk rr action ''apiVersion'' r)) ?f)" if "doc D y ?f" for y
      using RewriteOwnerReferences_yields [OF assms(1) that, of "''ownerReferences''"] ok
        place_cong(1,5) [of ?f "[''ownerReferences'']" j] by (simp add: Root_def)
  qed
qed

end

section \<open>References survive the round trip\<close>

lemma KindRules_has_group: "rr_KindRules rr av k = Some r \<Longrightarrow> rr_HasGroup rr av"
  by (auto simp: rr_KindRules_def rr_HasGroup_def split: prod.splits option.splits)

lemma restore_rename_av:
  assumes "rules_ready rr" and "\<not> rr_IsRenamedGroup rr av"
  shows "rr_RestoreApiVersion rr (rr_RenameApiVersion rr av) = av"
  using assms rename_av_cut(2,3) [OF assms(1)] restore_av_cut(2) [OF assms(1)] rr_IsRenamedGroup_iff [OF assms(1)]
  by (cases "group_of av \<in> set (group_names rr)") auto

lemma rename_av_renamed: "rules_ready rr \<Longrightarrow> rr_HasGroup rr av \<Longrightarrow> rr_IsRenamedGroup rr (rr_RenameApiVersion rr av)"
proof -
  assume "rules_ready rr" and "rr_HasGroup rr av"
  then show ?thesis
    by (cases rule: mi_Rename_cases [OF \<open>rules_ready rr\<close>, of "group_of av"])
      (simp_all add: rr_IsRenamedGroup_iff rr_HasGroup_iff rename_av_cut(1))
qed

lemma RestoreKind_RenameKind [simp]: "rr_RestoreKind rr (rr_RenameKind rr k) = k"
  by (simp add: rr_RestoreKind_def rr_RenameKind_def)

lemma gvk_decision_roundtrip:
  assumes "rules_ready rr" and "\<not> rr_IsRenamedGroup rr av" and "gvk_decision rr Rename av k = Some (av', k')"
  shows "gvk_decision rr Restore av' k' = Some (av, k)"
proof -
  from assms(3) obtain r where r: "rr_KindRules rr av k = Some r" "av' = rr_RenameApiVersion rr av" "k' = rr_RenameKind rr k"
    by (auto simp: gvk_decision_def split: option.splits)
  then show ?thesis
    using rename_av_renamed [OF assms(1)] KindRules_has_group restore_rename_av [OF assms(1,2)]
    by (simp add: gvk_decision_def Let_def)
qed

lemma j_gvk_roundtrip:
  assumes "rules_ready rr" and "jget j [''kind''] = Some (JStr k)" and "jget j [field] = Some (JStr av)"
    and "field \<noteq> ''kind''" and "\<not> rr_IsRenamedGroup rr av"
  shows "j_gvk rr Restore field (j_gvk rr Rename field j) = j" and "ref_ok field (j_gvk rr Rename field j)"
proof -
  from assms(2) obtain m where m: "j = JObj m" "m ''kind'' = Some (JStr k)" by (cases j) (auto split: option.splits)
  with assms(3) have f: "m field = Some (JStr av)" by (auto split: option.splits)
  have t: "jtext_at j [''kind''] = k" "jtext_at j [field] = av" using m f by (simp_all add: jtext_at_def)
  have "j_gvk rr Restore field (j_gvk rr Rename field j) = j \<and> ref_ok field (j_gvk rr Rename field j)"
  proof (cases "gvk_decision rr Rename av k")
    case None
    then show ?thesis using m f t assms(5) by (simp add: j_gvk_def ref_ok_def has_text_def gvk_decision_def)
  next
    case (Some r)
    obtain av' k' where r: "r = (av', k')" by (cases r)
    have "gvk_decision rr Restore av' k' = Some (av, k)"
      using gvk_decision_roundtrip [OF assms(1,5)] Some r by simp
    with Some r m f t assms(4) show ?thesis
      by (auto simp: j_gvk_def jtext_at_def ref_ok_def has_text_def fun_eq_iff)
  qed
  then show "j_gvk rr Restore field (j_gvk rr Rename field j) = j" "ref_ok field (j_gvk rr Rename field j)" by simp_all
qed

text \<open>
  References survive the round trip: an object reference of the client (owner reference,
  involved object, data source) whose group is not itself a renamed one is renamed without an error,
  and restoring the result gives the same JSON value back, whether or not there is a rule for it.
\<close>

theorem reference_roundtrip:
  assumes "json_library L D V" and "rules_ready rr" and "doc D x j"
    and "jget j [''kind''] = Some (JStr k)" and "jget j [field] = Some (JStr av)"
    and "field \<in> {''apiVersion'', ''apiGroup''}" and "\<not> rr_IsRenamedGroup rr av"
  shows "\<exists>y. RewriteGVK L rr x Rename field = Inr y \<and> yields D (RewriteGVK L rr y Restore field) j"
proof -
  have p: "plain_path field" "jpath field = [field]" "field \<noteq> ''kind''" using assms(6) by auto
  have ok: "ref_ok field j" using assms(4,5) by (cases j) (auto simp: ref_ok_def has_text_def split: option.splits)
  obtain y where y: "RewriteGVK L rr x Rename field = Inr y" "doc D y (j_gvk rr Rename field j)"
    using json_library.RewriteGVK_yields [OF assms(1-3) ok p(1,2)] unfolding yields_def by blast
  have "yields D (RewriteGVK L rr y Restore field) (j_gvk rr Restore field (j_gvk rr Rename field j))"
    by (rule json_library.RewriteGVK_yields [OF assms(1,2) y(2) _ p(1,2)])
      (rule j_gvk_roundtrip(2) [OF assms(2,4,5) p(3) assms(7)])
  with y j_gvk_roundtrip(1) [OF assms(2,4,5) p(3) assms(7)] show ?thesis by auto
qed

definition sample_ref :: rj where
  "sample_ref = RObj [(''apiVersion'', RStr ''g.io/v1''), (''kind'', RStr ''R''), (''name'', RStr ''n'')]"

theorem reference_roundtrip_witness:
  "\<exists>y. RewriteGVK ref_lib (rr_Init sample_rules) (Some (print sample_ref)) Rename ''apiVersion'' = Inr y \<and>
    yields ref_D (RewriteGVK ref_lib (rr_Init sample_rules) y Restore ''apiVersion'') (rj_abs sample_ref)"
proof (rule reference_roundtrip [OF ref.json_library_axioms sample_rules_ready ref_doc])
  show "rj_ok sample_ref" by code_simp
  show "\<not> rr_IsRenamedGroup (rr_Init sample_rules) ''g.io/v1''" by code_simp
qed (simp_all add: sample_ref_def)

text \<open>
  C14. Metadata: labels, annotations, finalizers and owner references are rewritten, each by its own
  rules, and every other field of the metadata stays as it is.
\<close>

theorem metadata_refines:
  assumes "json_library L D V" and "rules_ready rr" and "doc D x j" and "metadata_ok rr action j"
  shows "yields D (RewriteMetadata L rr x action) (j_metadata rr action j) \<and>
    (\<forall>k. k \<notin> {''labels'', ''annotations'', ''finalizers'', ''ownerReferences''} \<longrightarrow>
      jget (j_metadata rr action j) [k] = jget j [k])"
proof (intro conjI allI impI)
  show "yields D (RewriteMetadata L rr x action) (j_metadata rr action j)"
    by (rule json_library.RewriteMetadata_yields [OF assms])
  show "jget (j_metadata rr action j) [k] = jget j [k]"
    if "k \<notin> {''labels'', ''annotations'', ''finalizers'', ''ownerReferences''}" for k
  proof -
    from that have "forks [f] [k]" if "f \<in> {''labels'', ''annotations'', ''finalizers'', ''ownerReferences''}" for f
      using that by auto
    then show ?thesis by (simp add: j_metadata_def)
  qed
qed

definition sample_metadata :: rj where
  "sample_metadata = RObj [(''name'', RStr ''p''), (''labels'', RObj [(''g.io/a'', RStr ''1'')]),
     (''finalizers'', RArr [RStr ''g.io/f'']), (''ownerReferences'', RArr [sample_ref])]"

theorem metadata_refines_witness:
  "yields ref_D (RewriteMetadata ref_lib (rr_Init sample_rules) (Some (print sample_metadata)) Rename)
     (j_metadata (rr_Init sample_rules) Rename (rj_abs sample_metadata))"
proof (rule metadata_refines [OF ref.json_library_axioms sample_rules_ready ref_doc, THEN conjunct1])
  show "rj_ok sample_metadata" by code_simp
  show "metadata_ok (rr_Init sample_rules) Rename (rj_abs sample_metadata)"
    by (auto simp: metadata_ok_def map_ok_def has_text_map_def has_text_array_def has_array_def items_at_def members_at_def
      no_clash_def ref_ok_def has_text_def sample_metadata_def sample_ref_def split: if_splits)
qed

section \<open>Patches that address one name\<close>

lemma utf8_concat: "(\<And>t. t \<in> set ts \<Longrightarrow> utf8 t) \<Longrightarrow> utf8 (concat ts)"
  by (induction ts) auto

lemma patch_prefixes_text:
  "utf8 ''/metadata/labels/''" "utf8 ''/metadata/annotations/''" "utf8 ''/metadata/finalizers/''"
  by code_simp+

lemma ascii_digit [simp]: "ascii_byte (CHR ''0'')" "ascii_byte (CHR ''1'')"
  by code_simp+

lemma ReplaceAll_char_utf8:
  assumes "utf8 s" and "ascii_byte c" and "utf8 new"
  shows "utf8 (ReplaceAll s [c] new)"
  using assms(1)
proof (induction s rule: length_induct)
  case (1 s)
  show ?case
  proof (cases s c rule: Cut_cases)
    case (found b a)
    have "ReplaceAll (b @ c # a) [c] new = b @ new @ ReplaceAll a [c] new"
      using found(3) by (induction b) (auto simp: HasPrefix_def)
    moreover have "utf8 b" "utf8 a" using utf8_cut [OF assms(2), of b a] "1.prems" found by simp_all
    ultimately show ?thesis using 1 found assms(3) by (auto intro!: utf8_append)
  next
    case missing
    then have "ReplaceAll s [c] new = s" by (induction s) (auto simp: HasPrefix_def)
    with 1 show ?thesis by simp
  qed
qed

lemma encode_utf8: "utf8 s \<Longrightarrow> utf8 (encodeJSONPatchPath s)"
  unfolding encodeJSONPatchPath_def by (intro ReplaceAll_char_utf8) simp_all

context json_library
begin

lemma rename_in_path_yields:
  assumes "doc D x j" and "is_object j" and "utf8 name" and "name \<noteq> pnr_Rewrite w name Rename"
    and "utf8 pre" and "utf8 (pnr_Rewrite w name Rename)"
  shows "\<exists>r. rename_in_path L x (pre @ encodeJSONPatchPath name) pre w = Some r \<and>
    yields D r (jset j [''path''] (JStr (pre @ encodeJSONPatchPath (pnr_Rewrite w name Rename))))"
proof -
  have "CutPrefix (pre @ encodeJSONPatchPath name) pre = (encodeJSONPatchPath name, True)"
    by (simp add: CutPrefix_found)
  moreover have "decodeJSONPatchPath (encodeJSONPatchPath name) = name"
    by (simp add: encode_eq decodeJSONPatchPath_def ReplaceAll_unslash ReplaceAll_untilde)
  moreover have "yields D (sjson_SetBytes L x ''path'' (VString (pre @ encodeJSONPatchPath (pnr_Rewrite w name Rename))))
      (jset j (jpath ''path'') (JStr (pre @ encodeJSONPatchPath (pnr_Rewrite w name Rename))))"
    by (rule SetString_yields [OF assms(1)]) (use assms encode_utf8 in \<open>auto simp: is_object_settable\<close>)
  ultimately show ?thesis using assms(4) by (simp add: rename_in_path_def Let_def)
qed

lemma label_patch_yields:
  assumes "rules_ready rr" and "doc D x j" and "jget j [''path''] = Some (JStr (''/metadata/labels/'' @ encodeJSONPatchPath name))"
    and "utf8 name" and "name \<noteq> pnr_Rewrite (rr_labelsRewriter rr) name Rename"
  shows "yields D (RenameMetadataPatch_json L rr x)
    (jset j [''path''] (JStr (''/metadata/labels/'' @ encodeJSONPatchPath (pnr_Rewrite (rr_labelsRewriter rr) name Rename))))"
proof -
  have path: "gjson_String L (gjson_GetBytes L x ''path'') = ''/metadata/labels/'' @ encodeJSONPatchPath name"
    using String_at [OF assms(2), of "''path''"] assms(3) by (simp add: has_text_def jtext_at_def)
  have "is_object j" using assms(3) by (cases j) auto
  moreover have "utf8 (pnr_Rewrite (rr_labelsRewriter rr) name Rename)"
    by (rule ready_rewriters_text(3) [OF assms(1,4) utf8_Nil]) simp
  ultimately have "\<exists>r. rename_in_path L x (''/metadata/labels/'' @ encodeJSONPatchPath name) ''/metadata/labels/'' (rr_labelsRewriter rr) = Some r \<and>
      yields D r (jset j [''path''] (JStr (''/metadata/labels/'' @ encodeJSONPatchPath (pnr_Rewrite (rr_labelsRewriter rr) name Rename))))"
    by (intro rename_in_path_yields [OF assms(2) _ assms(4,5)] patch_prefixes_text)
  then obtain r where r: "rename_in_path L x (''/metadata/labels/'' @ encodeJSONPatchPath name) ''/metadata/labels/'' (rr_labelsRewriter rr) = Some r"
    "yields D r (jset j [''path''] (JStr (''/metadata/labels/'' @ encodeJSONPatchPath (pnr_Rewrite (rr_labelsRewriter rr) name Rename))))"
    by blast
  have "RenameMetadataPatch_json L rr x = r"
    using r(1) by (simp add: RenameMetadataPatch_json_def path)
  with r(2) show ?thesis by simp
qed

end

text \<open>
  A JSON patch operation that addresses one label, \<^verbatim>\<open>/metadata/labels/<escaped name>\<close>, addresses
  the renamed label afterwards, escaped again, and keeps its operation and its value.
\<close>

theorem label_patch_renamed:
  assumes "json_library L D V" and "rules_ready rr" and "doc D x j"
    and "jget j [''path''] = Some (JStr (''/metadata/labels/'' @ encodeJSONPatchPath name))"
    and "utf8 name" and "name \<noteq> pnr_Rewrite (rr_labelsRewriter rr) name Rename"
  shows "yields D (RenameMetadataPatch_json L rr x)
    (jset j [''path''] (JStr (''/metadata/labels/'' @ encodeJSONPatchPath (pnr_Rewrite (rr_labelsRewriter rr) name Rename))))"
  by (rule json_library.label_patch_yields [OF assms])

definition sample_patch :: rj where
  "sample_patch = RObj [(''op'', RStr ''remove''), (''path'', RStr ''/metadata/labels/g.io~1a'')]"

theorem label_patch_renamed_witness:
  "yields ref_D (RenameMetadataPatch_json ref_lib (rr_Init sample_rules) (Some (print sample_patch)))
     (jset (rj_abs sample_patch) [''path''] (JStr ''/metadata/labels/x.g.io~1a''))"
proof -
  have e: "encodeJSONPatchPath ''g.io/a'' = ''g.io~1a''"
    "encodeJSONPatchPath (pnr_Rewrite (rr_labelsRewriter (rr_Init sample_rules)) ''g.io/a'' Rename) = ''x.g.io~1a''"
    "''g.io/a'' \<noteq> pnr_Rewrite (rr_labelsRewriter (rr_Init sample_rules)) ''g.io/a'' Rename" "utf8 ''g.io/a''" "rj_ok sample_patch"
    by code_simp+
  have "jget (rj_abs sample_patch) [''path''] = Some (JStr (''/metadata/labels/'' @ encodeJSONPatchPath ''g.io/a''))"
    unfolding e by (simp add: sample_patch_def)
  from label_patch_renamed [OF ref.json_library_axioms sample_rules_ready ref_doc [OF e(5)] this e(4,3)] show ?thesis
    unfolding e by simp
qed

section \<open>Resources survive the round trip\<close>

text \<open>The version and the kind of a resource, and the versions of its managed fields.\<close>

definition j_resource :: "(string \<Rightarrow> string) \<Rightarrow> (string \<Rightarrow> string) \<Rightarrow> json \<Rightarrow> json" where
  "j_resource av k j =
     j_array [''metadata'', ''managedFields''] (\<lambda>f. Some (j_string [''apiVersion''] av f))
       (jset (jset j [''apiVersion''] (JStr (av (jtext_at j [''apiVersion'']))))
         [''kind''] (JStr (k (jtext_at j [''kind'']))))"

definition resource_ok :: "json \<Rightarrow> bool" where
  "resource_ok j \<longleftrightarrow> is_object j \<and> has_text j [''apiVersion''] \<and> has_text j [''kind''] \<and>
     has_array j [''metadata'', ''managedFields''] \<and>
     list_all (\<lambda>f. has_text f [''apiVersion'']) (items_at j [''metadata'', ''managedFields''])"

context json_library
begin

lemma two_fields_yields:
  assumes "doc D x j" and "resource_ok j" and "\<And>s. utf8 s \<Longrightarrow> utf8 (av s) \<and> utf8 (k s)"
  shows "yields D (let apiVersion = gjson_String L (gjson_GetBytes L x ''apiVersion'') in
      res_bind (sjson_SetBytes L x ''apiVersion'' (VString (av apiVersion))) (\<lambda>obj.
      let kind = gjson_String L (gjson_GetBytes L obj ''kind'') in sjson_SetBytes L obj ''kind'' (VString (k kind))))
    (jset (jset j [''apiVersion''] (JStr (av (jtext_at j [''apiVersion''])))) [''kind''] (JStr (k (jtext_at j [''kind'']))))"
proof -
  let ?j = "jset j [''apiVersion''] (JStr (av (jtext_at j [''apiVersion''])))"
  note ok = assms(2) [unfolded resource_ok_def]
  have fork: "jget ?j [''kind''] = jget j [''kind'']" by (rule jget_jset_forks) simp
  have "gjson_String L (gjson_GetBytes L x ''apiVersion'') = jtext_at j [''apiVersion'']"
    using String_at [OF assms(1), of "''apiVersion''"] ok by simp
  moreover have "yields D (sjson_SetBytes L x ''apiVersion'' (VString (av (jtext_at j [''apiVersion''])))) ?j"
    using SetString_yields [OF assms(1), of "''apiVersion''"] ok assms(3) utf8_jtext_at [OF assms(1)]
    by (simp add: is_object_settable)
  moreover have "yields D (sjson_SetBytes L y ''kind'' (VString (k (gjson_String L (gjson_GetBytes L y ''kind'')))))
      (jset ?j [''kind''] (JStr (k (jtext_at j [''kind'']))))" if "doc D y ?j" for y
  proof -
    have "gjson_String L (gjson_GetBytes L y ''kind'') = jtext_at j [''kind'']"
      using String_at [OF that, of "''kind''"] ok place_cong(3,7) [OF fork] by simp
    then show ?thesis
      using SetString_yields [OF that, of "''kind''"] ok assms(3) utf8_jtext_at [OF assms(1)]
      by (simp add: is_object_settable)
  qed
  ultimately show ?thesis by (auto simp: Let_def intro: yields_bind)
qed

lemma managed_fields_yields:
  assumes "doc D x j" and "has_array j [''metadata'', ''managedFields'']"
    and "list_all (\<lambda>f. has_text f [''apiVersion'']) (items_at j [''metadata'', ''managedFields''])"
    and "\<And>s. utf8 s \<Longrightarrow> utf8 (av s)"
  shows "yields D (RewriteArray L x ''metadata.managedFields'' (\<lambda>f. TransformString L f ''apiVersion'' av))
    (j_array [''metadata'', ''managedFields''] (\<lambda>f. Some (j_string [''apiVersion''] av f)) j)"
proof -
  have "item_ok D (TransformString L y ''apiVersion'' av) v (Some (j_string [''apiVersion''] av v))"
    if "v \<in> set (items_at j [''metadata'', ''managedFields''])" "doc D y v" for v y
    using TransformString_yields [OF that(2), of "''apiVersion''" av] that assms(3,4) utf8_jtext_at [OF that(2)]
    by (intro item_ok_Some) (simp add: list_all_iff)
  then show ?thesis
    using RewriteArray_yields [OF assms(1), of "''metadata.managedFields''" "\<lambda>f. TransformString L f ''apiVersion'' av"
      "\<lambda>f. Some (j_string [''apiVersion''] av f)"] assms(2) by (simp add: Root_def)
qed

lemma resource_yields:
  assumes "rules_ready rr" and "doc D x j" and "resource_ok j"
  shows "yields D (RenameResource L rr x) (j_resource (rr_RenameApiVersion rr) (rr_RenameKind rr) j)"
    and "yields D (RestoreResource L rr x) (j_resource (rr_RestoreApiVersion rr) (rr_RestoreKind rr) j)"
proof -
  note ok = assms(3) [unfolded resource_ok_def]
  have fork: "jget (jset (jset j [''apiVersion''] u) [''kind''] w) [''metadata'', ''managedFields''] = jget j [''metadata'', ''managedFields'']" for u w
    by (simp add: jget_jset_forks)
  show "yields D (RenameResource L rr x) (j_resource (rr_RenameApiVersion rr) (rr_RenameKind rr) j)"
    unfolding RenameResource_def RenameAPIVersionAndKind_def RenameManagedFields_def j_resource_def
    by (rule yields_bind [OF two_fields_yields [OF assms(2,3)] managed_fields_yields])
      (use ready_text [OF assms(1)] ok place_cong(1,5) [OF fork] in simp_all)
  show "yields D (RestoreResource L rr x) (j_resource (rr_RestoreApiVersion rr) (rr_RestoreKind rr) j)"
    unfolding RestoreResource_def RestoreAPIVersionAndKind_def RestoreManagedFields_def j_resource_def
    by (rule yields_bind [OF two_fields_yields [OF assms(2,3)] managed_fields_yields])
      (use ready_text [OF assms(1)] ok place_cong(1,5) [OF fork] in simp_all)
qed

end

lemma items_at_nonempty: "items_at j ks \<noteq> [] \<Longrightarrow> jget j ks = Some (JArr (items_at j ks))"
  by (cases "jget j ks") (auto simp: items_at_def split: json.splits)

lemma items_at_j_array:
  "items_at (j_array ks (\<lambda>v. Some (f v)) j) ks = map f (items_at j ks)"
  using items_at_nonempty [of j ks] jget_settable [of j ks]
  by (cases "items_at j ks = []") (auto simp: j_array_def, simp add: items_at_def)

lemma j_array_roundtrip:
  assumes "\<And>v. v \<in> set (items_at j ks) \<Longrightarrow> g (f v) = v"
  shows "j_array ks (\<lambda>v. Some (g v)) (j_array ks (\<lambda>v. Some (f v)) j) = j"
proof (cases "items_at j ks = []")
  case True
  then show ?thesis by (simp add: j_array_def)
next
  case False
  then have j: "jget j ks = Some (JArr (items_at j ks))" by (rule items_at_nonempty)
  have "map (\<lambda>v. g (f v)) (items_at j ks) = items_at j ks" using assms by (simp add: map_idI)
  moreover have "items_at (jset j ks (JArr (map f (items_at j ks)))) ks = map f (items_at j ks)"
    using items_at_j_array [of ks f j] False by (simp add: j_array_def)
  ultimately show ?thesis
    using False j jset_same [OF j] jget_settable [OF j] by (simp add: j_array_def comp_def)
qed

lemma j_array_jset_forks: "forks ls ks \<Longrightarrow> j_array ks f (jset j ls v) = jset (j_array ks f j) ls v"
  using place_cong(5) [of "jset j ls v" ks j] by (auto simp: j_array_def jget_jset_forks intro: jset_commute)

lemma j_string_roundtrip:
  assumes "jget f ks = None \<or> (\<exists>s. jget f ks = Some (JStr s) \<and> a' (a s) = s)"
  shows "j_string ks a' (j_string ks a f) = f" and "has_text (j_string ks a f) ks"
  using assms jget_settable [of f ks] jset_same [of f ks] by (auto simp: j_string_def jtext_at_def has_text_def)

text \<open>The client fields a round trip can be promised for: texts that are not renamed names themselves.\<close>

definition client_version :: "RewriteRules \<Rightarrow> json \<Rightarrow> bool" where
  "client_version rr f = (case jget f [''apiVersion''] of
     None \<Rightarrow> True | Some (JStr av) \<Rightarrow> \<not> rr_IsRenamedGroup rr av | _ \<Rightarrow> False)"

definition client_resource :: "RewriteRules \<Rightarrow> json \<Rightarrow> bool" where
  "client_resource rr j \<longleftrightarrow>
     jget j [''apiVersion''] \<noteq> None \<and> client_version rr j \<and>
     (\<exists>k. jget j [''kind''] = Some (JStr k)) \<and> has_array j [''metadata'', ''managedFields''] \<and>
     list_all (client_version rr) (items_at j [''metadata'', ''managedFields''])"

lemma client_version_iff:
  "client_version rr f \<longleftrightarrow>
     jget f [''apiVersion''] = None \<or> (\<exists>av. jget f [''apiVersion''] = Some (JStr av) \<and> \<not> rr_IsRenamedGroup rr av)"
  by (cases "jget f [''apiVersion'']") (auto simp: client_version_def split: json.splits)

lemma client_resource_ok: "client_resource rr j \<Longrightarrow> resource_ok j"
  by (cases j)
    (auto simp del: jget.simps simp: client_resource_def resource_ok_def has_text_def list_all_iff client_version_iff, auto)

lemma j_resource_roundtrip:
  assumes "rules_ready rr" and "client_resource rr j"
  defines "i \<equiv> j_resource (rr_RenameApiVersion rr) (rr_RenameKind rr) j"
  shows "j_resource (rr_RestoreApiVersion rr) (rr_RestoreKind rr) i = j" and "resource_ok i"
proof -
  let ?mf = "[''metadata'', ''managedFields'']"
  let ?up = "\<lambda>f. j_string [''apiVersion''] (rr_RenameApiVersion rr) f"
  let ?down = "\<lambda>f. j_string [''apiVersion''] (rr_RestoreApiVersion rr) f"
  from assms(2) obtain av k where j: "jget j [''apiVersion''] = Some (JStr av)" "jget j [''kind''] = Some (JStr k)"
    and av: "\<not> rr_IsRenamedGroup rr av" by (auto simp: client_resource_def client_version_iff)
  have f: "?down (?up v) = v \<and> has_text (?up v) [''apiVersion'']" if "v \<in> set (items_at j ?mf)" for v
  proof -
    have "client_version rr v" using that assms(2) by (simp add: client_resource_def list_all_iff)
    then have "jget v [''apiVersion''] = None \<or>
        (\<exists>s. jget v [''apiVersion''] = Some (JStr s) \<and> rr_RestoreApiVersion rr (rr_RenameApiVersion rr s) = s)"
      using restore_rename_av [OF assms(1)] by (auto simp: client_version_iff)
    then show ?thesis using j_string_roundtrip by blast
  qed
  let ?a = "j_array ?mf (\<lambda>v. Some (?up v)) j"
  let ?av = "JStr (rr_RenameApiVersion rr av)" and ?k = "JStr (rr_RenameKind rr k)"
  have i: "i = jset (jset ?a [''apiVersion''] ?av) [''kind''] ?k"
    using j by (simp add: i_def j_resource_def jtext_at_def j_array_jset_forks)
  obtain m where m: "?a = JObj m" "m ''apiVersion'' = Some (JStr av)" "m ''kind'' = Some (JStr k)"
    using jget_j_forks(4) [of ?mf "[''apiVersion'']" "\<lambda>v. Some (?up v)" j]
      jget_j_forks(4) [of ?mf "[''kind'']" "\<lambda>v. Some (?up v)" j] j
    by (cases ?a) (auto split: option.splits)
  have "j_array ?mf (\<lambda>v. Some (?down v)) i = jset (jset j [''apiVersion''] ?av) [''kind''] ?k"
    using j_array_roundtrip [of j ?mf ?down ?up] f by (simp add: i j_array_jset_forks)
  moreover have t: "jtext_at i [''apiVersion''] = rr_RenameApiVersion rr av" "jtext_at i [''kind''] = rr_RenameKind rr k"
    using m by (simp_all add: i jtext_at_def)
  ultimately have "j_resource (rr_RestoreApiVersion rr) (rr_RestoreKind rr) i =
      jset (jset (jset (jset j [''apiVersion''] ?av) [''kind''] ?k) [''apiVersion''] (JStr av)) [''kind''] (JStr k)"
    using restore_rename_av [OF assms(1) av] by (simp add: j_resource_def j_array_jset_forks)
  also have "\<dots> = j"
    using j by (cases j) (auto simp: fun_eq_iff split: option.splits)
  finally show "j_resource (rr_RestoreApiVersion rr) (rr_RestoreKind rr) i = j" .
  have it: "jget i ?mf = jget ?a ?mf" by (simp add: i jget_jset_forks)
  have "has_array ?a ?mf"
    using assms(2) items_at_nonempty [of j ?mf] jget_settable [of j ?mf]
    by (cases "items_at j ?mf = []") (auto simp: client_resource_def j_array_def has_array_def)
  with f t m place_cong(1,5) [OF it] items_at_j_array [of ?mf ?up j] show "resource_ok i"
    by (auto simp: resource_ok_def i has_text_def list_all_iff)
qed

text \<open>
  Custom resources survive the round trip: a client resource whose API versions do not name a
  renamed group is renamed without an error, API version, kind and the API versions of its managed
  fields included, and restoring the result gives the same JSON value back.
\<close>

theorem resource_roundtrip:
  assumes "json_library L D V" and "rules_ready rr" and "doc D x j" and "client_resource rr j"
  shows "\<exists>y. RenameResource L rr x = Inr y \<and> yields D (RestoreResource L rr y) j"
proof -
  obtain y where y: "RenameResource L rr x = Inr y" "doc D y (j_resource (rr_RenameApiVersion rr) (rr_RenameKind rr) j)"
    using json_library.resource_yields(1) [OF assms(1-3) client_resource_ok [OF assms(4)]] unfolding yields_def by blast
  have "yields D (RestoreResource L rr y) j"
    using json_library.resource_yields(2) [OF assms(1,2) y(2)] j_resource_roundtrip [OF assms(2,4)] by simp
  with y(1) show ?thesis by blast
qed

definition sample_resource_json :: rj where
  "sample_resource_json = RObj [(''apiVersion'', RStr ''g.io/v1''), (''kind'', RStr ''R''),
     (''metadata'', RObj [(''name'', RStr ''n''), (''managedFields'', RArr [RObj [(''apiVersion'', RStr ''g.io/v1'')]])])]"

theorem resource_roundtrip_witness:
  "\<exists>y. RenameResource ref_lib (rr_Init sample_rules) (Some (print sample_resource_json)) = Inr y \<and>
    yields ref_D (RestoreResource ref_lib (rr_Init sample_rules) y) (rj_abs sample_resource_json)"
proof (rule resource_roundtrip [OF ref.json_library_axioms sample_rules_ready ref_doc])
  show "rj_ok sample_resource_json" by code_simp
  have "\<not> rr_IsRenamedGroup (rr_Init sample_rules) ''g.io/v1''" by code_simp
  then show "client_resource (rr_Init sample_rules) (rj_abs sample_resource_json)"
    by (simp add: client_resource_def client_version_def sample_resource_json_def has_array_def items_at_def)
qed

end
