(* ===== verification/Workloads.thy ===== *)
theory Workloads
  imports Metadata
begin

text \<open>
  Rewriting of the built-in resources the proxy knows: \<^verbatim>\<open>pkg/rewriter/affinity.go\<close>, \<^verbatim>\<open>app.go\<close>,
  \<^verbatim>\<open>core.go\<close>, \<^verbatim>\<open>policy.go\<close>, \<^verbatim>\<open>events.go\<close> and \<^verbatim>\<open>3rdparty.go\<close>.

  Shown: a selector requirement is rewritten with its key and values, and always has a values array
  afterwards; the items of a service monitor list stay as they are. The values the larger operations
  yield are in theory \<open>Affinity\<close>.
\<close>

section \<open>Affinity: affinity.go\<close>

definition rewriteSelectorRequirement :: "'r jsonlib \<Rightarrow> RewriteRules \<Rightarrow> bytes \<Rightarrow> Action \<Rightarrow> bytes res" where
  "rewriteSelectorRequirement L rules obj action =
     (let key = gjson_String L (gjson_GetBytes L obj ''key'');
          values = map (gjson_String L) (gjson_Array L (gjson_GetBytes L obj ''values''))
      in case pnr_RewriteNameValues (rr_labelsRewriter rules) key values action of (rwrKey, rwrValues) \<Rightarrow>
        res_bind (sjson_SetBytes L obj ''key'' (VString rwrKey)) (\<lambda>obj.
        sjson_SetBytes L obj ''values'' (VStrings (Some rwrValues))))"

definition rewriteNodeSelectorTerm :: "'r jsonlib \<Rightarrow> RewriteRules \<Rightarrow> bytes \<Rightarrow> Action \<Rightarrow> bytes res" where
  "rewriteNodeSelectorTerm L rules obj action =
     res_bind (RewriteArray L obj ''matchLabels'' (\<lambda>item. rewriteSelectorRequirement L rules item action)) (\<lambda>obj.
     RewriteArray L obj ''matchExpressions'' (\<lambda>labelSelectorObj. rewriteSelectorRequirement L rules labelSelectorObj action))"

definition rewriteLabelSelector :: "'r jsonlib \<Rightarrow> RewriteRules \<Rightarrow> bytes \<Rightarrow> Action \<Rightarrow> bytes res" where
  "rewriteLabelSelector L rules obj action =
     res_bind (RewriteLabelsMap L rules obj ''matchLabels'' action) (\<lambda>obj.
     RewriteArray L obj ''matchExpressions'' (\<lambda>item. rewriteSelectorRequirement L rules item action))"

definition rewriteNodeAffinity :: "'r jsonlib \<Rightarrow> RewriteRules \<Rightarrow> bytes \<Rightarrow> Action \<Rightarrow> bytes res" where
  "rewriteNodeAffinity L rules obj action =
     res_bind (TransformObject L obj ''requiredDuringSchedulingIgnoredDuringExecution'' (\<lambda>affinityTerm.
       RewriteArray L affinityTerm ''nodeSelectorTerms'' (\<lambda>item. rewriteNodeSelectorTerm L rules item action))) (\<lambda>obj.
     RewriteArray L obj ''preferredDuringSchedulingIgnoredDuringExecution'' (\<lambda>item.
       TransformObject L item ''preference'' (\<lambda>preference. rewriteNodeSelectorTerm L rules preference action)))"

definition rewritePodAffinityTerm :: "'r jsonlib \<Rightarrow> RewriteRules \<Rightarrow> bytes \<Rightarrow> Action \<Rightarrow> bytes res" where
  "rewritePodAffinityTerm L rules obj action =
     res_bind (TransformObject L obj ''labelSelector'' (\<lambda>labelSelector. rewriteLabelSelector L rules labelSelector action)) (\<lambda>obj.
     res_bind (TransformString L obj ''topologyKey'' (\<lambda>topologyKey. pnr_Rewrite (rr_labelsRewriter rules) topologyKey action)) (\<lambda>obj.
     res_bind (TransformObject L obj ''namespaceSelector'' (\<lambda>selector. rewriteLabelSelector L rules selector action)) (\<lambda>obj.
     res_bind (TransformArrayOfStrings L obj ''matchLabelKeys'' (\<lambda>labelKey. pnr_Rewrite (rr_labelsRewriter rules) labelKey action)) (\<lambda>obj.
     TransformArrayOfStrings L obj ''mismatchLabelKeys'' (\<lambda>labelKey. pnr_Rewrite (rr_labelsRewriter rules) labelKey action)))))"

definition rewritePodAffinity :: "'r jsonlib \<Rightarrow> RewriteRules \<Rightarrow> bytes \<Rightarrow> Action \<Rightarrow> bytes res" where
  "rewritePodAffinity L rules obj action =
     res_bind (RewriteArray L obj ''requiredDuringSchedulingIgnoredDuringExecution'' (\<lambda>affinityTerm.
       rewritePodAffinityTerm L rules affinityTerm action)) (\<lambda>obj.
     RewriteArray L obj ''preferredDuringSchedulingIgnoredDuringExecution'' (\<lambda>affinityTerm.
       TransformObject L affinityTerm ''podAffinityTerm'' (\<lambda>podAffinityTerm.
         rewritePodAffinityTerm L rules podAffinityTerm action)))"

definition RewriteAffinity :: "'r jsonlib \<Rightarrow> RewriteRules \<Rightarrow> bytes \<Rightarrow> string \<Rightarrow> Action \<Rightarrow> bytes res" where
  "RewriteAffinity L rules obj path action =
     TransformObject L obj path (\<lambda>affinity.
       res_bind (TransformObject L affinity ''nodeAffinity'' (\<lambda>item. rewriteNodeAffinity L rules item action)) (\<lambda>rwrAffinity.
       res_bind (TransformObject L rwrAffinity ''podAffinity'' (\<lambda>item. rewritePodAffinity L rules item action)) (\<lambda>rwrAffinity.
       TransformObject L rwrAffinity ''podAntiAffinity'' (\<lambda>item. rewritePodAffinity L rules item action))))"

section \<open>Workload controllers: app.go\<close>

definition RewriteSpecTemplateLabelsAnno :: "'r jsonlib \<Rightarrow> RewriteRules \<Rightarrow> bytes \<Rightarrow> string \<Rightarrow> Action \<Rightarrow> bytes res" where
  "RewriteSpecTemplateLabelsAnno L rules obj path action =
     TransformObject L obj path (\<lambda>obj.
       res_bind (RewriteLabelsMap L rules obj ''template.metadata.labels'' action) (\<lambda>obj.
       res_bind (RewriteLabelsMap L rules obj ''selector.matchLabels'' action) (\<lambda>obj.
       res_bind (RewriteLabelsMap L rules obj ''template.spec.nodeSelector'' action) (\<lambda>obj.
       res_bind (RewriteAffinity L rules obj ''template.spec.affinity'' action) (\<lambda>obj.
       RewriteAnnotationsMap L rules obj ''template.metadata.annotations'' action)))))"

definition RewriteDeploymentOrList :: "'r jsonlib \<Rightarrow> RewriteRules \<Rightarrow> bytes \<Rightarrow> Action \<Rightarrow> bytes res" where
  "RewriteDeploymentOrList L rules obj action =
     RewriteResourceOrList L obj ''DeploymentList'' (\<lambda>singleObj. RewriteSpecTemplateLabelsAnno L rules singleObj ''spec'' action)"

definition RewriteDaemonSetOrList :: "'r jsonlib \<Rightarrow> RewriteRules \<Rightarrow> bytes \<Rightarrow> Action \<Rightarrow> bytes res" where
  "RewriteDaemonSetOrList L rules obj action =
     RewriteResourceOrList L obj ''DaemonSetList'' (\<lambda>singleObj. RewriteSpecTemplateLabelsAnno L rules singleObj ''spec'' action)"

definition RewriteStatefulSetOrList :: "'r jsonlib \<Rightarrow> RewriteRules \<Rightarrow> bytes \<Rightarrow> Action \<Rightarrow> bytes res" where
  "RewriteStatefulSetOrList L rules obj action =
     RewriteResourceOrList L obj ''StatefulSetList'' (\<lambda>singleObj. RewriteSpecTemplateLabelsAnno L rules singleObj ''spec'' action)"

definition RenameSpecTemplatePatch :: "'r jsonlib \<Rightarrow> RewriteRules \<Rightarrow> bytes \<Rightarrow> bytes res" where
  "RenameSpecTemplatePatch L rules obj =
     res_bind (RenameMetadataPatch L rules obj) (\<lambda>obj.
     TransformPatch L obj
       (Some (\<lambda>mergePatch. RewriteSpecTemplateLabelsAnno L rules mergePatch ''spec'' Rename))
       (Some (\<lambda>jsonPatch.
         if gjson_String L (gjson_GetBytes L jsonPatch ''path'') = ''/spec''
         then RewriteSpecTemplateLabelsAnno L rules jsonPatch ''value'' Rename
         else Inr jsonPatch)))"

section \<open>Core resources: core.go, policy.go, events.go, 3rdparty.go\<close>

definition RewritePodOrList :: "'r jsonlib \<Rightarrow> RewriteRules \<Rightarrow> bytes \<Rightarrow> Action \<Rightarrow> bytes res" where
  "RewritePodOrList L rules obj action =
     RewriteResourceOrList L obj ''PodList'' (\<lambda>singleObj.
       res_bind (RewriteLabelsMap L rules singleObj ''spec.nodeSelector'' action) (\<lambda>singleObj.
       RewriteAffinity L rules singleObj ''spec.affinity'' action))"

definition RewriteServiceOrList :: "'r jsonlib \<Rightarrow> RewriteRules \<Rightarrow> bytes \<Rightarrow> Action \<Rightarrow> bytes res" where
  "RewriteServiceOrList L rules obj action =
     RewriteResourceOrList L obj ''ServiceList'' (\<lambda>singleObj. RewriteLabelsMap L rules singleObj ''spec.selector'' action)"

definition RewriteJobOrList :: "'r jsonlib \<Rightarrow> RewriteRules \<Rightarrow> bytes \<Rightarrow> Action \<Rightarrow> bytes res" where
  "RewriteJobOrList L rules obj action =
     RewriteResourceOrList L obj ''JobList'' (\<lambda>singleObj. RewriteSpecTemplateLabelsAnno L rules singleObj ''spec'' action)"

definition RewritePVCOrList :: "'r jsonlib \<Rightarrow> RewriteRules \<Rightarrow> bytes \<Rightarrow> Action \<Rightarrow> bytes res" where
  "RewritePVCOrList L rules obj action =
     RewriteResourceOrList L obj ''PersistentVolumeClaimList'' (\<lambda>singleObj.
       res_bind (TransformObject L singleObj ''spec.dataSource'' (\<lambda>specDataSource.
         RewriteAPIGroupAndKind L rules specDataSource action)) (\<lambda>singleObj.
       TransformObject L singleObj ''spec.dataSourceRef'' (\<lambda>specDataSourceRef.
         RewriteAPIGroupAndKind L rules specDataSourceRef action)))"

definition RenameServicePatch :: "'r jsonlib \<Rightarrow> RewriteRules \<Rightarrow> bytes \<Rightarrow> bytes res" where
  "RenameServicePatch L rules obj =
     res_bind (RenameMetadataPatch L rules obj) (\<lambda>obj.
     TransformPatch L obj None
       (Some (\<lambda>jsonPatch.
         if gjson_String L (gjson_GetBytes L jsonPatch ''path'') = ''/spec''
         then RewriteLabelsMap L rules jsonPatch ''value.selector'' Rename
         else Inr jsonPatch)))"

definition RewritePDBOrList :: "'r jsonlib \<Rightarrow> RewriteRules \<Rightarrow> bytes \<Rightarrow> Action \<Rightarrow> bytes res" where
  "RewritePDBOrList L rules obj action =
     RewriteResourceOrList L obj ''PodDisruptionBudgetList'' (\<lambda>singleObj.
       RewriteLabelsMap L rules singleObj ''spec.selector.matchLabels'' action)"

definition RewriteEventOrList :: "'r jsonlib \<Rightarrow> RewriteRules \<Rightarrow> bytes \<Rightarrow> Action \<Rightarrow> bytes res" where
  "RewriteEventOrList L rules obj action =
     RewriteResourceOrList L obj ''EventList'' (\<lambda>singleObj.
       TransformObject L singleObj ''involvedObject'' (\<lambda>involvedObj. RewriteAPIVersionAndKind L rules involvedObj action))"

definition RewriteServiceMonitorOrList :: "'r jsonlib \<Rightarrow> RewriteRules \<Rightarrow> bytes \<Rightarrow> Action \<Rightarrow> bytes res" where
  "RewriteServiceMonitorOrList L rules obj action =
     TransformObject L obj ''spec.selector'' (\<lambda>obj. rewriteLabelSelector L rules obj action)"

section \<open>Selector requirements\<close>

text \<open>The value of a requirement after the rewriting: the values array is written in any case.\<close>

definition j_requirement :: "RewriteRules \<Rightarrow> Action \<Rightarrow> json \<Rightarrow> json" where
  "j_requirement rr action j =
     (case pnr_RewriteNameValues (rr_labelsRewriter rr) (jtext_at j [''key'']) (map item_text (items_at j [''values''])) action of
       (k, vs) \<Rightarrow> jset (jset j [''key''] (JStr k)) [''values''] (JArr (map JStr vs)))"

definition requirement_ok :: "json \<Rightarrow> bool" where
  "requirement_ok j \<longleftrightarrow> is_object j \<and> has_text j [''key''] \<and> has_text_array j [''values'']"

lemma find_mem: "find P xs = Some x \<Longrightarrow> x \<in> set xs"
  by (auto simp: find_Some_iff)

lemma RewriteNameValues_text:
  assumes "rules_ready rr" and "utf8 n" and "list_all utf8 vs"
  shows "utf8 (fst (pnr_RewriteNameValues (rr_labelsRewriter rr) n vs action))"
    and "list_all utf8 (snd (pnr_RewriteNameValues (rr_labelsRewriter rr) n vs action))"
proof -
  have t: "utf8 (fst (pnr_RewriteNameValue (rr_labelsRewriter rr) n v action)) \<and>
      utf8 (snd (pnr_RewriteNameValue (rr_labelsRewriter rr) n v action))" if "utf8 v" for v
    using ready_rewriters_text [OF assms(1,2) that] by simp
  have r: "utf8 (pnr_Rewrite (rr_labelsRewriter rr) n action)"
    using ready_rewriters_text(3) [OF assms(1,2) utf8_Nil] by simp
  show "utf8 (fst (pnr_RewriteNameValues (rr_labelsRewriter rr) n vs action))"
    using t r assms(2,3)
    by (cases action)
      (auto simp: pnr_RewriteNameValues_def rewriteNameValues_eq pnr_RewriteNameValue_def list_all_iff
        split: option.split dest!: find_mem)
  show "list_all utf8 (snd (pnr_RewriteNameValues (rr_labelsRewriter rr) n vs action))"
    using t assms(3) by (cases action)
      (auto simp: pnr_RewriteNameValues_def rewriteNameValues_eq pnr_RewriteNameValue_def list_all_iff)
qed

context json_library
begin

lemma rewriteSelectorRequirement_yields:
  assumes "rules_ready rr" and "doc D x j" and "requirement_ok j"
  shows "yields D (rewriteSelectorRequirement L rr x action) (j_requirement rr action j)"
proof -
  note ok = assms(3) [unfolded requirement_ok_def]
  have key: "gjson_String L (gjson_GetBytes L x ''key'') = jtext_at j [''key'']"
    using String_at [OF assms(2), of "''key''"] ok by simp
  have vals: "map (gjson_String L) (gjson_Array L (gjson_GetBytes L x ''values'')) = map item_text (items_at j [''values''])"
    using Array_items [OF assms(2), of "''values''"] ok by (intro map_String_items) (auto simp: has_text_array_def)
  obtain k vs where kv: "pnr_RewriteNameValues (rr_labelsRewriter rr) (jtext_at j [''key''])
      (map item_text (items_at j [''values''])) action = (k, vs)" by fastforce
  have "utf8 k" and "list_all utf8 vs"
    using RewriteNameValues_text [OF assms(1) utf8_jtext_at [OF assms(2)], of "map item_text (items_at j [''values''])" "[''key'']" action]
      utf8_item_text [OF assms(2)] kv by (auto simp: list_all_iff)
  then have "yields D (sjson_SetBytes L x ''key'' (VString k)) (jset j [''key''] (JStr k))"
    and "\<And>y. doc D y (jset j [''key''] (JStr k)) \<Longrightarrow>
      yields D (sjson_SetBytes L y ''values'' (VStrings (Some vs))) (jset (jset j [''key''] (JStr k)) [''values''] (JArr (map JStr vs)))"
    using SetString_yields [OF assms(2), of "''key''"] SetBytes [of _ "jset j [''key''] (JStr k)" "''values''" "VStrings (Some vs)"] ok
    by (simp_all add: is_object_settable)
  then show ?thesis
    unfolding rewriteSelectorRequirement_def j_requirement_def Let_def key vals kv prod.case by (rule yields_bind)
qed

end

text \<open>
  A selector requirement of an affinity or a label selector: key and values are rewritten
  together by the label rules, the first value that a rule applies to deciding the key. The values
  array is there afterwards even for an operator without values, for which it is empty.
\<close>

theorem selector_requirement_refines:
  assumes "json_library L D V" and "rules_ready rr" and "doc D x j" and "requirement_ok j"
  shows "yields D (rewriteSelectorRequirement L rr x action) (j_requirement rr action j) \<and>
    (items_at j [''values''] = [] \<longrightarrow> jget (j_requirement rr action j) [''values''] = Some (JArr []))"
proof
  show "yields D (rewriteSelectorRequirement L rr x action) (j_requirement rr action j)"
    by (rule json_library.rewriteSelectorRequirement_yields [OF assms])
  show "items_at j [''values''] = [] \<longrightarrow> jget (j_requirement rr action j) [''values''] = Some (JArr [])"
    using assms(4) is_object_settable [of "jset j [''key''] _" "''values''"]
    by (auto simp: j_requirement_def requirement_ok_def pnr_RewriteNameValues_def)
qed

definition sample_requirement :: rj where
  "sample_requirement = RObj [(''key'', RStr ''g.io/a''), (''operator'', RStr ''Exists'')]"

theorem selector_requirement_refines_witness:
  "yields ref_D (rewriteSelectorRequirement ref_lib (rr_Init sample_rules) (Some (print sample_requirement)) Rename)
     (j_requirement (rr_Init sample_rules) Rename (rj_abs sample_requirement))"
proof (rule selector_requirement_refines [OF ref.json_library_axioms sample_rules_ready ref_doc, THEN conjunct1])
  show "rj_ok sample_requirement" by code_simp
qed (simp add: requirement_ok_def sample_requirement_def has_text_def has_text_array_def has_array_def items_at_def)

text \<open>
  A list of service monitors is not rewritten: only an object at \<^verbatim>\<open>spec.selector\<close> of the payload
  itself is, so a list, which has no spec, passes through byte for byte.
\<close>

theorem service_monitor_list_unchanged:
  assumes "json_library L D V" and "doc D x j" and "jget j [''spec''] = None"
  shows "RewriteServiceMonitorOrList L rr x action = Inr x"
proof -
  have "jget j [''spec'', ''selector''] = None"
    using assms(3) jget_append [of j "[''spec'']" "[''selector'']"] by simp
  then show ?thesis
    using json_library.GetBytes [OF assms(1,2), of "''spec.selector''"] json_library.IsObject [OF assms(1)]
    by (simp add: RewriteServiceMonitorOrList_def TransformObject_def Let_def)
qed

theorem service_monitor_list_unchanged_witness:
  "RewriteServiceMonitorOrList ref_lib (rr_Init sample_rules) (Some (print sample_list)) Restore = Inr (Some (print sample_list))"
  by (rule service_monitor_list_unchanged [OF ref.json_library_axioms ref_doc])
    (simp_all add: sample_list_def, code_simp)

end
