(* ===== verification/Payload.thy ===== *)
theory Payload
  imports Metadata
begin

text \<open>
  A custom resource as a whole on JSON values: version, kind, managed fields (\<open>j_resource\<close>) and then
  the metadata (\<open>j_metadata\<close>), which is what both \<^verbatim>\<open>RewriteJSONPayload\<close> and the objects inside admission
  reviews go through.

  Shown: the metadata of the client, and with it the whole resource, survives rename and restore.
\<close>

section \<open>One member of an object\<close>

text \<open>The value-level transformers at a member of an object only update that member.\<close>

definition at_map :: "(string \<Rightarrow> string \<Rightarrow> string \<times> string) \<Rightarrow> json option \<Rightarrow> json option" where
  "at_map f v = (case v of Some (JObj n) \<Rightarrow> if n = Map.empty then v else Some (JObj (map_image f n)) | _ \<Rightarrow> v)"

definition at_strings :: "(string \<Rightarrow> string) \<Rightarrow> json option \<Rightarrow> json option" where
  "at_strings f v = (case v of Some (JArr vs) \<Rightarrow> Some (JArr (map (\<lambda>v. JStr (f (item_text v))) vs)) | _ \<Rightarrow> v)"

definition at_array :: "(json \<Rightarrow> json) \<Rightarrow> json option \<Rightarrow> json option" where
  "at_array f v = (case v of Some (JArr vs) \<Rightarrow> Some (JArr (map f vs)) | _ \<Rightarrow> v)"

definition at_object :: "(json \<Rightarrow> json) \<Rightarrow> json option \<Rightarrow> json option" where
  "at_object f v = (case v of Some (JObj n) \<Rightarrow> Some (f (JObj n)) | _ \<Rightarrow> v)"

lemma j_map_member: "j_map [k] f (JObj m) = JObj (m(k := at_map f (m k)))"
  by (cases "m k") (auto simp: j_map_def members_at_def at_map_def fun_upd_idem split: json.split)

lemma j_strings_member: "j_strings [k] f (JObj m) = JObj (m(k := at_strings f (m k)))"
  by (cases "m k") (auto simp: j_strings_def items_at_def at_strings_def fun_upd_idem split: json.split)

lemma map_filter_all: "List.map_filter (\<lambda>v. Some (f v)) vs = map f vs"
  by (induction vs) (simp_all add: map_filter_simps)

lemma j_array_member: "j_array [k] (\<lambda>v. Some (f v)) (JObj m) = JObj (m(k := at_array f (m k)))"
  by (cases "m k") (auto simp: j_array_def items_at_def at_array_def fun_upd_idem map_filter_all split: json.split)

lemma j_object_member: "j_object [k] f (JObj m) = JObj (m(k := at_object f (m k)))"
  by (cases "m k") (auto simp: j_object_def at_object_def fun_upd_idem split: json.split)

lemma j_array_member2:
  "j_array [k, l] (\<lambda>v. Some (f v)) (JObj m) = JObj (m(k := at_object (j_array [l] (\<lambda>v. Some (f v))) (m k)))"
proof (cases "\<exists>n. m k = Some (JObj n)")
  case True
  then obtain n where n: "m k = Some (JObj n)" ..
  then have i: "items_at (JObj m) [k, l] = items_at (JObj n) [l]" by (simp add: items_at_def)
  show ?thesis
  proof (cases "items_at (JObj n) [l] = []")
    case True
    with i n show ?thesis by (simp add: j_array_def at_object_def fun_upd_idem)
  next
    case False
    with i n show ?thesis by (simp add: j_array_def at_object_def)
  qed
next
  case False
  have "items_at (JObj m) [k, l] = [] \<and> at_object (j_array [l] (\<lambda>v. Some (f v))) (m k) = m k"
  proof (cases "m k")
    case (Some v)
    with False show ?thesis by (cases v) (simp_all add: items_at_def at_object_def)
  qed (simp add: items_at_def at_object_def)
  then show ?thesis by (simp add: j_array_def fun_upd_idem)
qed

lemma items_at_j_array_filter: "items_at (j_array ks f j) ks = List.map_filter f (items_at j ks)"
proof (cases "items_at j ks = []")
  case True
  then show ?thesis by (simp add: j_array_def map_filter_simps)
next
  case False
  then show ?thesis
    using jget_settable [OF items_at_nonempty [OF False]] by (simp add: j_array_def, simp add: items_at_def)
qed

lemma has_array_j_array: "has_array j ks \<Longrightarrow> has_array (j_array ks f j) ks"
  using jget_settable [OF items_at_nonempty, of j ks] by (cases "items_at j ks = []") (auto simp: j_array_def has_array_def)

lemma map_filter_if: "List.map_filter (\<lambda>v. if P v then None else Some v) vs = filter (\<lambda>v. \<not> P v) vs"
  by (induction vs) (simp_all add: map_filter_simps)

section \<open>Metadata\<close>

lemma j_metadata_object:
  "j_metadata rr a (JObj n) =
     JObj (n(''labels'' := at_map (\<lambda>k v. pnr_RewriteNameValue (rr_labelsRewriter rr) k v a) (n ''labels''),
             ''annotations'' := at_map (\<lambda>k v. pnr_RewriteNameValue (rr_annotationsRewriter rr) k v a) (n ''annotations''),
             ''finalizers'' := at_strings (\<lambda>f. pnr_Rewrite (rr_finalizersRewriter rr) f a) (n ''finalizers''),
             ''ownerReferences'' := at_array (j_gvk rr a ''apiVersion'') (n ''ownerReferences'')))"
  by (simp add: j_metadata_def j_map_member j_strings_member j_array_member)

lemma map_image_roundtrip:
  assumes "no_clash f m" and "\<And>k v. m k = Some v \<Longrightarrow> (case map_entry f k v of (k', v') \<Rightarrow> map_entry g k' v' = (k, v))"
  shows "map_image g (map_image f m) = m" and "no_clash g (map_image f m)"
proof -
  have e: "map_image f m k' = Some v' \<longleftrightarrow> (\<exists>k v. m k = Some v \<and> map_entry f k v = (k', v'))" for k' v'
    by (rule map_image_Some [OF assms(1)])
  have inv: "map_image f m k' = Some v' \<Longrightarrow> \<exists>k v. map_entry g k' v' = (k, v) \<and> m k = Some v \<and> map_entry f k v = (k', v')" for k' v'
    using e [of k' v'] assms(2) by fastforce
  show n: "no_clash g (map_image f m)"
    unfolding no_clash_def by (metis (no_types, lifting) inv fst_conv option.inject)
  show "map_image g (map_image f m) = m"
  proof
    fix k
    have "map_image g (map_image f m) k = Some v \<longleftrightarrow> m k = Some v" for v
    proof -
      have "map_image g (map_image f m) k = Some v \<longleftrightarrow> (\<exists>k' v'. map_image f m k' = Some v' \<and> map_entry g k' v' = (k, v))"
        by (rule map_image_Some [OF n])
      also have "\<dots> \<longleftrightarrow> m k = Some v"
      proof
        assume "\<exists>k' v'. map_image f m k' = Some v' \<and> map_entry g k' v' = (k, v)"
        then show "m k = Some v" using inv by fastforce
      next
        assume m: "m k = Some v"
        obtain k' v' where kv: "map_entry f k v = (k', v')" by fastforce
        then have "map_image f m k' = Some v'" using e m by blast
        with assms(2) [OF m] kv show "\<exists>k' v'. map_image f m k' = Some v' \<and> map_entry g k' v' = (k, v)" by auto
      qed
      finally show ?thesis .
    qed
    then show "map_image g (map_image f m) k = m k" by (metis not_Some_eq)
  qed
qed

text \<open>
  A client name with its value that survives: the name is not a preserved one and has no \<^verbatim>\<open>=\<close>, and what
  it is renamed to is not an original name and is found by the same sort of rule again.
\<close>

definition name_survives :: "PrefixedNameRewriter \<Rightarrow> string \<Rightarrow> string \<Rightarrow> bool" where
  "name_survives p n v \<longleftrightarrow> CHR ''='' \<notin> set n \<and> \<not> isPreserved n \<and>
     (case pnr_rename p n v of (n', v') \<Rightarrow> \<not> pnr_isOriginal p n' v' \<and> restore_hit p (n', v') = rename_hit p (n, v))"

definition replaces_wf :: "RewriteRules \<Rightarrow> bool" where
  "replaces_wf rr \<longleftrightarrow> replace_wf (rr_Labels rr) \<and> replace_wf (rr_Annotations rr) \<and> replace_wf (rr_Finalizers rr)"

lemma survives_roundtrip:
  assumes "replace_wf R" and "name_survives (NewPrefixedNameRewriter R) n v"
  shows "case pnr_rename (NewPrefixedNameRewriter R) n v of (n', v') \<Rightarrow> pnr_restore (NewPrefixedNameRewriter R) n' v' = (n, v)"
  using rename_then_restore [OF assms(1) refl, of n v] assms(2)
  by (auto simp: name_survives_def pnr_rename_lookup pnr_restore_lookup split: prod.splits)

definition client_map :: "PrefixedNameRewriter \<Rightarrow> json \<Rightarrow> string \<Rightarrow> bool" where
  "client_map p j k \<longleftrightarrow>
     (case jget j [k] of
       None \<Rightarrow> True
     | Some (JObj m) \<Rightarrow> no_clash (\<lambda>n v. pnr_RewriteNameValue p n v Rename) m \<and>
         (\<forall>n v. m n = Some v \<longrightarrow> (case v of JStr s \<Rightarrow> name_survives p n s | _ \<Rightarrow> False))
     | _ \<Rightarrow> False)"

definition client_metadata :: "RewriteRules \<Rightarrow> json \<Rightarrow> bool" where
  "client_metadata rr j \<longleftrightarrow>
     client_map (rr_labelsRewriter rr) j ''labels'' \<and> client_map (rr_annotationsRewriter rr) j ''annotations'' \<and>
     has_array j [''finalizers''] \<and>
     list_all (\<lambda>v. case v of JStr f \<Rightarrow> name_survives (rr_finalizersRewriter rr) f [] | _ \<Rightarrow> False) (items_at j [''finalizers'']) \<and>
     has_array j [''ownerReferences''] \<and>
     list_all (\<lambda>r. case (jget r [''kind''], jget r [''apiVersion'']) of
       (Some (JStr k), Some (JStr av)) \<Rightarrow> \<not> rr_IsRenamedGroup rr av | _ \<Rightarrow> False) (items_at j [''ownerReferences''])"

lemma case_JStr: "(case v of JStr s \<Rightarrow> P s | _ \<Rightarrow> False) \<longleftrightarrow> (\<exists>s. v = JStr s \<and> P s)"
  by (cases v) simp_all

lemma map_entry_JStr [simp]: "map_entry f k (JStr s) = (fst (f k s), JStr (snd (f k s)))"
  by (simp add: map_entry_def item_text_def split: prod.split)

lemma at_map_roundtrip:
  assumes "replace_wf R" and "p = NewPrefixedNameRewriter R" and "client_map p (JObj n) k"
  shows "at_map (\<lambda>k v. pnr_RewriteNameValue p k v Restore) (at_map (\<lambda>k v. pnr_RewriteNameValue p k v Rename) (n k)) = n k"
    and "n' k = at_map (\<lambda>k v. pnr_RewriteNameValue p k v Rename) (n k) \<Longrightarrow> map_ok p Restore (JObj n') [k]"
proof -
  let ?f = "\<lambda>k v. pnr_RewriteNameValue p k v Rename" and ?g = "\<lambda>k v. pnr_RewriteNameValue p k v Restore"
  have "at_map ?g (at_map ?f (n k)) = n k \<and> (n' k = at_map ?f (n k) \<longrightarrow> map_ok p Restore (JObj n') [k])"
  proof (cases "n k")
    case None
    then show ?thesis by (simp add: at_map_def map_ok_def has_text_map_def members_at_def no_clash_def)
  next
    case (Some v)
    with assms(3) obtain m where m: "n k = Some (JObj m)" "no_clash ?f m"
      and s: "\<And>x v. m x = Some v \<Longrightarrow> \<exists>t. v = JStr t \<and> name_survives p x t"
      by (cases v) (simp_all add: client_map_def case_JStr)
    have e: "case map_entry ?f x v of (k', v') \<Rightarrow> map_entry ?g k' v' = (x, v)" if mx: "m x = Some v" for x v
    proof -
      obtain t where t: "v = JStr t" "name_survives p x t" using s [OF mx] by blast
      then have "pnr_restore p (fst (pnr_rename p x t)) (snd (pnr_rename p x t)) = (x, t)"
        using survives_roundtrip [OF assms(1)] assms(2) by (auto simp: case_prod_beta)
      with t show ?thesis by (simp add: pnr_RewriteNameValue_def)
    qed
    have t: "\<exists>u. w = JStr u" if w: "map_image ?f m y = Some w" for y w
    proof -
      obtain x v where "m x = Some v" "map_entry ?f x v = (y, w)" using w map_image_Some [OF m(2)] by blast
      with s [of x v] show ?thesis by auto
    qed
    have ne: "map_image ?f m \<noteq> Map.empty" if "m \<noteq> Map.empty"
    proof
      assume "map_image ?f m = Map.empty"
      then have "m x \<noteq> Some v" for x v using map_image_Some [OF m(2)] by (metis option.distinct(1) surj_pair)
      with that show False by (metis ext not_Some_eq)
    qed
    show ?thesis
    proof (cases "m = Map.empty")
      case True
      with m show ?thesis by (simp add: at_map_def map_ok_def has_text_map_def members_at_def no_clash_def)
    next
      case False
      with m ne map_image_roundtrip [OF m(2) e] t show ?thesis
        by (fastforce simp: at_map_def map_ok_def has_text_map_def members_at_def)
    qed
  qed
  then show "at_map ?g (at_map ?f (n k)) = n k" "n' k = at_map ?f (n k) \<Longrightarrow> map_ok p Restore (JObj n') [k]" by simp_all
qed

lemma rename_no_value: "pnr_rename p n [] = (n', v') \<Longrightarrow> v' = []"
  by (auto simp: pnr_rename_def split: if_splits option.splits prod.splits)

lemma at_strings_roundtrip:
  assumes "replace_wf R" and "p = NewPrefixedNameRewriter R" and "has_array (JObj n) [k]"
    and "list_all (\<lambda>v. case v of JStr f \<Rightarrow> name_survives p f [] | _ \<Rightarrow> False) (items_at (JObj n) [k])"
  shows "at_strings (\<lambda>f. pnr_Rewrite p f Restore) (at_strings (\<lambda>f. pnr_Rewrite p f Rename) (n k)) = n k"
proof (cases "\<exists>vs. n k = Some (JArr vs)")
  case True
  then obtain vs where vs: "n k = Some (JArr vs)" ..
  have "JStr (pnr_Rewrite p (pnr_Rewrite p (item_text v) Rename) Restore) = v" if "v \<in> set vs" for v
  proof -
    from assms(4) vs that obtain f where f: "v = JStr f" "name_survives p f []"
      by (auto simp: items_at_def list_all_iff case_JStr)
    then show ?thesis
      using survives_roundtrip [OF assms(1), of f "[]"] assms(2) rename_no_value [of p f]
      by (auto simp: pnr_Rewrite_def item_text_def split: prod.splits)
  qed
  then show ?thesis using vs by (simp add: at_strings_def item_text_def map_idI)
next
  case False
  then show ?thesis by (cases "n k") (auto simp: at_strings_def split: json.splits)
qed

lemma at_array_roundtrip:
  assumes "has_array (JObj n) [k]" and "\<And>v. v \<in> set (items_at (JObj n) [k]) \<Longrightarrow> g (f v) = v"
  shows "at_array g (at_array f (n k)) = n k"
  using assms by (cases "n k") (auto simp: at_array_def items_at_def map_idI split: json.splits)

lemma client_reference:
  assumes "rules_ready rr"
    and "case (jget r [''kind''], jget r [''apiVersion'']) of (Some (JStr k), Some (JStr av)) \<Rightarrow> \<not> rr_IsRenamedGroup rr av | _ \<Rightarrow> False"
  shows "j_gvk rr Restore ''apiVersion'' (j_gvk rr Rename ''apiVersion'' r) = r" and "ref_ok ''apiVersion'' (j_gvk rr Rename ''apiVersion'' r)"
    and "ref_ok ''apiVersion'' r"
proof -
  obtain k av where r: "jget r [''kind''] = Some (JStr k)" "jget r [''apiVersion''] = Some (JStr av)" "\<not> rr_IsRenamedGroup rr av"
    using assms(2) by (auto split: option.splits json.splits)
  show "j_gvk rr Restore ''apiVersion'' (j_gvk rr Rename ''apiVersion'' r) = r" "ref_ok ''apiVersion'' (j_gvk rr Rename ''apiVersion'' r)"
    by (rule j_gvk_roundtrip [OF assms(1) r(1,2) _ r(3)], simp)+
  show "ref_ok ''apiVersion'' r" using r(1,2) by (cases r) (auto simp: ref_ok_def has_text_def split: option.splits)
qed

lemma client_metadata_ok:
  assumes "rules_ready rr" and "client_metadata rr (JObj n)"
  shows "metadata_ok rr Rename (JObj n)"
proof -
  have m: "map_ok p Rename (JObj n) [k]" if "client_map p (JObj n) k" for p k
  proof (cases "n k")
    case None
    then show ?thesis by (simp add: map_ok_def has_text_map_def members_at_def no_clash_def)
  next
    case (Some v)
    with that show ?thesis
      by (cases v) (fastforce simp: client_map_def map_ok_def has_text_map_def members_at_def case_JStr)+
  qed
  have "has_text_array (JObj n) [''finalizers'']"
    using assms(2) by (auto simp: client_metadata_def has_text_array_def list_all_iff case_JStr)
  moreover have "list_all (ref_ok ''apiVersion'') (items_at (JObj n) [''ownerReferences''])"
    using assms(2) client_reference(3) [OF assms(1)] unfolding client_metadata_def list_all_iff by blast
  ultimately show ?thesis using assms(2) m by (simp add: client_metadata_def metadata_ok_def)
qed

lemma j_metadata_roundtrip:
  assumes "rules_ready rr" and "replaces_wf rr" and "client_metadata rr (JObj n)"
  shows "j_metadata rr Restore (j_metadata rr Rename (JObj n)) = JObj n"
    and "metadata_ok rr Restore (j_metadata rr Rename (JObj n))"
proof -
  have p: "rr_labelsRewriter rr = NewPrefixedNameRewriter (rr_Labels rr)"
    "rr_annotationsRewriter rr = NewPrefixedNameRewriter (rr_Annotations rr)"
    "rr_finalizersRewriter rr = NewPrefixedNameRewriter (rr_Finalizers rr)"
    using assms(1) by (simp_all add: rules_ready_def)
  note w = assms(2) [unfolded replaces_wf_def] and c = assms(3) [unfolded client_metadata_def]
  have w': "replace_wf (rr_Labels rr)" "replace_wf (rr_Annotations rr)" "replace_wf (rr_Finalizers rr)" using w by simp_all
  have l: "client_map (rr_labelsRewriter rr) (JObj n) ''labels''" "client_map (rr_annotationsRewriter rr) (JObj n) ''annotations''"
    using c by simp_all
  have o: "j_gvk rr Restore ''apiVersion'' (j_gvk rr Rename ''apiVersion'' v) = v \<and> ref_ok ''apiVersion'' (j_gvk rr Rename ''apiVersion'' v)"
    if "v \<in> set (items_at (JObj n) [''ownerReferences''])" for v
    using that c client_reference(1,2) [OF assms(1), of v] unfolding list_all_iff by blast
  note maps = at_map_roundtrip [OF w'(1) p(1) l(1)] at_map_roundtrip [OF w'(2) p(2) l(2)]
  have f: "at_strings (\<lambda>f. pnr_Rewrite (rr_finalizersRewriter rr) f Restore)
      (at_strings (\<lambda>f. pnr_Rewrite (rr_finalizersRewriter rr) f Rename) (n ''finalizers'')) = n ''finalizers''"
    by (rule at_strings_roundtrip [OF w'(3) p(3)]) (use c in simp_all)
  have r: "at_array (j_gvk rr Restore ''apiVersion'') (at_array (j_gvk rr Rename ''apiVersion'') (n ''ownerReferences'')) = n ''ownerReferences''"
    by (rule at_array_roundtrip) (use c o in simp_all)
  show "j_metadata rr Restore (j_metadata rr Rename (JObj n)) = JObj n"
    by (auto simp: j_metadata_object maps(1,3) f r)
  have "has_text_array (JObj n') [''finalizers'']"
    if "n' ''finalizers'' = at_strings (\<lambda>f. pnr_Rewrite (rr_finalizersRewriter rr) f Rename) (n ''finalizers'')" for n'
    using that c by (cases "n ''finalizers''") (auto simp: has_text_array_def has_array_def items_at_def at_strings_def split: json.splits)
  moreover have "has_array (JObj n') [''ownerReferences''] \<and> list_all (ref_ok ''apiVersion'') (items_at (JObj n') [''ownerReferences''])"
    if "n' ''ownerReferences'' = at_array (j_gvk rr Rename ''apiVersion'') (n ''ownerReferences'')" for n'
    using that c o by (cases "n ''ownerReferences''") (auto simp: has_array_def items_at_def at_array_def list_all_iff split: json.splits)
  ultimately show "metadata_ok rr Restore (j_metadata rr Rename (JObj n))"
    using maps(2,4) by (simp add: metadata_ok_def j_metadata_object)
qed

section \<open>Resources\<close>

fun j_versions :: "RewriteRules \<Rightarrow> Action \<Rightarrow> json \<Rightarrow> json" where
  "j_versions rr Rename j = j_resource (rr_RenameApiVersion rr) (rr_RenameKind rr) j"
| "j_versions rr Restore j = j_resource (rr_RestoreApiVersion rr) (rr_RestoreKind rr) j"

definition j_payload :: "RewriteRules \<Rightarrow> Action \<Rightarrow> json \<Rightarrow> json" where
  "j_payload rr action j = j_object [''metadata''] (j_metadata rr action) (j_versions rr action j)"

definition meta_ok :: "RewriteRules \<Rightarrow> Action \<Rightarrow> json \<Rightarrow> bool" where
  "meta_ok rr action j \<longleftrightarrow> (case jget j [''metadata''] of Some (JObj n) \<Rightarrow> metadata_ok rr action (JObj n) | _ \<Rightarrow> True)"

lemma metadata_ok_cong:
  assumes "n' ''labels'' = n ''labels''" "n' ''annotations'' = n ''annotations''" "n' ''finalizers'' = n ''finalizers''"
    "n' ''ownerReferences'' = n ''ownerReferences''"
  shows "metadata_ok rr action (JObj n') = metadata_ok rr action (JObj n)"
proof -
  have j: "jget (JObj n') [k] = jget (JObj n) [k]" if "n' k = n k" for k using that by simp
  show ?thesis
    using map_ok_cong [OF j [OF assms(1)]] map_ok_cong [OF j [OF assms(2)]] place_cong(2) [OF j [OF assms(3)]]
      place_cong(1,5) [OF j [OF assms(4)]]
    by (simp add: metadata_ok_def)
qed

lemma j_resource_object:
  "j_resource av k (JObj m) = JObj (m(''apiVersion'' \<mapsto> JStr (av (jtext_at (JObj m) [''apiVersion''])),
     ''kind'' \<mapsto> JStr (k (jtext_at (JObj m) [''kind''])),
     ''metadata'' := at_object (j_array [''managedFields''] (\<lambda>f. Some (j_string [''apiVersion''] av f))) (m ''metadata'')))"
  by (simp add: j_resource_def j_array_member2)

lemma meta_ok_versions: "is_object j \<Longrightarrow> meta_ok rr action j \<Longrightarrow> meta_ok rr action (j_versions rr act j)"
proof -
  assume "is_object j"
  then obtain m where j: "j = JObj m" by (cases j) (auto simp: is_object_def)
  assume ok: "meta_ok rr action j"
  have "meta_ok rr action (j_resource av k j)" for av k
  proof (cases "\<exists>n. m ''metadata'' = Some (JObj n)")
    case True
    then obtain n where n: "m ''metadata'' = Some (JObj n)" ..
    with ok j metadata_ok_cong [of "n(''managedFields'' := at_array (j_string [''apiVersion''] av) (n ''managedFields''))" n rr action]
    show ?thesis by (simp add: meta_ok_def j_resource_object at_object_def j_array_member)
  next
    case False
    then show ?thesis
      by (cases "m ''metadata''") (auto simp: meta_ok_def j j_resource_object at_object_def split: json.splits)
  qed
  then show "meta_ok rr action (j_versions rr act j)" by (cases act) simp_all
qed

context json_library
begin

lemma metadata_step_yields:
  assumes "rules_ready rr" and "doc D x j" and "meta_ok rr action j"
  shows "yields D (TransformObject L x ''metadata'' (\<lambda>m. RewriteMetadata L rr m action)) (j_object [''metadata''] (j_metadata rr action) j)"
proof -
  have "yields D (RewriteMetadata L rr y action) (j_metadata rr action (JObj m))"
    if "jget j (jpath ''metadata'') = Some (JObj m)" "doc D y (JObj m)" for m y
    using RewriteMetadata_yields [OF assms(1) that(2)] that(1) assms(3) by (simp add: meta_ok_def)
  then show ?thesis
    using TransformObject_yields [OF assms(2), of "''metadata''" "\<lambda>m. RewriteMetadata L rr m action" "j_metadata rr action"] by simp
qed

lemma versions_yields:
  assumes "rules_ready rr" and "doc D x j" and "resource_ok j"
  shows "yields D (case action of Rename \<Rightarrow> RenameResource L rr x | Restore \<Rightarrow> RestoreResource L rr x) (j_versions rr action j)"
  using resource_yields [OF assms] by (cases action) simp_all

end

lemma resource_ok_object: "resource_ok j \<Longrightarrow> is_object j"
  by (simp add: resource_ok_def)

text \<open>Versions and metadata are independent of each other.\<close>

lemma j_versions_metadata_commute:
  assumes "is_object j"
  shows "j_object [''metadata''] (j_metadata rr a) (j_versions rr b j) = j_versions rr b (j_object [''metadata''] (j_metadata rr a) j)"
proof -
  from assms obtain m where j: "j = JObj m" by (cases j) (auto simp: is_object_def)
  let ?m = "m(''metadata'' := at_object (j_metadata rr a) (m ''metadata''))"
  have t: "jtext_at (JObj ?m) [''apiVersion''] = jtext_at (JObj m) [''apiVersion'']" "jtext_at (JObj ?m) [''kind''] = jtext_at (JObj m) [''kind'']"
    by (simp_all add: jtext_at_def)
  have c: "at_object (j_metadata rr a) (at_object (j_array [''managedFields''] (\<lambda>f. Some (g f))) v) =
      at_object (j_array [''managedFields''] (\<lambda>f. Some (g f))) (at_object (j_metadata rr a) v)" for g v
  proof (cases "\<exists>n. v = Some (JObj n)")
    case True
    then obtain n where "v = Some (JObj n)" ..
    then show ?thesis by (simp add: at_object_def j_array_member j_metadata_object fun_upd_twist)
  next
    case False
    then show ?thesis by (cases v) (auto simp: at_object_def split: json.splits)
  qed
  have "j_object [''metadata''] (j_metadata rr a) (j_resource av k j) = j_resource av k (j_object [''metadata''] (j_metadata rr a) j)" for av k
    using t by (simp add: j j_object_member j_resource_object c fun_upd_twist)
  then show ?thesis by (cases b) simp_all
qed

text \<open>A client resource whose metadata, if it has any, are client metadata.\<close>

definition client_payload :: "RewriteRules \<Rightarrow> json \<Rightarrow> bool" where
  "client_payload rr j \<longleftrightarrow> client_resource rr j \<and>
     (case jget j [''metadata''] of None \<Rightarrow> True | Some (JObj n) \<Rightarrow> client_metadata rr (JObj n) | _ \<Rightarrow> False)"

lemma metadata_roundtrip_at:
  assumes "rules_ready rr" and "replaces_wf rr" and "is_object j"
    and "case jget j [''metadata''] of None \<Rightarrow> True | Some (JObj n) \<Rightarrow> client_metadata rr (JObj n) | _ \<Rightarrow> False"
  defines "i \<equiv> j_object [''metadata''] (j_metadata rr Rename) j"
  shows "j_object [''metadata''] (j_metadata rr Restore) i = j" and "meta_ok rr Rename j" and "meta_ok rr Restore i" and "is_object i"
proof -
  from assms(3) obtain m where j: "j = JObj m" by (cases j) (auto simp: is_object_def)
  have "j_object [''metadata''] (j_metadata rr Restore) i = j \<and> meta_ok rr Rename j \<and> meta_ok rr Restore i"
  proof (cases "m ''metadata''")
    case None
    then show ?thesis by (simp add: i_def j j_object_def meta_ok_def)
  next
    case (Some v)
    with assms(4) j obtain n where n: "m ''metadata'' = Some (JObj n)" "client_metadata rr (JObj n)" by (cases v) simp_all
    obtain n' where n': "j_metadata rr Rename (JObj n) = JObj n'" by (simp add: j_metadata_object)
    with n j j_metadata_roundtrip [OF assms(1,2) n(2)] client_metadata_ok [OF assms(1) n(2)] show ?thesis
      by (simp add: i_def j_object_member at_object_def meta_ok_def fun_upd_idem)
  qed
  then show "j_object [''metadata''] (j_metadata rr Restore) i = j" "meta_ok rr Rename j" "meta_ok rr Restore i" by simp_all
  show "is_object i" by (simp add: i_def j j_object_member)
qed

lemma is_object_versions: "is_object j \<Longrightarrow> is_object (j_versions rr a j)"
  by (cases j; cases a) (auto simp: is_object_def j_resource_object)

lemma resource_ok_metadata: "resource_ok j \<Longrightarrow> resource_ok (j_object [''metadata''] (j_metadata rr a) j)"
proof -
  assume ok: "resource_ok j"
  then obtain m where j: "j = JObj m" by (cases j) (auto simp: is_object_def dest!: resource_ok_object)
  let ?i = "j_object [''metadata''] (j_metadata rr a) j"
  have "jget ?i [''metadata'', ''managedFields''] = jget j [''metadata'', ''managedFields'']"
  proof (cases "\<exists>n. m ''metadata'' = Some (JObj n)")
    case True
    then obtain n where "m ''metadata'' = Some (JObj n)" ..
    then show ?thesis by (simp add: j j_object_member at_object_def j_metadata_object)
  next
    case False
    then show ?thesis by (cases "m ''metadata''") (auto simp: j j_object_member at_object_def split: json.splits)
  qed
  note mf = this
  have f: "jget ?i [''apiVersion''] = jget j [''apiVersion'']" "jget ?i [''kind''] = jget j [''kind'']" "is_object ?i"
    by (simp_all add: j j_object_member)
  show ?thesis
    using ok f(3) place_cong(1,5) [OF mf] place_cong(3) [OF f(1)] place_cong(3) [OF f(2)] by (simp only: resource_ok_def)
qed

lemma j_payload_roundtrip:
  assumes "rules_ready rr" and "replaces_wf rr" and "client_payload rr j"
  defines "i \<equiv> j_payload rr Rename j"
  shows "j_payload rr Restore i = j" and "resource_ok j" and "meta_ok rr Rename j" and "resource_ok i" and "meta_ok rr Restore (j_versions rr Restore i)"
proof -
  let ?n = "j_object [''metadata''] (j_metadata rr Rename) j"
  have c: "client_resource rr j" "case jget j [''metadata''] of None \<Rightarrow> True | Some (JObj n) \<Rightarrow> client_metadata rr (JObj n) | _ \<Rightarrow> False"
    using assms(3) by (simp_all add: client_payload_def)
  show ok: "resource_ok j" by (rule client_resource_ok [OF c(1)])
  note o = resource_ok_object [OF ok]
  note m = metadata_roundtrip_at [OF assms(1,2) o c(2)] and r = j_resource_roundtrip [OF assms(1) c(1)]
  show "meta_ok rr Rename j" by (rule m(2))
  have undo: "j_versions rr Restore i = ?n"
    using j_versions_metadata_commute [OF is_object_versions [OF o, of rr Rename], of rr Rename Restore] r(1)
    by (simp add: i_def j_payload_def)
  show "j_payload rr Restore i = j" "meta_ok rr Restore (j_versions rr Restore i)"
    using m(1,3) by (simp_all only: j_payload_def undo)
  show "resource_ok i"
    using resource_ok_metadata r(2) by (simp add: i_def j_payload_def)
qed

end
