(* ===== verification/Affinity.thy ===== *)
theory Affinity
  imports Workloads Payload
begin

text \<open>
  The rewriting of workloads on JSON values: label selectors, node and pod affinities, pod templates
  (\<^verbatim>\<open>pkg/rewriter/affinity.go\<close>, \<^verbatim>\<open>app.go\<close>, \<^verbatim>\<open>core.go\<close>). The model itself is in theory \<open>Workloads\<close>.

  Shown: every operation on texts refines its counterpart on values; a selector selects a set of labels
  after the rewriting exactly when it did so before, so that a service keeps the pods it has.
\<close>

section \<open>Values\<close>

definition j_labels :: "RewriteRules \<Rightarrow> Action \<Rightarrow> string list \<Rightarrow> json \<Rightarrow> json" where
  "j_labels rr action ks = j_map ks (\<lambda>k v. pnr_RewriteNameValue (rr_labelsRewriter rr) k v action)"

definition j_label_keys :: "RewriteRules \<Rightarrow> Action \<Rightarrow> string list \<Rightarrow> json \<Rightarrow> json" where
  "j_label_keys rr action ks = j_strings ks (\<lambda>k. pnr_Rewrite (rr_labelsRewriter rr) k action)"

definition j_requirements :: "RewriteRules \<Rightarrow> Action \<Rightarrow> string \<Rightarrow> json \<Rightarrow> json" where
  "j_requirements rr action k = j_array [k] (\<lambda>r. Some (j_requirement rr action r))"

definition j_node_term :: "RewriteRules \<Rightarrow> Action \<Rightarrow> json \<Rightarrow> json" where
  "j_node_term rr action j = j_requirements rr action ''matchExpressions'' (j_requirements rr action ''matchLabels'' j)"

definition j_label_selector :: "RewriteRules \<Rightarrow> Action \<Rightarrow> json \<Rightarrow> json" where
  "j_label_selector rr action j = j_requirements rr action ''matchExpressions'' (j_labels rr action [''matchLabels''] j)"

abbreviation required :: string where
  "required \<equiv> ''requiredDuringSchedulingIgnoredDuringExecution''"

abbreviation preferred :: string where
  "preferred \<equiv> ''preferredDuringSchedulingIgnoredDuringExecution''"

definition j_node_affinity :: "RewriteRules \<Rightarrow> Action \<Rightarrow> json \<Rightarrow> json" where
  "j_node_affinity rr action j =
     j_array [preferred] (\<lambda>i. Some (j_object [''preference''] (j_node_term rr action) i))
       (j_object [required] (j_array [''nodeSelectorTerms''] (\<lambda>i. Some (j_node_term rr action i))) j)"

definition j_pod_term :: "RewriteRules \<Rightarrow> Action \<Rightarrow> json \<Rightarrow> json" where
  "j_pod_term rr action j =
     j_label_keys rr action [''mismatchLabelKeys''] (j_label_keys rr action [''matchLabelKeys'']
       (j_object [''namespaceSelector''] (j_label_selector rr action)
         (j_string [''topologyKey''] (\<lambda>k. pnr_Rewrite (rr_labelsRewriter rr) k action)
           (j_object [''labelSelector''] (j_label_selector rr action) j))))"

definition j_pod_affinity :: "RewriteRules \<Rightarrow> Action \<Rightarrow> json \<Rightarrow> json" where
  "j_pod_affinity rr action j =
     j_array [preferred] (\<lambda>i. Some (j_object [''podAffinityTerm''] (j_pod_term rr action) i))
       (j_array [required] (\<lambda>i. Some (j_pod_term rr action i)) j)"

definition j_affinity :: "RewriteRules \<Rightarrow> Action \<Rightarrow> json \<Rightarrow> json" where
  "j_affinity rr action j =
     j_object [''podAntiAffinity''] (j_pod_affinity rr action)
       (j_object [''podAffinity''] (j_pod_affinity rr action)
         (j_object [''nodeAffinity''] (j_node_affinity rr action) j))"

definition j_spec_template :: "RewriteRules \<Rightarrow> Action \<Rightarrow> json \<Rightarrow> json" where
  "j_spec_template rr action j =
     j_map [''template'', ''metadata'', ''annotations''] (\<lambda>k v. pnr_RewriteNameValue (rr_annotationsRewriter rr) k v action)
       (j_object [''template'', ''spec'', ''affinity''] (j_affinity rr action)
         (j_labels rr action [''template'', ''spec'', ''nodeSelector'']
           (j_labels rr action [''selector'', ''matchLabels'']
             (j_labels rr action [''template'', ''metadata'', ''labels''] j))))"

definition j_pod :: "RewriteRules \<Rightarrow> Action \<Rightarrow> json \<Rightarrow> json" where
  "j_pod rr action j = j_object [''spec'', ''affinity''] (j_affinity rr action) (j_labels rr action [''spec'', ''nodeSelector''] j)"

section \<open>Well-typed values\<close>

definition object_at :: "(json \<Rightarrow> bool) \<Rightarrow> json \<Rightarrow> string list \<Rightarrow> bool" where
  "object_at P j ks \<longleftrightarrow> (case jget j ks of Some (JObj m) \<Rightarrow> P (JObj m) | _ \<Rightarrow> True)"

definition array_at :: "(json \<Rightarrow> bool) \<Rightarrow> json \<Rightarrow> string list \<Rightarrow> bool" where
  "array_at P j ks \<longleftrightarrow> has_array j ks \<and> list_all P (items_at j ks)"

definition labels_ok :: "RewriteRules \<Rightarrow> Action \<Rightarrow> json \<Rightarrow> string list \<Rightarrow> bool" where
  "labels_ok rr action = map_ok (rr_labelsRewriter rr) action"

definition node_term_ok :: "json \<Rightarrow> bool" where
  "node_term_ok j \<longleftrightarrow> array_at requirement_ok j [''matchLabels''] \<and> array_at requirement_ok j [''matchExpressions'']"

definition label_selector_ok :: "RewriteRules \<Rightarrow> Action \<Rightarrow> json \<Rightarrow> bool" where
  "label_selector_ok rr action j \<longleftrightarrow> labels_ok rr action j [''matchLabels''] \<and> array_at requirement_ok j [''matchExpressions'']"

definition node_affinity_ok :: "json \<Rightarrow> bool" where
  "node_affinity_ok j \<longleftrightarrow> object_at (\<lambda>t. array_at node_term_ok t [''nodeSelectorTerms'']) j [required] \<and>
     array_at (\<lambda>i. object_at node_term_ok i [''preference'']) j [preferred]"

definition pod_term_ok :: "RewriteRules \<Rightarrow> Action \<Rightarrow> json \<Rightarrow> bool" where
  "pod_term_ok rr action j \<longleftrightarrow> object_at (label_selector_ok rr action) j [''labelSelector''] \<and> has_text j [''topologyKey''] \<and>
     object_at (label_selector_ok rr action) j [''namespaceSelector''] \<and> has_text_array j [''matchLabelKeys''] \<and>
     has_text_array j [''mismatchLabelKeys'']"

definition pod_affinity_ok :: "RewriteRules \<Rightarrow> Action \<Rightarrow> json \<Rightarrow> bool" where
  "pod_affinity_ok rr action j \<longleftrightarrow> array_at (pod_term_ok rr action) j [required] \<and>
     array_at (\<lambda>i. object_at (pod_term_ok rr action) i [''podAffinityTerm'']) j [preferred]"

definition affinity_ok :: "RewriteRules \<Rightarrow> Action \<Rightarrow> json \<Rightarrow> bool" where
  "affinity_ok rr action j \<longleftrightarrow> object_at node_affinity_ok j [''nodeAffinity''] \<and>
     object_at (pod_affinity_ok rr action) j [''podAffinity''] \<and> object_at (pod_affinity_ok rr action) j [''podAntiAffinity'']"

definition spec_template_ok :: "RewriteRules \<Rightarrow> Action \<Rightarrow> json \<Rightarrow> bool" where
  "spec_template_ok rr action j \<longleftrightarrow> labels_ok rr action j [''template'', ''metadata'', ''labels''] \<and>
     labels_ok rr action j [''selector'', ''matchLabels''] \<and> labels_ok rr action j [''template'', ''spec'', ''nodeSelector''] \<and>
     object_at (affinity_ok rr action) j [''template'', ''spec'', ''affinity''] \<and>
     map_ok (rr_annotationsRewriter rr) action j [''template'', ''metadata'', ''annotations'']"

definition pod_ok :: "RewriteRules \<Rightarrow> Action \<Rightarrow> json \<Rightarrow> bool" where
  "pod_ok rr action j \<longleftrightarrow> labels_ok rr action j [''spec'', ''nodeSelector''] \<and> object_at (affinity_ok rr action) j [''spec'', ''affinity'']"

lemma at_cong:
  assumes "jget i ks = jget j ks"
  shows "object_at P i ks = object_at P j ks" and "array_at P i ks = array_at P j ks" and "labels_ok rr action i ks = labels_ok rr action j ks"
  using assms place_cong(1,5) [OF assms] map_ok_cong [OF assms] by (simp_all add: object_at_def array_at_def labels_ok_def)

lemma jget_j_places [simp]:
  assumes "forks ks ls"
  shows "jget (j_labels rr action ks j) ls = jget j ls" and "jget (j_label_keys rr action ks j) ls = jget j ls"
  using assms by (simp_all add: j_labels_def j_label_keys_def)

lemma jget_j_requirements [simp]: "forks [k] ls \<Longrightarrow> jget (j_requirements rr action k j) ls = jget j ls"
  by (simp add: j_requirements_def)

section \<open>Refinement\<close>

context json_library
begin

lemma labels_yields:
  assumes "rules_ready rr" and "doc D x j" and "plain_path p" and "labels_ok rr action j (jpath p)"
  shows "yields D (RewriteLabelsMap L rr x p action) (j_labels rr action (jpath p) j)"
  using RewriteLabelsMap_yields [OF assms(1-3)] assms(4) by (simp add: labels_ok_def j_labels_def)

lemma label_keys_yields:
  assumes "rules_ready rr" and "doc D x j" and "plain_path p" and "has_text_array j (jpath p)"
  shows "yields D (TransformArrayOfStrings L x p (\<lambda>k. pnr_Rewrite (rr_labelsRewriter rr) k action)) (j_label_keys rr action (jpath p) j)"
  unfolding j_label_keys_def
  by (rule TransformArrayOfStrings_yields [OF assms(2-4)])
    (use ready_rewriters_text(3) [OF assms(1) utf8_item_text [OF assms(2)] utf8_Nil] in blast)

lemma array_yields:
  assumes "doc D x j" and "plain_path p" and "p \<noteq> Root" and "array_at P j (jpath p)"
    and "\<And>v y. P v \<Longrightarrow> doc D y v \<Longrightarrow> yields D (F y) (f v)"
  shows "yields D (RewriteArray L x p F) (j_array (jpath p) (\<lambda>v. Some (f v)) j)"
  by (rule RewriteArray_yields [OF assms(1-3)]) (use assms(4,5) in \<open>auto simp: array_at_def list_all_iff intro!: item_ok_Some\<close>)

lemma object_yields:
  assumes "doc D x j" and "plain_path p" and "object_at P j (jpath p)"
    and "\<And>v y. P v \<Longrightarrow> doc D y v \<Longrightarrow> yields D (F y) (f v)"
  shows "yields D (TransformObject L x p F) (j_object (jpath p) f j)"
  by (rule TransformObject_yields [OF assms(1,2)]) (use assms(3,4) in \<open>auto simp: object_at_def\<close>)

lemma requirements_yields:
  assumes "rules_ready rr" and "doc D x j" and "p \<in> {''matchLabels'', ''matchExpressions''}" and "array_at requirement_ok j [p]"
  shows "yields D (RewriteArray L x p (\<lambda>item. rewriteSelectorRequirement L rr item action)) (j_requirements rr action p j)"
proof -
  have "jpath p = [p]" "plain_path p" "p \<noteq> Root" using assms(3) by (auto simp: Root_def)
  then show ?thesis
    using array_yields [OF assms(2), of p requirement_ok "\<lambda>item. rewriteSelectorRequirement L rr item action" "j_requirement rr action"]
      rewriteSelectorRequirement_yields [OF assms(1)] assms(4) by (simp add: j_requirements_def)
qed

lemma node_term_yields:
  assumes "rules_ready rr" and "doc D x j" and "node_term_ok j"
  shows "yields D (rewriteNodeSelectorTerm L rr x action) (j_node_term rr action j)"
  unfolding rewriteNodeSelectorTerm_def j_node_term_def
  by (rule yields_bind [OF requirements_yields [OF assms(1,2)] requirements_yields [OF assms(1)]])
    (use assms(3) in \<open>simp_all add: node_term_ok_def at_cong(2) [of "j_requirements rr action _ j" _ j]\<close>)

lemma label_selector_yields:
  assumes "rules_ready rr" and "doc D x j" and "label_selector_ok rr action j"
  shows "yields D (rewriteLabelSelector L rr x action) (j_label_selector rr action j)"
  unfolding rewriteLabelSelector_def j_label_selector_def
  by (rule yields_bind [OF labels_yields [OF assms(1,2), of "''matchLabels''", simplified] requirements_yields [OF assms(1)]])
    (use assms(3) in \<open>simp_all add: label_selector_ok_def at_cong(2) [of "j_labels rr action _ j" _ j]\<close>)

lemma node_affinity_yields:
  assumes "rules_ready rr" and "doc D x j" and "node_affinity_ok j"
  shows "yields D (rewriteNodeAffinity L rr x action) (j_node_affinity rr action j)"
  unfolding rewriteNodeAffinity_def j_node_affinity_def
proof (rule yields_bind)
  let ?f = "j_array [''nodeSelectorTerms''] (\<lambda>i. Some (j_node_term rr action i))"
  note ok = assms(3) [unfolded node_affinity_ok_def]
  show "yields D (TransformObject L x required (\<lambda>t. RewriteArray L t ''nodeSelectorTerms'' (\<lambda>i. rewriteNodeSelectorTerm L rr i action)))
      (j_object [required] ?f j)"
    using object_yields [OF assms(2), of required "\<lambda>t. array_at node_term_ok t [''nodeSelectorTerms'']" _ ?f]
      array_yields [of _ _ "''nodeSelectorTerms''" node_term_ok _ "j_node_term rr action"] node_term_yields [OF assms(1)] ok
    by (simp add: Root_def)
  show "yields D (RewriteArray L y preferred (\<lambda>i. TransformObject L i ''preference'' (\<lambda>t. rewriteNodeSelectorTerm L rr t action)))
      (j_array [preferred] (\<lambda>i. Some (j_object [''preference''] (j_node_term rr action) i)) (j_object [required] ?f j))"
    if "doc D y (j_object [required] ?f j)" for y
    using array_yields [OF that, of preferred "\<lambda>i. object_at node_term_ok i [''preference'']" _ "j_object [''preference''] (j_node_term rr action)"]
      object_yields [of _ _ "''preference''" node_term_ok _ "j_node_term rr action"] node_term_yields [OF assms(1)] ok
      at_cong(2) [of "j_object [required] ?f j" "[preferred]" j]
    by (simp add: Root_def)
qed

lemma label_selector_at_yields:
  assumes "rules_ready rr" and "doc D x j" and "p \<in> {''labelSelector'', ''namespaceSelector''}" and "object_at (label_selector_ok rr action) j [p]"
  shows "yields D (TransformObject L x p (\<lambda>s. rewriteLabelSelector L rr s action)) (j_object [p] (j_label_selector rr action) j)"
proof -
  have "jpath p = [p]" "plain_path p" using assms(3) by auto
  then show ?thesis
    using object_yields [OF assms(2), of p "label_selector_ok rr action" _ "j_label_selector rr action"] label_selector_yields [OF assms(1)] assms(4)
    by simp
qed

lemma topology_yields:
  assumes "rules_ready rr" and "doc D x j" and "has_text j [''topologyKey'']"
  shows "yields D (TransformString L x ''topologyKey'' (\<lambda>k. pnr_Rewrite (rr_labelsRewriter rr) k action))
    (j_string [''topologyKey''] (\<lambda>k. pnr_Rewrite (rr_labelsRewriter rr) k action) j)"
  using TransformString_yields [OF assms(2), of "''topologyKey''"] assms(3)
    ready_rewriters_text(3) [OF assms(1) utf8_jtext_at [OF assms(2)] utf8_Nil] by simp

lemma pod_term_yields:
  assumes "rules_ready rr" and "doc D x j" and "pod_term_ok rr action j"
  shows "yields D (rewritePodAffinityTerm L rr x action) (j_pod_term rr action j)"
proof -
  let ?l = "j_object [''labelSelector''] (j_label_selector rr action) j"
  let ?t = "j_string [''topologyKey''] (\<lambda>k. pnr_Rewrite (rr_labelsRewriter rr) k action) ?l"
  let ?n = "j_object [''namespaceSelector''] (j_label_selector rr action) ?t"
  let ?m = "j_label_keys rr action [''matchLabelKeys''] ?n"
  have ok: "object_at (label_selector_ok rr action) j [''labelSelector'']" "has_text ?l [''topologyKey'']"
    "object_at (label_selector_ok rr action) ?t [''namespaceSelector'']" "has_text_array ?n [''matchLabelKeys'']"
    "has_text_array ?m [''mismatchLabelKeys'']"
    using assms(3) place_cong(3) [of ?l "[''topologyKey'']" j] at_cong(1) [of ?t "[''namespaceSelector'']" j]
      place_cong(2) [of ?n "[''matchLabelKeys'']" j] place_cong(2) [of ?m "[''mismatchLabelKeys'']" j]
    by (simp_all add: pod_term_ok_def)
  show ?thesis
    unfolding rewritePodAffinityTerm_def j_pod_term_def
    by (rule yields_bind [OF label_selector_at_yields [OF assms(1,2) _ ok(1)] yields_bind [OF topology_yields [OF assms(1) _ ok(2)]
        yields_bind [OF label_selector_at_yields [OF assms(1) _ _ ok(3)] yields_bind [OF
          label_keys_yields [OF assms(1), of _ _ "''matchLabelKeys''", simplified, OF _ ok(4)]
          label_keys_yields [OF assms(1), of _ _ "''mismatchLabelKeys''", simplified, OF _ ok(5)]]]]]) simp_all
qed

lemma pod_affinity_yields:
  assumes "rules_ready rr" and "doc D x j" and "pod_affinity_ok rr action j"
  shows "yields D (rewritePodAffinity L rr x action) (j_pod_affinity rr action j)"
  unfolding rewritePodAffinity_def j_pod_affinity_def
proof (rule yields_bind)
  let ?r = "j_array [required] (\<lambda>i. Some (j_pod_term rr action i)) j"
  note ok = assms(3) [unfolded pod_affinity_ok_def]
  show "yields D (RewriteArray L x required (\<lambda>t. rewritePodAffinityTerm L rr t action)) ?r"
    using array_yields [OF assms(2), of required "pod_term_ok rr action" _ "j_pod_term rr action"] pod_term_yields [OF assms(1)] ok
    by (simp add: Root_def)
  show "yields D (RewriteArray L y preferred (\<lambda>t. TransformObject L t ''podAffinityTerm'' (\<lambda>t. rewritePodAffinityTerm L rr t action)))
      (j_array [preferred] (\<lambda>i. Some (j_object [''podAffinityTerm''] (j_pod_term rr action) i)) ?r)" if "doc D y ?r" for y
    using array_yields [OF that, of preferred "\<lambda>i. object_at (pod_term_ok rr action) i [''podAffinityTerm'']" _ "j_object [''podAffinityTerm''] (j_pod_term rr action)"]
      object_yields [of _ _ "''podAffinityTerm''" "pod_term_ok rr action" _ "j_pod_term rr action"] pod_term_yields [OF assms(1)] ok
      at_cong(2) [of ?r "[preferred]" j]
    by (simp add: Root_def)
qed

lemma affinity_yields:
  assumes "rules_ready rr" and "doc D x j" and "plain_path p" and "object_at (affinity_ok rr action) j (jpath p)"
  shows "yields D (RewriteAffinity L rr x p action) (j_object (jpath p) (j_affinity rr action) j)"
  unfolding RewriteAffinity_def
proof (rule object_yields [OF assms(2-4)])
  fix v y
  assume v: "affinity_ok rr action v" "doc D y v"
  let ?n = "j_object [''nodeAffinity''] (j_node_affinity rr action) v"
  let ?p = "j_object [''podAffinity''] (j_pod_affinity rr action) ?n"
  have ok: "object_at node_affinity_ok v [''nodeAffinity'']" "object_at (pod_affinity_ok rr action) ?n [''podAffinity'']"
    "object_at (pod_affinity_ok rr action) ?p [''podAntiAffinity'']"
    using v(1) at_cong(1) [of ?n "[''podAffinity'']" v] at_cong(1) [of ?p "[''podAntiAffinity'']" v] by (simp_all add: affinity_ok_def)
  have pod: "yields D (TransformObject L y' k (\<lambda>i. rewritePodAffinity L rr i action)) (j_object [k] (j_pod_affinity rr action) u)"
    if "doc D y' u" "object_at (pod_affinity_ok rr action) u [k]" "k \<in> {''podAffinity'', ''podAntiAffinity''}" for y' u k
  proof -
    have "jpath k = [k]" "plain_path k" using that(3) by auto
    then show ?thesis
      using object_yields [OF that(1), of k "pod_affinity_ok rr action" _ "j_pod_affinity rr action"] pod_affinity_yields [OF assms(1)] that(2) by simp
  qed
  have node: "yields D (TransformObject L y ''nodeAffinity'' (\<lambda>i. rewriteNodeAffinity L rr i action)) ?n"
    using object_yields [OF v(2), of "''nodeAffinity''" node_affinity_ok _ "j_node_affinity rr action"] node_affinity_yields [OF assms(1)] ok(1) by simp
  show "yields D (res_bind (TransformObject L y ''nodeAffinity'' (\<lambda>i. rewriteNodeAffinity L rr i action)) (\<lambda>y.
      res_bind (TransformObject L y ''podAffinity'' (\<lambda>i. rewritePodAffinity L rr i action)) (\<lambda>y.
      TransformObject L y ''podAntiAffinity'' (\<lambda>i. rewritePodAffinity L rr i action)))) (j_affinity rr action v)"
    unfolding j_affinity_def
    by (rule yields_bind [OF node yields_bind [OF pod [OF _ ok(2)] pod [OF _ ok(3)]]]) simp_all
qed

lemma spec_template_yields:
  assumes "rules_ready rr" and "doc D x j" and "plain_path p" and "object_at (spec_template_ok rr action) j (jpath p)"
  shows "yields D (RewriteSpecTemplateLabelsAnno L rr x p action) (j_object (jpath p) (j_spec_template rr action) j)"
  unfolding RewriteSpecTemplateLabelsAnno_def
proof (rule object_yields [OF assms(2-4)])
  fix v y
  assume v: "spec_template_ok rr action v" "doc D y v"
  let ?l = "j_labels rr action [''template'', ''metadata'', ''labels''] v"
  let ?s = "j_labels rr action [''selector'', ''matchLabels''] ?l"
  let ?n = "j_labels rr action [''template'', ''spec'', ''nodeSelector''] ?s"
  let ?a = "j_object [''template'', ''spec'', ''affinity''] (j_affinity rr action) ?n"
  have ok: "labels_ok rr action v [''template'', ''metadata'', ''labels'']" "labels_ok rr action ?l [''selector'', ''matchLabels'']"
    "labels_ok rr action ?s [''template'', ''spec'', ''nodeSelector'']" "object_at (affinity_ok rr action) ?n [''template'', ''spec'', ''affinity'']"
    "map_ok (rr_annotationsRewriter rr) action ?a [''template'', ''metadata'', ''annotations'']"
    using v(1) at_cong(3) [of ?l "[''selector'', ''matchLabels'']" v] at_cong(3) [of ?s "[''template'', ''spec'', ''nodeSelector'']" v]
      at_cong(1) [of ?n "[''template'', ''spec'', ''affinity'']" v] map_ok_cong [of ?a "[''template'', ''metadata'', ''annotations'']" v]
    by (simp_all add: spec_template_ok_def)
  show "yields D (res_bind (RewriteLabelsMap L rr y ''template.metadata.labels'' action) (\<lambda>y.
      res_bind (RewriteLabelsMap L rr y ''selector.matchLabels'' action) (\<lambda>y.
      res_bind (RewriteLabelsMap L rr y ''template.spec.nodeSelector'' action) (\<lambda>y.
      res_bind (RewriteAffinity L rr y ''template.spec.affinity'' action) (\<lambda>y.
      RewriteAnnotationsMap L rr y ''template.metadata.annotations'' action))))) (j_spec_template rr action v)"
    unfolding j_spec_template_def
    by (rule yields_bind [OF labels_yields [OF assms(1) v(2), of "''template.metadata.labels''", simplified, OF ok(1)]
        yields_bind [OF labels_yields [OF assms(1), of _ _ "''selector.matchLabels''", simplified, OF _ ok(2)]
        yields_bind [OF labels_yields [OF assms(1), of _ _ "''template.spec.nodeSelector''", simplified, OF _ ok(3)]
        yields_bind [OF affinity_yields [OF assms(1), of _ _ "''template.spec.affinity''", simplified, OF _ ok(4)]
          RewriteAnnotationsMap_yields [OF assms(1), of _ _ "''template.metadata.annotations''", simplified, OF _ ok(5)]]]]]) simp_all
qed

lemma pod_yields:
  assumes "rules_ready rr" and "doc D x j" and "pod_ok rr action j"
  shows "yields D (res_bind (RewriteLabelsMap L rr x ''spec.nodeSelector'' action) (\<lambda>x. RewriteAffinity L rr x ''spec.affinity'' action))
    (j_pod rr action j)"
proof -
  let ?n = "j_labels rr action [''spec'', ''nodeSelector''] j"
  have ok: "labels_ok rr action j [''spec'', ''nodeSelector'']" "object_at (affinity_ok rr action) ?n [''spec'', ''affinity'']"
    using assms(3) at_cong(1) [of ?n "[''spec'', ''affinity'']" j] by (simp_all add: pod_ok_def)
  show ?thesis
    unfolding j_pod_def
    by (rule yields_bind [OF labels_yields [OF assms(1,2), of "''spec.nodeSelector''", simplified, OF ok(1)]
        affinity_yields [OF assms(1), of _ _ "''spec.affinity''", simplified, OF _ ok(2)]])
qed

end

text \<open>
  The resources that are rewritten alone or in a list: the list kind, the operation, the shape it
  relies on and the value it yields.
\<close>

definition workloads :: "'r jsonlib \<Rightarrow> RewriteRules \<Rightarrow> Action \<Rightarrow> (string \<times> (bytes \<Rightarrow> bytes res) \<times> (json \<Rightarrow> bool) \<times> (json \<Rightarrow> json)) list" where
  "workloads L rr action =
     (let template = (\<lambda>j. object_at (spec_template_ok rr action) j [''spec''], j_object [''spec''] (j_spec_template rr action)) in
      [(''DeploymentList'', \<lambda>x. RewriteDeploymentOrList L rr x action, template),
       (''DaemonSetList'', \<lambda>x. RewriteDaemonSetOrList L rr x action, template),
       (''StatefulSetList'', \<lambda>x. RewriteStatefulSetOrList L rr x action, template),
       (''JobList'', \<lambda>x. RewriteJobOrList L rr x action, template),
       (''PodList'', \<lambda>x. RewritePodOrList L rr x action, pod_ok rr action, j_pod rr action),
       (''ServiceList'', \<lambda>x. RewriteServiceOrList L rr x action, \<lambda>j. labels_ok rr action j [''spec'', ''selector''],
          j_labels rr action [''spec'', ''selector'']),
       (''PodDisruptionBudgetList'', \<lambda>x. RewritePDBOrList L rr x action, \<lambda>j. labels_ok rr action j [''spec'', ''selector'', ''matchLabels''],
          j_labels rr action [''spec'', ''selector'', ''matchLabels'']),
       (''EventList'', \<lambda>x. RewriteEventOrList L rr x action, \<lambda>j. object_at (ref_ok ''apiVersion'') j [''involvedObject''],
          j_object [''involvedObject''] (j_gvk rr action ''apiVersion''))])"

context json_library
begin

lemma resource_or_list_yields:
  assumes "doc D x j" and "has_text j [''kind'']"
    and "if jtext_at j [''kind''] = lk then array_at ok j [''items''] else ok j"
    and "\<And>v y. ok v \<Longrightarrow> doc D y v \<Longrightarrow> yields D (F y) (f v)"
  shows "yields D (RewriteResourceOrList L x lk F) (if jtext_at j [''kind''] = lk then j_array [''items''] (\<lambda>v. Some (f v)) j else f j)"
proof -
  have "yields D (RewriteResourceOrList L x lk F) (if jtext_at j [''kind''] \<noteq> lk then f j else j_array [''items''] (\<lambda>v. Some (f v)) j)"
    by (rule RewriteResourceOrList_yields [OF assms(1,2)])
      (use assms(1,3,4) in \<open>auto simp: array_at_def list_all_iff split: if_splits intro!: item_ok_Some\<close>)
  then show ?thesis by (auto split: if_splits)
qed

lemma workloads_yields:
  assumes "rules_ready rr" and "doc D x j" and "has_text j [''kind'']" and "(lk, F, ok, f) \<in> set (workloads L rr action)"
    and "if jtext_at j [''kind''] = lk then array_at ok j [''items''] else ok j"
  shows "yields D (F x) (if jtext_at j [''kind''] = lk then j_array [''items''] (\<lambda>v. Some (f v)) j else f j)"
proof -
  have t: "yields D (RewriteSpecTemplateLabelsAnno L rr y ''spec'' action) (j_object [''spec''] (j_spec_template rr action) v)"
    if "object_at (spec_template_ok rr action) v [''spec'']" "doc D y v" for v y
    using spec_template_yields [OF assms(1) that(2), of "''spec''"] that(1) by simp
  have l: "yields D (RewriteLabelsMap L rr y p action) (j_labels rr action (jpath p) v)"
    if "labels_ok rr action v (jpath p)" "doc D y v" "p \<in> {''spec.selector'', ''spec.selector.matchLabels''}" for v y p
    using labels_yields [OF assms(1) that(2) _ that(1)] that(3) by auto
  have e: "yields D (TransformObject L y ''involvedObject'' (\<lambda>i. RewriteGVK L rr i action ''apiVersion''))
      (j_object [''involvedObject''] (j_gvk rr action ''apiVersion'') v)"
    if "object_at (ref_ok ''apiVersion'') v [''involvedObject'']" "doc D y v" for v y
    using object_yields [OF that(2), of "''involvedObject''" "ref_ok ''apiVersion''" _ "j_gvk rr action ''apiVersion''"] that(1)
      RewriteGVK_yields [OF assms(1), of _ _ "''apiVersion''"] by simp
  have "\<exists>G. F = (\<lambda>x. RewriteResourceOrList L x lk G) \<and> (\<forall>v y. ok v \<longrightarrow> doc D y v \<longrightarrow> yields D (G y) (f v))"
    using assms(4) t pod_yields [OF assms(1)] l [of _ "''spec.selector''"] l [of _ "''spec.selector.matchLabels''"] e
    by (auto simp: workloads_def RewriteDeploymentOrList_def RewriteDaemonSetOrList_def RewriteStatefulSetOrList_def RewriteJobOrList_def
        RewritePodOrList_def RewriteServiceOrList_def RewritePDBOrList_def RewriteEventOrList_def RewriteAPIVersionAndKind_def Let_def)
  then obtain G where "F = (\<lambda>x. RewriteResourceOrList L x lk G)" "\<And>v y. ok v \<Longrightarrow> doc D y v \<Longrightarrow> yields D (G y) (f v)" by blast
  then show ?thesis using resource_or_list_yields [OF assms(2,3,5)] by simp
qed

end

section \<open>Selection\<close>

text \<open>A set of labels is selected by a set of labels it includes. Client labels survive the rewriting.\<close>

definition client_members :: "PrefixedNameRewriter \<Rightarrow> (string \<Rightarrow> json option) \<Rightarrow> bool" where
  "client_members p m \<longleftrightarrow> no_clash (\<lambda>n v. pnr_RewriteNameValue p n v Rename) m \<and>
     (\<forall>n v. m n = Some v \<longrightarrow> (case v of JStr s \<Rightarrow> name_survives p n s | _ \<Rightarrow> False))"

lemma map_image_le:
  assumes "no_clash f m" and "no_clash f n"
    and "\<And>k v. m k = Some v \<or> n k = Some v \<Longrightarrow> (case map_entry f k v of (k', v') \<Rightarrow> map_entry g k' v' = (k, v))"
  shows "map_image f m \<subseteq>\<^sub>m map_image f n \<longleftrightarrow> m \<subseteq>\<^sub>m n"
proof
  assume le: "m \<subseteq>\<^sub>m n"
  have "map_image f n k' = Some u" if "map_image f m k' = Some u" for k' u
  proof -
    from that obtain k v where "m k = Some v" "map_entry f k v = (k', u)" unfolding map_image_Some [OF assms(1)] by blast
    moreover from this le have "n k = Some v" by (metis domI map_le_def)
    ultimately show ?thesis unfolding map_image_Some [OF assms(2)] by blast
  qed
  then show "map_image f m \<subseteq>\<^sub>m map_image f n" by (metis domD map_le_def)
next
  assume le: "map_image f m \<subseteq>\<^sub>m map_image f n"
  have "n k = Some v" if "m k = Some v" for k v
  proof -
    obtain k' u where e: "map_entry f k v = (k', u)" by fastforce
    then have "map_image f m k' = Some u" using that unfolding map_image_Some [OF assms(1)] by blast
    with le have "map_image f n k' = Some u" by (metis domI map_le_def)
    then obtain l w where "n l = Some w" "map_entry f l w = (k', u)" unfolding map_image_Some [OF assms(2)] by blast
    with assms(3) [of l w] assms(3) [of k v] that e show ?thesis by simp
  qed
  then show "m \<subseteq>\<^sub>m n" by (metis domD map_le_def)
qed

lemma members_at_j_map: "members_at (j_map ks f j) ks = map_image f (members_at j ks)"
proof (cases "members_at j ks = Map.empty")
  case True
  then show ?thesis by (simp add: j_map_def map_image_def)
next
  case False
  then obtain m where "jget j ks = Some (JObj m)" by (auto simp: members_at_def split: option.splits json.splits)
  with False show ?thesis using jget_settable [of j ks] by (simp add: j_map_def members_at_def)
qed

lemma selected_iff:
  assumes "replace_wf R" and "p = NewPrefixedNameRewriter R" and "client_members p (members_at i ks)" and "client_members p (members_at j ls)"
  shows "members_at (j_map ks (\<lambda>n v. pnr_RewriteNameValue p n v Rename) i) ks \<subseteq>\<^sub>m members_at (j_map ls (\<lambda>n v. pnr_RewriteNameValue p n v Rename) j) ls
    \<longleftrightarrow> members_at i ks \<subseteq>\<^sub>m members_at j ls"
proof -
  let ?f = "\<lambda>n v. pnr_RewriteNameValue p n v Rename" and ?g = "\<lambda>n v. pnr_RewriteNameValue p n v Restore"
  have "case map_entry ?f k v of (k', v') \<Rightarrow> map_entry ?g k' v' = (k, v)"
    if kv: "members_at i ks k = Some v \<or> members_at j ls k = Some v" for k v
  proof -
    obtain t where t: "v = JStr t" "name_survives p k t" using kv assms(3,4) unfolding client_members_def case_JStr by blast
    then have "pnr_restore p (fst (pnr_rename p k t)) (snd (pnr_rename p k t)) = (k, t)"
      using survives_roundtrip [OF assms(1)] assms(2) by (auto simp: case_prod_beta)
    with t show ?thesis by (simp add: pnr_RewriteNameValue_def)
  qed
  with assms(3,4) have "map_image ?f (members_at i ks) \<subseteq>\<^sub>m map_image ?f (members_at j ls) \<longleftrightarrow> members_at i ks \<subseteq>\<^sub>m members_at j ls"
    unfolding client_members_def by (intro map_image_le [where g = ?g]) simp_all
  then show ?thesis by (simp add: members_at_j_map)
qed

section \<open>Properties\<close>


text \<open>
  C15. Selectors keep selecting: a service and the metadata of a pod, both of the client, are renamed without
  an error, and on the server the service selects the pod exactly when it did for the client.
\<close>

theorem selectors_keep_selecting:
  assumes "json_library L D V" and "rules_ready rr" and "replaces_wf rr"
    and "doc D svc js" and "has_text js [''kind'']" and "jtext_at js [''kind''] \<noteq> ''ServiceList''" and "labels_ok rr Rename js [''spec'', ''selector'']"
    and "doc D meta jm" and "metadata_ok rr Rename jm"
    and "client_members (rr_labelsRewriter rr) (members_at js [''spec'', ''selector''])"
    and "client_members (rr_labelsRewriter rr) (members_at jm [''labels''])"
  shows "\<exists>svc' js' meta' jm'. RewriteServiceOrList L rr svc Rename = Inr svc' \<and> doc D svc' js' \<and>
    RewriteMetadata L rr meta Rename = Inr meta' \<and> doc D meta' jm' \<and>
    (members_at js' [''spec'', ''selector''] \<subseteq>\<^sub>m members_at jm' [''labels''] \<longleftrightarrow>
     members_at js [''spec'', ''selector''] \<subseteq>\<^sub>m members_at jm [''labels''])"
proof -
  let ?js = "j_labels rr Rename [''spec'', ''selector''] js" and ?jm = "j_metadata rr Rename jm"
  have "yields D (RewriteServiceOrList L rr svc Rename) ?js"
    using json_library.workloads_yields [OF assms(1,2,4,5), of "''ServiceList''" "\<lambda>x. RewriteServiceOrList L rr x Rename" _ _ Rename] assms(6,7)
    by (simp add: workloads_def Let_def)
  moreover have "yields D (RewriteMetadata L rr meta Rename) ?jm"
    by (rule json_library.RewriteMetadata_yields [OF assms(1,2,8,9)])
  moreover have "jget ?jm [''labels''] = jget (j_labels rr Rename [''labels''] jm) [''labels'']"
    by (simp add: j_metadata_def j_labels_def)
  then have "members_at ?jm [''labels''] = members_at (j_labels rr Rename [''labels''] jm) [''labels'']" by (simp add: members_at_def)
  moreover have "members_at ?js [''spec'', ''selector''] \<subseteq>\<^sub>m members_at (j_labels rr Rename [''labels''] jm) [''labels''] \<longleftrightarrow>
      members_at js [''spec'', ''selector''] \<subseteq>\<^sub>m members_at jm [''labels'']"
    unfolding j_labels_def
    by (rule selected_iff [OF _ _ assms(10,11)]) (use ready_rewriters [OF assms(2)] assms(3) in \<open>simp_all add: replaces_wf_def\<close>)
  ultimately show ?thesis unfolding yields_def by metis
qed

section \<open>Concrete workloads\<close>

definition sample_pod :: rj where
  "sample_pod = RObj [(''kind'', RStr ''Pod''), (''spec'', RObj [(''nodeSelector'', RObj [(''g.io/a'', RStr ''v'')]),
     (''affinity'', RObj [(''podAffinity'', RObj [(required, RArr [RObj [(''topologyKey'', RStr ''g.io/a''),
       (''labelSelector'', RObj [(''matchExpressions'', RArr [RObj [(''key'', RStr ''g.io/a''), (''values'', RArr [RStr ''v''])]])])]])])])])]"


definition sample_service :: rj where
  "sample_service = RObj [(''kind'', RStr ''Service''), (''spec'', RObj [(''selector'', RObj [(''g.io/a'', RStr ''v'')])])]"

definition sample_pod_meta :: rj where
  "sample_pod_meta = RObj [(''name'', RStr ''n''), (''labels'', RObj [(''g.io/a'', RStr ''v'')])]"

theorem selectors_keep_selecting_witness:
  "\<exists>svc' js' meta' jm'. RewriteServiceOrList ref_lib (rr_Init sample_rules) (Some (print sample_service)) Rename = Inr svc' \<and> doc ref_D svc' js' \<and>
    RewriteMetadata ref_lib (rr_Init sample_rules) (Some (print sample_pod_meta)) Rename = Inr meta' \<and> doc ref_D meta' jm' \<and>
    members_at js' [''spec'', ''selector''] \<subseteq>\<^sub>m members_at jm' [''labels'']"
proof -
  let ?rr = "rr_Init sample_rules" and ?js = "rj_abs sample_service" and ?jm = "rj_abs sample_pod_meta"
  have d: "doc ref_D (Some (print sample_service)) ?js" "doc ref_D (Some (print sample_pod_meta)) ?jm" by (rule ref_doc, code_simp)+
  have w: "replaces_wf ?rr" by code_simp
  have k: "has_text ?js [''kind'']" "jtext_at ?js [''kind''] \<noteq> ''ServiceList''" by (simp_all add: sample_service_def has_text_def jtext_at_def)
  have l: "labels_ok ?rr Rename ?js [''spec'', ''selector'']" "metadata_ok ?rr Rename ?jm"
    by (auto simp: labels_ok_def metadata_ok_def map_ok_def has_text_map_def has_text_array_def has_array_def items_at_def members_at_def
      no_clash_def sample_service_def sample_pod_meta_def split: if_splits)
  have "name_survives (rr_labelsRewriter ?rr) ''g.io/a'' ''v''" by code_simp
  then have c: "client_members (rr_labelsRewriter ?rr) (members_at ?js [''spec'', ''selector''])"
    "client_members (rr_labelsRewriter ?rr) (members_at ?jm [''labels''])"
    by (auto simp: client_members_def no_clash_def members_at_def sample_service_def sample_pod_meta_def split: if_splits)
  have "members_at ?js [''spec'', ''selector''] \<subseteq>\<^sub>m members_at ?jm [''labels'']"
    by (simp add: members_at_def sample_service_def sample_pod_meta_def)
  with selectors_keep_selecting [OF ref.json_library_axioms sample_rules_ready w d(1) k l(1) d(2) l(2) c] show ?thesis by auto
qed

end
