(* ===== verification/Rbac.thy ===== *)
theory Rbac
  imports Metadata
begin

text \<open>
  Rules that name groups and resources: \<^verbatim>\<open>pkg/rewriter/rbac.go\<close>, \<^verbatim>\<open>admission_configuration.go\<close> and
  \<^verbatim>\<open>admission_policy.go\<close>. The closure over \<^verbatim>\<open>apiGroups\<close> sets a flag of the enclosing function; the flag
  is the state of the array transformer.

  Shown: a rule is renamed and restored as a function on JSON values, a client rule survives the
  round trip, and the merge patch of a webhook configuration is restored where it should be renamed.
\<close>

section \<open>Model\<close>

definition rename_group :: "RewriteRules \<Rightarrow> bool \<Rightarrow> string \<Rightarrow> bool \<times> string" where
  "rename_group rules renameResources apiGroup =
     (if rr_HasGroup rules apiGroup then (True, rr_RenameApiVersion rules apiGroup)
      else if apiGroup = ''*'' then (True, apiGroup)
      else (renameResources, apiGroup))"

definition rename_resource_name :: "RewriteRules \<Rightarrow> string \<Rightarrow> string" where
  "rename_resource_name rules resourceType =
     (if resourceType = ''*'' \<or> resourceType = [] then resourceType
      else (case rr_GroupResourceRules rules resourceType of
        Some _ \<Rightarrow> rr_RenameResource rules resourceType
      | None \<Rightarrow> resourceType))"

definition RenameResourceRule :: "'r jsonlib \<Rightarrow> RewriteRules \<Rightarrow> bytes \<Rightarrow> bytes res" where
  "RenameResourceRule L rules obj =
     (case TransformArrayOfStringsS L obj ''apiGroups'' (rename_group rules) False of (renameResources, r) \<Rightarrow>
       res_bind r (\<lambda>obj.
         if \<not> renameResources then Inr obj
         else TransformArrayOfStrings L obj ''resources'' (rename_resource_name rules)))"

definition restore_group :: "RewriteRules \<Rightarrow> bool \<Rightarrow> string \<Rightarrow> bool \<times> string" where
  "restore_group rules restoreResources apiGroup =
     (if rr_IsRenamedGroup rules apiGroup then (True, rr_RestoreApiVersion rules apiGroup)
      else if apiGroup = ''*'' then (True, apiGroup)
      else (restoreResources, apiGroup))"

definition restore_resource_name :: "RewriteRules \<Rightarrow> string \<Rightarrow> string" where
  "restore_resource_name rules resourceType =
     (if resourceType = ''*'' \<or> resourceType = [] then resourceType
      else (let originalResourceType = rr_RestoreResource rules resourceType
            in case rr_GroupResourceRules rules originalResourceType of
                 Some _ \<Rightarrow> originalResourceType
               | None \<Rightarrow> resourceType))"

definition RestoreResourceRule :: "'r jsonlib \<Rightarrow> RewriteRules \<Rightarrow> bytes \<Rightarrow> bytes res" where
  "RestoreResourceRule L rules obj =
     (case TransformArrayOfStringsS L obj ''apiGroups'' (restore_group rules) False of (restoreResources, r) \<Rightarrow>
       res_bind r (\<lambda>obj.
         if \<not> restoreResources then Inr obj
         else TransformArrayOfStrings L obj ''resources'' (restore_resource_name rules)))"

definition RewriteClusterRoleOrList :: "'r jsonlib \<Rightarrow> RewriteRules \<Rightarrow> bytes \<Rightarrow> Action \<Rightarrow> bytes res" where
  "RewriteClusterRoleOrList L rules obj action =
     (case action of
       Rename \<Rightarrow> RewriteResourceOrList L obj ''ClusterRoleList'' (\<lambda>singleObj.
         RewriteArray L singleObj ''rules'' (\<lambda>item. RenameResourceRule L rules item))
     | Restore \<Rightarrow> RewriteResourceOrList L obj ''ClusterRoleList'' (\<lambda>singleObj.
         RewriteArray L singleObj ''rules'' (\<lambda>item. RestoreResourceRule L rules item)))"

definition RewriteRoleOrList :: "'r jsonlib \<Rightarrow> RewriteRules \<Rightarrow> bytes \<Rightarrow> Action \<Rightarrow> bytes res" where
  "RewriteRoleOrList L rules obj action =
     (case action of
       Rename \<Rightarrow> RewriteResourceOrList L obj ''RoleList'' (\<lambda>singleObj.
         RewriteArray L singleObj ''rules'' (\<lambda>item. RenameResourceRule L rules item))
     | Restore \<Rightarrow> RewriteResourceOrList L obj ''RoleList'' (\<lambda>singleObj.
         RewriteArray L singleObj ''rules'' (\<lambda>item. RestoreResourceRule L rules item)))"

definition RewriteValidatingOrList :: "'r jsonlib \<Rightarrow> RewriteRules \<Rightarrow> bytes \<Rightarrow> Action \<Rightarrow> bytes res" where
  "RewriteValidatingOrList L rules obj action =
     (case action of
       Rename \<Rightarrow> RewriteResourceOrList L obj ''ValidatingWebhookConfigurationList'' (\<lambda>singleObj.
         RewriteArray L singleObj ''webhooks'' (\<lambda>webhook.
           RewriteArray L webhook ''rules'' (\<lambda>item. RenameResourceRule L rules item)))
     | Restore \<Rightarrow> RewriteResourceOrList L obj ''ValidatingWebhookConfigurationList'' (\<lambda>singleObj.
         RewriteArray L singleObj ''webhooks'' (\<lambda>webhook.
           RewriteArray L webhook ''rules'' (\<lambda>item. RestoreResourceRule L rules item))))"

definition RewriteMutatingOrList :: "'r jsonlib \<Rightarrow> RewriteRules \<Rightarrow> bytes \<Rightarrow> Action \<Rightarrow> bytes res" where
  "RewriteMutatingOrList L rules obj action =
     (case action of
       Rename \<Rightarrow> RewriteResourceOrList L obj ''MutatingWebhookConfigurationList'' (\<lambda>singleObj.
         RewriteArray L singleObj ''webhooks'' (\<lambda>webhook.
           RewriteArray L webhook ''rules'' (\<lambda>item. RenameResourceRule L rules item)))
     | Restore \<Rightarrow> RewriteResourceOrList L obj ''MutatingWebhookConfigurationList'' (\<lambda>singleObj.
         RewriteArray L singleObj ''webhooks'' (\<lambda>webhook.
           RewriteArray L webhook ''rules'' (\<lambda>item. RestoreResourceRule L rules item))))"

definition RenameWebhookConfigurationPatch :: "'r jsonlib \<Rightarrow> RewriteRules \<Rightarrow> bytes \<Rightarrow> bytes res" where
  "RenameWebhookConfigurationPatch L rules obj =
     res_bind (RenameMetadataPatch L rules obj) (\<lambda>obj.
     TransformPatch L obj
       (Some (\<lambda>mergePatch. RewriteArray L mergePatch ''webhooks'' (\<lambda>webhook.
         RewriteArray L webhook ''rules'' (\<lambda>item. RestoreResourceRule L rules item))))
       (Some (\<lambda>jsonPatch.
         if gjson_String L (gjson_GetBytes L jsonPatch ''path'') = ''/webhooks''
         then RewriteArray L jsonPatch ''value'' (\<lambda>webhook.
           RewriteArray L webhook ''rules'' (\<lambda>item. RenameResourceRule L rules item))
         else Inr jsonPatch)))"

definition RewriteValidatingAdmissionPolicyOrList :: "'r jsonlib \<Rightarrow> RewriteRules \<Rightarrow> bytes \<Rightarrow> Action \<Rightarrow> bytes res" where
  "RewriteValidatingAdmissionPolicyOrList L rules obj action =
     (case action of
       Rename \<Rightarrow> RewriteResourceOrList L obj ''ValidatingAdmissionPolicyList'' (\<lambda>singleObj.
         RewriteArray L singleObj ''spec.matchConstraints.resourceRules'' (\<lambda>item. RenameResourceRule L rules item))
     | Restore \<Rightarrow> RewriteResourceOrList L obj ''ValidatingAdmissionPolicyList'' (\<lambda>singleObj.
         RewriteArray L singleObj ''spec.matchConstraints.resourceRules'' (\<lambda>item. RestoreResourceRule L rules item)))"

definition RewriteValidatingAdmissionPolicyBindingOrList :: "'r jsonlib \<Rightarrow> RewriteRules \<Rightarrow> bytes \<Rightarrow> Action \<Rightarrow> bytes res" where
  "RewriteValidatingAdmissionPolicyBindingOrList L rules obj action =
     (case action of
       Rename \<Rightarrow> RewriteResourceOrList L obj ''ValidatingAdmissionPolicyBindingList'' (\<lambda>singleObj.
         RewriteArray L singleObj ''spec.matchResources.resourceRules'' (\<lambda>item. RenameResourceRule L rules item))
     | Restore \<Rightarrow> RewriteResourceOrList L obj ''ValidatingAdmissionPolicyBindingList'' (\<lambda>singleObj.
         RewriteArray L singleObj ''spec.matchResources.resourceRules'' (\<lambda>item. RestoreResourceRule L rules item)))"

section \<open>On JSON values\<close>

text \<open>Both closures over the groups set the flag on a match and never reset it.\<close>

lemma strings_loop_flag:
  assumes "\<And>st s. f st s = (st \<or> P s, h s)"
  shows "strings_loop f st ss = (st \<or> (\<exists>s \<in> set ss. P s), map h ss)"
  by (induction ss arbitrary: st) (auto simp: assms)

lemma TransformArrayOfStringsS_flag:
  assumes "\<And>st s. f st s = (st \<or> P s, h s)"
  shows "TransformArrayOfStringsS L x p f False =
    ((\<exists>s \<in> set (map (gjson_String L) (gjson_Array L (gjson_GetBytes L x p))). P s), TransformArrayOfStrings L x p h)"
  by (simp add: TransformArrayOfStringsS_def TransformArrayOfStrings_def Let_def strings_loop_map strings_loop_flag [OF assms])

definition group_texts :: "json \<Rightarrow> string list" where
  "group_texts j = map item_text (items_at j [''apiGroups''])"

definition up_group :: "RewriteRules \<Rightarrow> string \<Rightarrow> string" where
  "up_group rr g = (if rr_HasGroup rr g then rr_RenameApiVersion rr g else g)"

definition down_group :: "RewriteRules \<Rightarrow> string \<Rightarrow> string" where
  "down_group rr g = (if rr_IsRenamedGroup rr g then rr_RestoreApiVersion rr g else g)"

definition j_rename_rule :: "RewriteRules \<Rightarrow> json \<Rightarrow> json" where
  "j_rename_rule rr j =
     (let i = j_strings [''apiGroups''] (up_group rr) j
      in if \<exists>g \<in> set (group_texts j). rr_HasGroup rr g \<or> g = ''*''
         then j_strings [''resources''] (rename_resource_name rr) i else i)"

definition j_restore_rule :: "RewriteRules \<Rightarrow> json \<Rightarrow> json" where
  "j_restore_rule rr j =
     (let i = j_strings [''apiGroups''] (down_group rr) j
      in if \<exists>g \<in> set (group_texts j). rr_IsRenamedGroup rr g \<or> g = ''*''
         then j_strings [''resources''] (restore_resource_name rr) i else i)"

definition rule_ok :: "json \<Rightarrow> bool" where
  "rule_ok j \<longleftrightarrow> has_text_array j [''apiGroups''] \<and> has_text_array j [''resources'']"

lemma resource_name_text:
  assumes "rules_ready rr" and "utf8 s"
  shows "utf8 (rename_resource_name rr s)" and "utf8 (restore_resource_name rr s)"
  using ready_text [OF assms] assms(2)
  by (auto simp: rename_resource_name_def restore_resource_name_def Let_def split: option.split)

context json_library
begin

lemma group_texts_eq:
  assumes "doc D x j" and "has_text_array j [''apiGroups'']"
  shows "map (gjson_String L) (gjson_Array L (gjson_GetBytes L x ''apiGroups'')) = group_texts j"
  using Array_items [OF assms(1), of "''apiGroups''"] assms(2)
  by (auto simp: group_texts_def has_text_array_def intro!: map_String_items)

lemma resource_rule_yields:
  assumes "doc D x j" and "rule_ok j" and f: "\<And>st s. f st s = (st \<or> P s, h s)"
    and utf: "\<And>s. utf8 s \<Longrightarrow> utf8 (h s) \<and> utf8 (k s)"
  shows "yields D
    (case TransformArrayOfStringsS L x ''apiGroups'' f False of (b, r) \<Rightarrow>
       res_bind r (\<lambda>obj. if \<not> b then Inr obj else TransformArrayOfStrings L obj ''resources'' k))
    (let i = j_strings [''apiGroups''] h j
     in if \<exists>g \<in> set (group_texts j). P g then j_strings [''resources''] k i else i)"
proof -
  let ?i = "j_strings [''apiGroups''] h j"
  from assms(2) have ok: "has_text_array j [''apiGroups'']" "has_text_array j [''resources'']" by (simp_all add: rule_ok_def)
  have y: "yields D (TransformArrayOfStrings L x ''apiGroups'' h) ?i"
    using TransformArrayOfStrings_yields [OF assms(1), of "''apiGroups''" h] ok utf utf8_item_text [OF assms(1)] by simp
  have "yields D (TransformArrayOfStrings L z ''resources'' k) (j_strings [''resources''] k ?i)" if "doc D z ?i" for z
    using TransformArrayOfStrings_yields [OF that, of "''resources''" k] ok(2) utf utf8_item_text [OF that]
      place_cong(2) [of ?i "[''resources'']" j] by simp
  with y show ?thesis
    unfolding TransformArrayOfStringsS_flag [OF f] group_texts_eq [OF assms(1) ok(1)]
    by (auto simp: Let_def intro!: yields_bind)
qed

lemma RenameResourceRule_yields:
  assumes "rules_ready rr" and "doc D x j" and "rule_ok j"
  shows "yields D (RenameResourceRule L rr x) (j_rename_rule rr j)"
  unfolding RenameResourceRule_def j_rename_rule_def
  by (rule resource_rule_yields [OF assms(2,3)])
    (use ready_text [OF assms(1)] resource_name_text [OF assms(1)] in \<open>auto simp: rename_group_def up_group_def\<close>)

lemma RestoreResourceRule_yields:
  assumes "rules_ready rr" and "doc D x j" and "rule_ok j"
  shows "yields D (RestoreResourceRule L rr x) (j_restore_rule rr j)"
  unfolding RestoreResourceRule_def j_restore_rule_def
  by (rule resource_rule_yields [OF assms(2,3)])
    (use ready_text [OF assms(1)] resource_name_text [OF assms(1)] in \<open>auto simp: restore_group_def down_group_def\<close>)

end

section \<open>Rules survive the round trip\<close>

definition all_strings :: "json \<Rightarrow> string list \<Rightarrow> bool" where
  "all_strings j ks \<longleftrightarrow> has_array j ks \<and> list_all (\<lambda>v. v = JStr (item_text v)) (items_at j ks)"

text \<open>A resource type the restore direction would not take for a renamed one.\<close>

definition client_type :: "RewriteRules \<Rightarrow> string \<Rightarrow> bool" where
  "client_type rr r \<longleftrightarrow> r = ''*'' \<or> r = [] \<or> rr_GroupResourceRules rr r \<noteq> None \<or>
     rr_GroupResourceRules rr (rr_RestoreResource rr r) = None"

definition client_rule :: "RewriteRules \<Rightarrow> json \<Rightarrow> bool" where
  "client_rule rr j \<longleftrightarrow> all_strings j [''apiGroups''] \<and> all_strings j [''resources''] \<and>
     list_all (\<lambda>g. \<not> rr_IsRenamedGroup rr g) (group_texts j) \<and>
     list_all (client_type rr) (map item_text (items_at j [''resources'']))"

lemma all_strings_text_array: "all_strings j ks \<Longrightarrow> has_text_array j ks"
  by (auto simp: all_strings_def has_text_array_def list_all_iff) (metis jtext.simps(3) option.distinct(1))

lemma client_rule_ok: "client_rule rr j \<Longrightarrow> rule_ok j"
  by (simp add: client_rule_def rule_ok_def all_strings_text_array)

lemma items_at_j_strings: "items_at (j_strings ks f j) ks = map (\<lambda>v. JStr (f (item_text v))) (items_at j ks)"
  using items_at_nonempty [of j ks] jget_settable [of j ks]
  by (cases "items_at j ks = []") (auto simp: j_strings_def, simp add: items_at_def)

lemma item_text_JStr [simp]: "item_text (JStr s) = s"
  by (simp add: item_text_def)

lemma has_text_array_j_strings: "has_text_array j ks \<Longrightarrow> has_text_array (j_strings ks f j) ks"
proof -
  assume t: "has_text_array j ks"
  have "has_array (j_strings ks f j) ks"
    using t items_at_nonempty [of j ks] jget_settable [of j ks]
    by (cases "items_at j ks = []") (auto simp: j_strings_def has_text_array_def has_array_def)
  then show ?thesis by (auto simp: has_text_array_def items_at_j_strings)
qed

lemma j_strings_roundtrip:
  assumes "all_strings j ks" and "\<And>s. s \<in> set (map item_text (items_at j ks)) \<Longrightarrow> g (f s) = s"
  shows "j_strings ks g (j_strings ks f j) = j"
proof (cases "items_at j ks = []")
  case True
  then show ?thesis by (simp add: j_strings_def)
next
  case False
  then have j: "jget j ks = Some (JArr (items_at j ks))" by (rule items_at_nonempty)
  have "map (\<lambda>v. JStr (g (f (item_text v)))) (items_at j ks) = items_at j ks"
    using assms by (intro map_idI) (auto simp: all_strings_def list_all_iff)
  with False j jset_same [OF j] jget_settable [OF j] items_at_j_strings [of ks f j] show ?thesis
    by (simp add: j_strings_def comp_def)
qed

lemma j_strings_commute:
  assumes "forks ks ls"
  shows "j_strings ks f (j_strings ls g j) = j_strings ls g (j_strings ks f j)"
proof -
  have "forks ls ks" using assms by (induction ks ls rule: forks.induct) auto
  then have "items_at (j_strings ls g j) ks = items_at j ks" "items_at (j_strings ks f j) ls = items_at j ls"
    using assms place_cong(5) [of "j_strings ls g j" ks j] place_cong(5) [of "j_strings ks f j" ls j] by simp_all
  then show ?thesis using jset_commute [OF assms] by (auto simp: j_strings_def)
qed

lemma resource_name_roundtrip: "client_type rr r \<Longrightarrow> restore_resource_name rr (rename_resource_name rr r) = r"
proof -
  assume c: "client_type rr r"
  have trim: "rr_RestoreResource rr (rr_RenameResource rr r) = r"
    by (simp add: rr_RestoreResource_def rr_RenameResource_def)
  show ?thesis
  proof (cases "r = ''*'' \<or> r = [] \<or> rr_GroupResourceRules rr r = None")
    case True
    with c show ?thesis by (auto simp: client_type_def rename_resource_name_def restore_resource_name_def Let_def)
  next
    case False
    then show ?thesis using trim
      by (auto simp: rename_resource_name_def restore_resource_name_def Let_def rr_RenameResource_def append_eq_Cons_conv)
  qed
qed

lemma client_group:
  assumes "rules_ready rr" and "\<not> rr_IsRenamedGroup rr g"
  shows "rr_IsRenamedGroup rr (up_group rr g) \<or> up_group rr g = ''*'' \<longleftrightarrow> rr_HasGroup rr g \<or> g = ''*''"
    and "down_group rr (up_group rr g) = g"
  using assms by (cases "rr_HasGroup rr g"; simp add: up_group_def down_group_def rename_av_renamed restore_rename_av)+

lemma group_texts_up: "group_texts (j_strings [''apiGroups''] f j) = map f (group_texts j)"
  by (simp add: group_texts_def items_at_j_strings comp_def)

lemma j_rule_roundtrip:
  assumes "rules_ready rr" and "client_rule rr j"
  shows "j_restore_rule rr (j_rename_rule rr j) = j" and "rule_ok (j_rename_rule rr j)"
proof -
  let ?i = "j_strings [''apiGroups''] (up_group rr) j"
  let ?r = "j_strings [''resources''] (rename_resource_name rr) ?i"
  from assms(2) have c: "all_strings j [''apiGroups'']" "all_strings j [''resources'']"
    "\<And>g. g \<in> set (group_texts j) \<Longrightarrow> \<not> rr_IsRenamedGroup rr g"
    "\<And>r. r \<in> set (map item_text (items_at j [''resources''])) \<Longrightarrow> client_type rr r"
    by (auto simp: client_rule_def list_all_iff)
  note g = client_group [OF assms(1) c(3)]
  have ri: "jget ?i [''resources''] = jget j [''resources'']" and gr: "jget ?r [''apiGroups''] = jget ?i [''apiGroups'']" by simp_all
  have gt: "group_texts ?r = map (up_group rr) (group_texts j)"
    using place_cong(5) [OF gr] group_texts_up [of "up_group rr" j] by (simp add: group_texts_def)
  have ti: "has_text_array ?i [''apiGroups'']" "has_text_array ?i [''resources'']" "has_text_array ?r [''resources'']"
    using c(1,2) place_cong(2) [OF ri] by (simp_all add: all_strings_text_array has_text_array_j_strings)
  then show "rule_ok (j_rename_rule rr j)"
    using place_cong(2) [OF gr] by (simp add: j_rename_rule_def rule_ok_def Let_def)
  have down: "j_strings [''apiGroups''] (down_group rr) ?i = j"
    using j_strings_roundtrip [OF c(1), of "down_group rr" "up_group rr"] g(2) by (simp add: group_texts_def)
  have res: "j_strings [''resources''] (restore_resource_name rr) (j_strings [''resources''] (rename_resource_name rr) j) = j"
    using j_strings_roundtrip [OF c(2)] c(4) resource_name_roundtrip by blast
  have comm: "j_strings [''apiGroups''] (down_group rr) ?r = j_strings [''resources''] (rename_resource_name rr) j"
    using j_strings_commute [of "[''apiGroups'']" "[''resources'']"] down by simp
  define b where "b \<longleftrightarrow> (\<exists>g \<in> set (group_texts j). rr_HasGroup rr g \<or> g = ''*'')"
  have flag: "(\<exists>g \<in> set (map (up_group rr) (group_texts j)). rr_IsRenamedGroup rr g \<or> g = ''*'') \<longleftrightarrow> b"
    unfolding b_def set_map bex_simps(7) using g(1) by (rule bex_cong [OF refl])
  show "j_restore_rule rr (j_rename_rule rr j) = j"
  proof (cases b)
    case True
    then have "j_rename_rule rr j = ?r" unfolding j_rename_rule_def Let_def b_def by (rule if_P)
    then show ?thesis unfolding j_restore_rule_def Let_def using True gt flag comm res by (simp only: if_True)
  next
    case False
    then have "j_rename_rule rr j = ?i" unfolding j_rename_rule_def Let_def b_def by (rule if_not_P)
    then show ?thesis unfolding j_restore_rule_def Let_def using False group_texts_up flag down by (simp only: if_False)
  qed
qed

text \<open>
  C23. Role and webhook rules survive the round trip: a rule of the client whose groups and resource
  types are not renamed names is renamed without an error, groups first and, where a group or the
  wildcard matches, resource types too, and restoring the result gives the same JSON value back.
\<close>

theorem resource_rule_roundtrip:
  assumes "json_library L D V" and "rules_ready rr" and "doc D x j" and "client_rule rr j"
  shows "\<exists>y. RenameResourceRule L rr x = Inr y \<and> yields D (RestoreResourceRule L rr y) j"
proof -
  obtain y where y: "RenameResourceRule L rr x = Inr y" "doc D y (j_rename_rule rr j)"
    using json_library.RenameResourceRule_yields [OF assms(1-3) client_rule_ok [OF assms(4)]] unfolding yields_def by blast
  then show ?thesis
    using json_library.RestoreResourceRule_yields [OF assms(1,2) y(2)] j_rule_roundtrip [OF assms(2,4)] by auto
qed

definition sample_rule :: rj where
  "sample_rule = RObj [(''apiGroups'', RArr [RStr ''g.io'', RStr ''apps'']), (''resources'', RArr [RStr ''rs/status'', RStr ''pods''])]"

lemma sample_rule_client: "rj_ok sample_rule" "client_rule (rr_Init sample_rules) (rj_abs sample_rule)"
proof -
  show "rj_ok sample_rule" by code_simp
  have "list_all (\<lambda>g. \<not> rr_IsRenamedGroup (rr_Init sample_rules) g) [''g.io'', ''apps'']"
    "list_all (client_type (rr_Init sample_rules)) [''rs/status'', ''pods'']" by code_simp+
  then show "client_rule (rr_Init sample_rules) (rj_abs sample_rule)"
    by (simp add: client_rule_def all_strings_def has_array_def items_at_def sample_rule_def group_texts_def)
qed

theorem resource_rule_roundtrip_witness:
  "\<exists>y. RenameResourceRule ref_lib (rr_Init sample_rules) (Some (print sample_rule)) = Inr y \<and>
    yields ref_D (RestoreResourceRule ref_lib (rr_Init sample_rules) y) (rj_abs sample_rule)"
  by (rule resource_rule_roundtrip [OF ref.json_library_axioms sample_rules_ready ref_doc [OF sample_rule_client(1)] sample_rule_client(2)])

section \<open>Merge patches of webhook configurations\<close>

lemma j_array_id:
  assumes "\<And>v. v \<in> set (items_at j ks) \<Longrightarrow> f v = v"
  shows "j_array ks (\<lambda>v. Some (f v)) j = j"
  using assms items_at_nonempty [of j ks] jset_same [of j ks] by (cases "items_at j ks = []") (auto simp: j_array_def map_idI)

lemma j_strings_id:
  assumes "all_strings j ks" and "\<And>s. s \<in> set (map item_text (items_at j ks)) \<Longrightarrow> f s = s"
  shows "j_strings ks f j = j"
proof -
  have "map (\<lambda>v. JStr (f (item_text v))) (items_at j ks) = items_at j ks"
    using assms by (intro map_idI) (auto simp: all_strings_def list_all_iff)
  then show ?thesis using items_at_nonempty [of j ks] jset_same [of j ks] by (auto simp: j_strings_def)
qed

text \<open>A rule that names only original or unknown groups, and no wildcard group.\<close>

definition original_rule :: "RewriteRules \<Rightarrow> json \<Rightarrow> bool" where
  "original_rule rr j \<longleftrightarrow> all_strings j [''apiGroups''] \<and> has_text_array j [''resources''] \<and>
     list_all (\<lambda>g. \<not> rr_IsRenamedGroup rr g \<and> g \<noteq> ''*'') (group_texts j)"

definition original_webhook :: "RewriteRules \<Rightarrow> json \<Rightarrow> bool" where
  "original_webhook rr w \<longleftrightarrow> has_array w [''rules''] \<and> list_all (original_rule rr) (items_at w [''rules''])"

lemma restore_original_rule: "original_rule rr j \<Longrightarrow> j_restore_rule rr j = j"
proof -
  assume o: "original_rule rr j"
  then have "j_strings [''apiGroups''] (down_group rr) j = j"
    by (intro j_strings_id) (auto simp: original_rule_def list_all_iff group_texts_def down_group_def)
  with o show ?thesis by (auto simp: j_restore_rule_def Let_def original_rule_def list_all_iff)
qed

context json_library
begin

lemma restore_webhook_yields:
  assumes "rules_ready rr" and "doc D y w" and "original_webhook rr w"
  shows "yields D (RewriteArray L y ''rules'' (\<lambda>item. RestoreResourceRule L rr item)) w"
proof -
  have "yields D (RewriteArray L y ''rules'' (\<lambda>item. RestoreResourceRule L rr item)) (j_array (jpath ''rules'') (\<lambda>r. Some (j_restore_rule rr r)) w)"
  proof (rule RewriteArray_yields [OF assms(2)])
    show "item_ok D (RestoreResourceRule L rr z) r (Some (j_restore_rule rr r))"
      if "r \<in> set (items_at w (jpath ''rules''))" "doc D z r" for r z
      using that assms(3)
      by (intro item_ok_Some RestoreResourceRule_yields [OF assms(1)])
        (auto simp: original_webhook_def original_rule_def rule_ok_def list_all_iff all_strings_text_array)
  qed (use assms(3) in \<open>simp_all add: Root_def original_webhook_def\<close>)
  moreover have "j_array [''rules''] (\<lambda>r. Some (j_restore_rule rr r)) w = w"
    using assms(3) by (intro j_array_id) (auto simp: original_webhook_def list_all_iff restore_original_rule)
  ultimately show ?thesis by simp
qed

lemma webhook_merge_patch_yields:
  assumes "rules_ready rr" and "doc D (Some (CHR ''{'' # t)) j" and "jget j [''metadata''] = None"
    and "has_array j [''webhooks'']" and "list_all (original_webhook rr) (items_at j [''webhooks''])"
  shows "yields D (RenameWebhookConfigurationPatch L rr (Some (CHR ''{'' # t))) j"
proof -
  let ?x = "Some (CHR ''{'' # t)"
  have "V (gjson_GetBytes L ?x ''metadata'') = None" using GetBytes [OF assms(2), of "''metadata''"] assms(3) by simp
  then have md: "RenameMetadataPatch L rr ?x = Inr ?x"
    by (simp add: RenameMetadataPatch_def TransformObject_def IsObject Let_def)
  have "yields D (RewriteArray L ?x ''webhooks'' (\<lambda>webhook. RewriteArray L webhook ''rules'' (\<lambda>item. RestoreResourceRule L rr item)))
      (j_array (jpath ''webhooks'') (\<lambda>w. Some w) j)"
    by (rule RewriteArray_yields [OF assms(2)])
      (use assms(4,5) restore_webhook_yields [OF assms(1)] in \<open>auto simp: Root_def list_all_iff intro!: item_ok_Some\<close>)
  then show ?thesis
    using j_array_id [of j "[''webhooks'']" "\<lambda>w. w"] by (simp add: RenameWebhookConfigurationPatch_def md)
qed

end

text \<open>
  A merge patch of a webhook configuration leaves the proxy with its original group names: the
  code restores the rules of the patched webhooks where the other patch form renames them, so a
  patch of the client that names original groups reaches the server as it is.
\<close>

theorem webhook_merge_patch_not_renamed:
  assumes "json_library L D V" and "rules_ready rr" and "doc D (Some (CHR ''{'' # t)) j" and "jget j [''metadata''] = None"
    and "has_array j [''webhooks'']" and "list_all (original_webhook rr) (items_at j [''webhooks''])"
  shows "yields D (RenameWebhookConfigurationPatch L rr (Some (CHR ''{'' # t))) j"
  by (rule json_library.webhook_merge_patch_yields [OF assms])

definition sample_webhook_patch :: rj where
  "sample_webhook_patch = RObj [(''webhooks'', RArr [RObj [(''name'', RStr ''w''), (''rules'', RArr [sample_rule])]])]"

theorem webhook_merge_patch_not_renamed_witness:
  "yields ref_D (RenameWebhookConfigurationPatch ref_lib (rr_Init sample_rules) (Some (print sample_webhook_patch))) (rj_abs sample_webhook_patch)"
proof -
  obtain t where t: "print sample_webhook_patch = CHR ''{'' # t" by (simp add: sample_webhook_patch_def)
  have ok: "rj_ok sample_webhook_patch" by code_simp
  have g: "list_all (\<lambda>g. \<not> rr_IsRenamedGroup (rr_Init sample_rules) g \<and> g \<noteq> ''*'') [''g.io'', ''apps'']" by code_simp
  show ?thesis
    unfolding t
  proof (rule webhook_merge_patch_not_renamed [OF ref.json_library_axioms sample_rules_ready])
    show "doc ref_D (Some (CHR ''{'' # t)) (rj_abs sample_webhook_patch)" using ref_doc [OF ok] by (simp only: t)
    show "list_all (original_webhook (rr_Init sample_rules)) (items_at (rj_abs sample_webhook_patch) [''webhooks''])"
      using g by (simp add: sample_webhook_patch_def sample_rule_def items_at_def original_webhook_def original_rule_def
        all_strings_def has_array_def has_text_array_def group_texts_def)
  qed (simp_all add: sample_webhook_patch_def has_array_def)
qed

end
