(* ===== verification/Crd.thy ===== *)
theory Crd
  imports Metadata
begin

text \<open>
  Custom resource definitions, \<^verbatim>\<open>pkg/rewriter/crd.go\<close>. The flag \<^verbatim>\<open>isRenamed\<close> that the closure of
  \<^verbatim>\<open>RenameCRDPatch\<close> sets is the state of the array transformer; the error of that transformer is
  dropped by the code and turns into a \<^verbatim>\<open>nil\<close> payload.

  Shown: a definition that matches its resource rule survives a rename and a restore; a definition
  of a group with rules is skipped in a restored list and one of an unknown group becomes \<^verbatim>\<open>nil\<close>; a
  failing patch is answered with an empty payload and no error.
\<close>

section \<open>Model\<close>

definition malformed_crd :: "string \<Rightarrow> error" where
  "malformed_crd crdName = Errorf (''malformed CRD name: should be resourcetype.group, got '' @ crdName)"

definition RestoreCRD :: "'r jsonlib \<Rightarrow> RewriteRules \<Rightarrow> bytes \<Rightarrow> bytes res" where
  "RestoreCRD L rules obj =
     (let crdName = gjson_String L (gjson_GetBytes L obj ''metadata.name'') in
      case Cut crdName (CHR ''.'') of (resource, grp, found) \<Rightarrow>
      if \<not> found then Inl (malformed_crd crdName)
      else if rr_HasGroup rules grp then Inl SkipItem
      else if \<not> rr_IsRenamedGroup rules grp then Inr None
      else (let origResource = rr_RestoreResource rules resource in
        case rr_GroupResourceRules rules origResource of
          None \<Rightarrow> Inr None
        | Some (groupRule, resourceRule) \<Rightarrow>
            res_bind (sjson_SetBytes L obj ''metadata.name'' (VString (rs_Plural resourceRule @ ''.'' @ gr_Group groupRule))) (\<lambda>obj.
            res_bind (sjson_SetBytes L obj ''spec.group'' (VString (gr_Group groupRule))) (\<lambda>obj.
            let names = Some (gjson_Raw L (gjson_GetBytes L obj ''spec.names'')) in
            res_bind (sjson_SetBytes L names ''categories'' (VStrings (rr_RestoreCategories (Some resourceRule)))) (\<lambda>names.
            res_bind (sjson_SetBytes L names ''kind'' (VString (rr_RestoreKind rules (rs_Kind resourceRule)))) (\<lambda>names.
            res_bind (sjson_SetBytes L names ''listKind'' (VString (rr_RestoreKind rules (rs_ListKind resourceRule)))) (\<lambda>names.
            res_bind (sjson_SetBytes L names ''plural'' (VString (rr_RestoreResource rules (rs_Plural resourceRule)))) (\<lambda>names.
            res_bind (sjson_SetBytes L names ''singular'' (VString (rr_RestoreResource rules (rs_Singular resourceRule)))) (\<lambda>names.
            res_bind (sjson_SetBytes L names ''shortNames'' (VStrings (Some (rr_RestoreShortNames rules (rs_ShortNames resourceRule))))) (\<lambda>names.
            sjson_SetRawBytes L obj ''spec.names'' names))))))))))"

text \<open>One of the six guarded assignments of \<^verbatim>\<open>renameCRDSpec\<close>.\<close>

definition set_if_exists :: "'r jsonlib \<Rightarrow> bytes \<Rightarrow> string \<Rightarrow> govalue \<Rightarrow> bytes res" where
  "set_if_exists L names field v =
     (if gjson_Exists L (gjson_GetBytes L names field) then sjson_SetBytes L names field v else Inr names)"

definition renameCRDSpec :: "'r jsonlib \<Rightarrow> RewriteRules \<Rightarrow> ResourceRule \<Rightarrow> bytes \<Rightarrow> bytes res" where
  "renameCRDSpec L rules resourceRule spec =
     res_bind (TransformString L spec ''group'' (\<lambda>crdSpecGroup. rr_RenameApiVersion rules crdSpecGroup)) (\<lambda>spec.
     let names = Some (gjson_Raw L (gjson_GetBytes L spec ''names'')) in
     res_bind (set_if_exists L names ''categories'' (VStrings (rr_RenameCategories rules (rs_Categories resourceRule)))) (\<lambda>names.
     res_bind (set_if_exists L names ''kind'' (VString (rr_RenameKind rules (rs_Kind resourceRule)))) (\<lambda>names.
     res_bind (set_if_exists L names ''listKind'' (VString (rr_RenameKind rules (rs_ListKind resourceRule)))) (\<lambda>names.
     res_bind (set_if_exists L names ''plural'' (VString (rr_RenameResource rules (rs_Plural resourceRule)))) (\<lambda>names.
     res_bind (set_if_exists L names ''singular'' (VString (rr_RenameResource rules (rs_Singular resourceRule)))) (\<lambda>names.
     res_bind (set_if_exists L names ''shortNames'' (VStrings (Some (rr_RenameShortNames rules (rs_ShortNames resourceRule))))) (\<lambda>names.
     sjson_SetRawBytes L spec ''names'' names)))))))"

definition RenameCRD :: "'r jsonlib \<Rightarrow> RewriteRules \<Rightarrow> bytes \<Rightarrow> bytes res" where
  "RenameCRD L rules obj =
     (let crdName = gjson_String L (gjson_GetBytes L obj ''metadata.name'') in
      case Cut crdName (CHR ''.'') of (resource, grp, found) \<Rightarrow>
      if \<not> found then Inl (malformed_crd crdName)
      else (case rr_ResourceRules rules grp resource of
        None \<Rightarrow> Inr None
      | Some (_, resourceRule) \<Rightarrow>
          res_bind (sjson_SetBytes L obj ''metadata.name''
            (VString (rr_RenameResource rules resource @ ''.'' @ rr_RenameApiVersion rules grp))) (\<lambda>obj.
          let spec = gjson_GetBytes L obj ''spec'' in
          res_bind (renameCRDSpec L rules resourceRule (Some (gjson_Raw L spec))) (\<lambda>newSpec.
          sjson_SetRawBytes L obj ''spec'' newSpec))))"

definition RewriteCRDOrList :: "'r jsonlib \<Rightarrow> RewriteRules \<Rightarrow> bytes \<Rightarrow> Action \<Rightarrow> bytes res" where
  "RewriteCRDOrList L rules obj action =
     (case action of
       Rename \<Rightarrow> RewriteResourceOrList L obj ''CustomResourceDefinitionList'' (\<lambda>singleObj. RenameCRD L rules singleObj)
     | Restore \<Rightarrow> RewriteResourceOrList L obj ''CustomResourceDefinitionList'' (\<lambda>singleObj. RestoreCRD L rules singleObj))"

definition RenameCRDPatch_item :: "'r jsonlib \<Rightarrow> RewriteRules \<Rightarrow> ResourceRule \<Rightarrow> bool \<Rightarrow> bytes \<Rightarrow> bool \<times> bytes res" where
  "RenameCRDPatch_item L rules resourceRule isRenamed singlePatch =
     (let op = gjson_String L (gjson_GetBytes L singlePatch ''op'');
          path = gjson_String L (gjson_GetBytes L singlePatch ''path'')
      in if (op = ''replace'' \<or> op = ''add'') \<and> path = ''/spec''
         then (True,
           let value = Some (gjson_Raw L (gjson_GetBytes L singlePatch ''value'')) in
           res_bind (renameCRDSpec L rules resourceRule value) (\<lambda>newValue.
           sjson_SetRawBytes L singlePatch ''value'' newValue))
         else (isRenamed, Inr None))"

definition RenameCRDPatch :: "'r jsonlib \<Rightarrow> RewriteRules \<Rightarrow> ResourceRule \<Rightarrow> bytes \<Rightarrow> bytes res" where
  "RenameCRDPatch L rules resourceRule obj =
     res_bind (res_wrap ''rename metadata patches for CRD'' (RenameMetadataPatch L rules obj)) (\<lambda>obj.
     case RewriteArrayS L obj Root (RenameCRDPatch_item L rules resourceRule) False of (isRenamed, newPatches) \<Rightarrow>
       if \<not> isRenamed then Inr obj
       else Inr (case newPatches of Inl _ \<Rightarrow> None | Inr b \<Rightarrow> b))"

section \<open>On JSON values\<close>

text \<open>The six names of a definition, as they are set for a resource rule.\<close>

definition set_names :: "json \<Rightarrow> govalue \<Rightarrow> string \<Rightarrow> string \<Rightarrow> string \<Rightarrow> string \<Rightarrow> string list \<Rightarrow> json" where
  "set_names n categories kind listKind plural singular shortNames =
     jset (jset (jset (jset (jset (jset n [''categories''] (gv_json categories)) [''kind''] (JStr kind)) [''listKind''] (JStr listKind))
       [''plural''] (JStr plural)) [''singular''] (JStr singular)) [''shortNames''] (JArr (map JStr shortNames))"

definition renamed_names_of :: "RewriteRules \<Rightarrow> ResourceRule \<Rightarrow> json \<Rightarrow> json" where
  "renamed_names_of rr res n = set_names n (VStrings (rr_RenameCategories rr (rs_Categories res)))
     (rr_RenameKind rr (rs_Kind res)) (rr_RenameKind rr (rs_ListKind res)) (rr_RenameResource rr (rs_Plural res))
     (rr_RenameResource rr (rs_Singular res)) (rr_RenameShortNames rr (rs_ShortNames res))"

definition restored_names_of :: "RewriteRules \<Rightarrow> ResourceRule \<Rightarrow> json \<Rightarrow> json" where
  "restored_names_of rr res n = set_names n (VStrings (rs_Categories res))
     (rr_RestoreKind rr (rs_Kind res)) (rr_RestoreKind rr (rs_ListKind res)) (rr_RestoreResource rr (rs_Plural res))
     (rr_RestoreResource rr (rs_Singular res)) (rr_RestoreShortNames rr (rs_ShortNames res))"

text \<open>A client definition that spells out the names of its resource rule.\<close>

definition names_match :: "ResourceRule \<Rightarrow> json \<Rightarrow> bool" where
  "names_match res n \<longleftrightarrow>
     jget n [''categories''] = Some (gv_json (VStrings (rs_Categories res))) \<and> jget n [''kind''] = Some (JStr (rs_Kind res)) \<and>
     jget n [''listKind''] = Some (JStr (rs_ListKind res)) \<and> jget n [''plural''] = Some (JStr (rs_Plural res)) \<and>
     jget n [''singular''] = Some (JStr (rs_Singular res)) \<and> jget n [''shortNames''] = Some (JArr (map JStr (rs_ShortNames res)))"

text \<open>No name of the rule starts with the prefix that is put in front of it.\<close>

definition prefix_free :: "RewriteRules \<Rightarrow> ResourceRule \<Rightarrow> bool" where
  "prefix_free rr res \<longleftrightarrow> rr_RestoreKind rr (rs_Kind res) = rs_Kind res \<and> rr_RestoreKind rr (rs_ListKind res) = rs_ListKind res \<and>
     rr_RestoreResource rr (rs_Plural res) = rs_Plural res \<and> rr_RestoreResource rr (rs_Singular res) = rs_Singular res \<and>
     rr_RestoreShortNames rr (rs_ShortNames res) = rs_ShortNames res"

lemma names_match_object: "names_match res n \<Longrightarrow> \<exists>m. n = JObj m"
  by (cases n) (auto simp: names_match_def)

lemma names_roundtrip:
  assumes "names_match res n" and "prefix_free rr res"
  shows "restored_names_of rr res (renamed_names_of rr res n) = n"
proof -
  obtain m where n: "n = JObj m" using names_match_object [OF assms(1)] by blast
  with assms show ?thesis
    by (auto simp: names_match_def prefix_free_def renamed_names_of_def restored_names_of_def set_names_def fun_eq_iff
      split: option.splits)
qed

lemma jset_append: "jget j ks = Some u \<Longrightarrow> jset j (ks @ ls) v = jset j ks (jset u ls v)"
  by (induction j ks rule: jget.induct) (auto split: option.splits)

text \<open>Three places that do not overlap, written twice.\<close>

lemma jset_three:
  assumes "forks p q" "forks p r" "forks q r"
    and "jget j p = Some a" "jget j q = Some b" "jget j r = Some c"
  shows "jset (jset (jset (jset (jset (jset j p a') q b') r c') p a) q b) r c = j"
proof -
  let ?j = "jset (jset (jset j p a') q b') r c'"
  have s: "settable j p" "settable j q" "settable j r" using assms(4-6) jget_settable by blast+
  have "jset ?j p a = jset (jset j q b') r c'"
    using s(1) jset_same [OF assms(4)] jset_commute [OF assms(2), of _ a] jset_commute [OF assms(1), of _ a]
    by (metis jset_jset jset_commute [OF assms(1)] jset_commute [OF assms(2)])
  moreover have "jset (jset (jset j q b') r c') q b = jset j r c'"
    using s(2) jset_same [OF assms(5)] by (metis jset_jset jset_commute [OF assms(3)])
  moreover have "jset (jset j r c') r c = j"
    using s(3) jset_same [OF assms(6)] by (metis jset_jset)
  ultimately show ?thesis by simp
qed

text \<open>A definition of a resource with a rule, spelled the way the rule does.\<close>

definition crd_of :: "GroupRule \<Rightarrow> ResourceRule \<Rightarrow> json \<Rightarrow> bool" where
  "crd_of gr res j \<longleftrightarrow> jget j [''metadata'', ''name''] = Some (JStr (rs_Plural res @ ''.'' @ gr_Group gr)) \<and>
     jget j [''spec'', ''group''] = Some (JStr (gr_Group gr)) \<and>
     (case jget j [''spec'', ''names''] of None \<Rightarrow> False | Some n \<Rightarrow> names_match res n)"

text \<open>The rule is the one that the lookups by group and by plural find.\<close>

definition crd_rule :: "RewriteRules \<Rightarrow> GroupRule \<Rightarrow> ResourceRule \<Rightarrow> bool" where
  "crd_rule rr gr res \<longleftrightarrow>
     rr_ResourceRules rr (gr_Group gr) (rs_Plural res) = Some (gr, res) \<and>
     rr_GroupResourceRules rr (rs_Plural res) = Some (gr, res) \<and>
     CHR ''.'' \<notin> set (rs_Plural res) \<and> CHR ''.'' \<notin> set (rr_ResourceTypePrefix rr) \<and> prefix_free rr res"

definition j_renamed_crd :: "RewriteRules \<Rightarrow> GroupRule \<Rightarrow> ResourceRule \<Rightarrow> json \<Rightarrow> json" where
  "j_renamed_crd rr gr res j =
     jset (jset (jset j [''metadata'', ''name''] (JStr (rr_RenameResource rr (rs_Plural res) @ ''.'' @ rr_RenameApiVersion rr (gr_Group gr))))
       [''spec'', ''group''] (JStr (rr_RenameApiVersion rr (gr_Group gr))))
       [''spec'', ''names''] (renamed_names_of rr res (the (jget j [''spec'', ''names''])))"

lemma jget_prefix: "jget j [a, b] = Some v \<Longrightarrow> \<exists>m. jget j [a] = Some (JObj m) \<and> m b = Some v"
proof -
  assume "jget j [a, b] = Some v"
  then obtain u where "jget j [a] = Some u" "jget u [b] = Some v" by (cases j) (auto split: option.splits)
  then show ?thesis by (cases u) (auto split: option.splits)
qed

lemma ready_resource_text:
  assumes "rules_ready rr" and "rr_GroupResourceRules rr r = Some (gr, res)"
  shows "resource_text res" and "utf8 (gr_Group gr)"
  using assms find_group_resource_Some [of _ "rr_Rules rr" gr res]
  by (auto simp: rr_GroupResourceRules_def rules_ready_def rules_text_def list_all_iff split: prod.splits; fastforce)+

lemma gv_ok_categories:
  assumes "rules_ready rr" and "resource_text res"
  shows "gv_ok (VStrings (rr_RenameCategories rr (rs_Categories res)))" and "gv_ok (VStrings (rs_Categories res))"
proof -
  have "gv_ok (VStrings ss)" if "strings_text ss" for ss using that by (cases ss) (auto simp: strings_text_def)
  then show "gv_ok (VStrings (rr_RenameCategories rr (rs_Categories res)))" "gv_ok (VStrings (rs_Categories res))"
    using assms by (auto simp: rules_ready_def rules_text_def resource_text_def rr_RenameCategories_def)
qed

lemma gv_ok_short_names:
  assumes "rules_ready rr" and "resource_text res"
  shows "gv_ok (VStrings (Some (rr_RenameShortNames rr (rs_ShortNames res))))"
    and "gv_ok (VStrings (Some (rr_RestoreShortNames rr (rs_ShortNames res))))"
  using ready_text(7,8) [OF assms(1)] assms(2)
  by (auto simp: rr_RenameShortNames_def rr_RestoreShortNames_def rr_RenameShortName_def rr_RestoreShortName_def
    resource_text_def list_all_iff)

context json_library
begin

lemma set_field_yields:
  "doc D x (JObj m) \<Longrightarrow> plain_path f \<Longrightarrow> jpath f = [f] \<Longrightarrow> gv_ok v \<Longrightarrow>
   yields D (sjson_SetBytes L x f v) (JObj (m(f \<mapsto> gv_json v)))"
  using SetBytes [of x "JObj m" f v] by (simp split: option.splits)

lemma set_if_exists_yields:
  "doc D x (JObj m) \<Longrightarrow> plain_path f \<Longrightarrow> jpath f = [f] \<Longrightarrow> gv_ok v \<Longrightarrow> m f \<noteq> None \<Longrightarrow>
   yields D (set_if_exists L x f v) (JObj (m(f \<mapsto> gv_json v)))"
  using set_field_yields [of x m f v] GetBytes [of x "JObj m" f] by (auto simp: set_if_exists_def Exists split: option.splits)

lemma rename_names_yields:
  assumes "rules_ready rr" and "resource_text res" and "doc D x n" and "names_match res n"
    and "\<And>y. doc D y (renamed_names_of rr res n) \<Longrightarrow> yields D (K y) j"
  shows "yields D
     (res_bind (set_if_exists L x ''categories'' (VStrings (rr_RenameCategories rr (rs_Categories res)))) (\<lambda>names.
      res_bind (set_if_exists L names ''kind'' (VString (rr_RenameKind rr (rs_Kind res)))) (\<lambda>names.
      res_bind (set_if_exists L names ''listKind'' (VString (rr_RenameKind rr (rs_ListKind res)))) (\<lambda>names.
      res_bind (set_if_exists L names ''plural'' (VString (rr_RenameResource rr (rs_Plural res)))) (\<lambda>names.
      res_bind (set_if_exists L names ''singular'' (VString (rr_RenameResource rr (rs_Singular res)))) (\<lambda>names.
      res_bind (set_if_exists L names ''shortNames'' (VStrings (Some (rr_RenameShortNames rr (rs_ShortNames res))))) K)))))) j"
proof -
  obtain m where n: "n = JObj m" using names_match_object [OF assms(4)] by blast
  with assms(4) have m: "m ''categories'' \<noteq> None" "m ''kind'' \<noteq> None" "m ''listKind'' \<noteq> None" "m ''plural'' \<noteq> None"
    "m ''singular'' \<noteq> None" "m ''shortNames'' \<noteq> None" by (auto simp: names_match_def split: option.splits)
  have t: "utf8 (rr_RenameKind rr (rs_Kind res))" "utf8 (rr_RenameKind rr (rs_ListKind res))"
    "utf8 (rr_RenameResource rr (rs_Plural res))" "utf8 (rr_RenameResource rr (rs_Singular res))"
    using assms(2) ready_text [OF assms(1)] by (auto simp: resource_text_def)
  have eq: "renamed_names_of rr res n = JObj (m(''categories'' \<mapsto> gv_json (VStrings (rr_RenameCategories rr (rs_Categories res))),
      ''kind'' \<mapsto> gv_json (VString (rr_RenameKind rr (rs_Kind res))), ''listKind'' \<mapsto> gv_json (VString (rr_RenameKind rr (rs_ListKind res))),
      ''plural'' \<mapsto> gv_json (VString (rr_RenameResource rr (rs_Plural res))), ''singular'' \<mapsto> gv_json (VString (rr_RenameResource rr (rs_Singular res))),
      ''shortNames'' \<mapsto> gv_json (VStrings (Some (rr_RenameShortNames rr (rs_ShortNames res))))))"
    by (simp add: n renamed_names_of_def set_names_def)
  show ?thesis
    by (rule yields_bind set_if_exists_yields assms(5) [unfolded eq] assms(3) [unfolded n]
        gv_ok_categories [OF assms(1,2)] gv_ok_short_names [OF assms(1,2)] | assumption | simp (no_asm) add: t m)+
qed

lemma restore_names_yields:
  assumes "rules_ready rr" and "resource_text res" and "doc D x (JObj m)"
    and "\<And>y. doc D y (restored_names_of rr res (JObj m)) \<Longrightarrow> yields D (K y) j"
  shows "yields D
     (res_bind (sjson_SetBytes L x ''categories'' (VStrings (rr_RestoreCategories (Some res)))) (\<lambda>names.
      res_bind (sjson_SetBytes L names ''kind'' (VString (rr_RestoreKind rr (rs_Kind res)))) (\<lambda>names.
      res_bind (sjson_SetBytes L names ''listKind'' (VString (rr_RestoreKind rr (rs_ListKind res)))) (\<lambda>names.
      res_bind (sjson_SetBytes L names ''plural'' (VString (rr_RestoreResource rr (rs_Plural res)))) (\<lambda>names.
      res_bind (sjson_SetBytes L names ''singular'' (VString (rr_RestoreResource rr (rs_Singular res)))) (\<lambda>names.
      res_bind (sjson_SetBytes L names ''shortNames'' (VStrings (Some (rr_RestoreShortNames rr (rs_ShortNames res))))) K)))))) j"
proof -
  have t: "utf8 (rr_RestoreKind rr (rs_Kind res))" "utf8 (rr_RestoreKind rr (rs_ListKind res))"
    "utf8 (rr_RestoreResource rr (rs_Plural res))" "utf8 (rr_RestoreResource rr (rs_Singular res))"
    using assms(2) ready_text [OF assms(1)] by (auto simp: resource_text_def)
  have c: "rr_RestoreCategories (Some res) = rs_Categories res" by (simp add: rr_RestoreCategories_def)
  have eq: "restored_names_of rr res (JObj m) = JObj (m(''categories'' \<mapsto> gv_json (VStrings (rs_Categories res)),
      ''kind'' \<mapsto> gv_json (VString (rr_RestoreKind rr (rs_Kind res))), ''listKind'' \<mapsto> gv_json (VString (rr_RestoreKind rr (rs_ListKind res))),
      ''plural'' \<mapsto> gv_json (VString (rr_RestoreResource rr (rs_Plural res))), ''singular'' \<mapsto> gv_json (VString (rr_RestoreResource rr (rs_Singular res))),
      ''shortNames'' \<mapsto> gv_json (VStrings (Some (rr_RestoreShortNames rr (rs_ShortNames res))))))"
    by (simp add: restored_names_of_def set_names_def)
  show ?thesis
    unfolding c
    by (rule yields_bind set_field_yields assms(4) [unfolded eq] assms(3)
        gv_ok_categories [OF assms(1,2)] gv_ok_short_names [OF assms(1,2)] | assumption | simp (no_asm) add: t)+
qed

lemma renameCRDSpec_yields:
  assumes "rules_ready rr" and "resource_text res" and "doc D x (JObj m)"
    and "m ''group'' = Some (JStr g)" and "m ''names'' = Some n" and "names_match res n"
  shows "yields D (renameCRDSpec L rr res x)
    (JObj (m(''group'' \<mapsto> JStr (rr_RenameApiVersion rr g), ''names'' \<mapsto> renamed_names_of rr res n)))"
proof -
  let ?m = "m(''group'' \<mapsto> JStr (rr_RenameApiVersion rr g))"
  have "utf8 g" using text_str [of _ "JObj m" "[''group'']" g] assms(3,4) by (auto simp: doc_def)
  then have "utf8 (rr_RenameApiVersion rr g)" using ready_text [OF assms(1)] by blast
  then have "yields D (TransformString L x ''group'' (rr_RenameApiVersion rr)) (JObj ?m)"
    using TransformString_yields [OF assms(3), of "''group''" "rr_RenameApiVersion rr"] assms(4)
    by (simp add: has_text_def jtext_at_def j_string_def)
  moreover have "yields D (let names = Some (gjson_Raw L (gjson_GetBytes L y ''names'')) in
     res_bind (set_if_exists L names ''categories'' (VStrings (rr_RenameCategories rr (rs_Categories res)))) (\<lambda>names.
     res_bind (set_if_exists L names ''kind'' (VString (rr_RenameKind rr (rs_Kind res)))) (\<lambda>names.
     res_bind (set_if_exists L names ''listKind'' (VString (rr_RenameKind rr (rs_ListKind res)))) (\<lambda>names.
     res_bind (set_if_exists L names ''plural'' (VString (rr_RenameResource rr (rs_Plural res)))) (\<lambda>names.
     res_bind (set_if_exists L names ''singular'' (VString (rr_RenameResource rr (rs_Singular res)))) (\<lambda>names.
     res_bind (set_if_exists L names ''shortNames'' (VStrings (Some (rr_RenameShortNames rr (rs_ShortNames res))))) (\<lambda>names.
     sjson_SetRawBytes L y ''names'' names)))))))
    (JObj (?m(''names'' \<mapsto> renamed_names_of rr res n)))" if "doc D y (JObj ?m)" for y
  proof -
    have "V (gjson_GetBytes L y ''names'') = Some n" using GetBytes [OF that, of "''names''"] assms(5) by simp
    then have raw: "doc D (Some (gjson_Raw L (gjson_GetBytes L y ''names''))) n" by (simp add: Raw)
    show ?thesis
      unfolding Let_def
      by (rule rename_names_yields [OF assms(1,2) raw assms(6)])
        (use SetRawBytes [OF that, of "''names''"] assms(5) in simp)
  qed
  ultimately show ?thesis unfolding renameCRDSpec_def by (rule yields_bind)
qed

lemma RenameCRD_yields:
  assumes "rules_ready rr" and "crd_rule rr gr res" and "doc D x j" and "crd_of gr res j"
  shows "yields D (RenameCRD L rr x) (j_renamed_crd rr gr res j)"
proof -
  let ?N = "rr_RenameResource rr (rs_Plural res) @ ''.'' @ rr_RenameApiVersion rr (gr_Group gr)"
  let ?ja = "jset j [''metadata'', ''name''] (JStr ?N)"
  note c = assms(4) [unfolded crd_of_def] and r = assms(2) [unfolded crd_rule_def]
  obtain n where n: "jget j [''spec'', ''names''] = Some n" "names_match res n" using c by (auto split: option.splits)
  obtain m where m: "jget j [''spec''] = Some (JObj m)" "m ''group'' = Some (JStr (gr_Group gr))" "m ''names'' = Some n"
    using jget_prefix [OF n(1)] jget_prefix [of j "''spec''" "''group''"] c by fastforce
  have rt: "resource_text res" "utf8 (gr_Group gr)" using ready_resource_text [OF assms(1)] r by blast+
  have name: "gjson_String L (gjson_GetBytes L x ''metadata.name'') = rs_Plural res @ ''.'' @ gr_Group gr"
    using String_at [OF assms(3), of "''metadata.name''"] c by (simp add: has_text_def jtext_at_def)
  have "utf8 (rr_RenameResource rr (rs_Plural res))" "utf8 (rr_RenameApiVersion rr (gr_Group gr))"
    using ready_text(5) [OF assms(1)] ready_text(1) [OF assms(1) rt(2)] rt(1) by (simp_all add: resource_text_def)
  then have "utf8 ?N" by (simp add: utf8_append)
  then have set: "yields D (sjson_SetBytes L x ''metadata.name'' (VString ?N)) ?ja"
    using SetString_yields [OF assms(3), of "''metadata.name''" ?N] jget_settable c by simp
  have ma: "jget ?ja [''spec''] = Some (JObj m)" using m(1) by (simp add: jget_jset_forks)
  have "yields D (let spec = gjson_GetBytes L y ''spec'' in
      res_bind (renameCRDSpec L rr res (Some (gjson_Raw L spec))) (\<lambda>newSpec. sjson_SetRawBytes L y ''spec'' newSpec))
    (j_renamed_crd rr gr res j)" if y: "doc D y ?ja" for y
  proof -
    let ?sp = "JObj (m(''group'' \<mapsto> JStr (rr_RenameApiVersion rr (gr_Group gr)), ''names'' \<mapsto> renamed_names_of rr res n))"
    have "V (gjson_GetBytes L y ''spec'') = Some (JObj m)" using GetBytes [OF y, of "''spec''"] ma by simp
    then have "yields D (renameCRDSpec L rr res (Some (gjson_Raw L (gjson_GetBytes L y ''spec'')))) ?sp"
      by (intro renameCRDSpec_yields [OF assms(1) rt(1) _ m(2,3) n(2)]) (simp add: Raw)
    moreover have "yields D (sjson_SetRawBytes L y ''spec'' z) (jset ?ja [''spec''] ?sp)" if "doc D z ?sp" for z
      using SetRawBytes [OF y, of "''spec''" z] that jget_settable [OF ma] by simp
    moreover have "jset ?ja [''spec''] ?sp = j_renamed_crd rr gr res j"
      using jset_append [OF ma, of "[''group'']"] ma m n(1) by (cases ?ja) (auto simp: j_renamed_crd_def)
    ultimately show ?thesis by (auto simp: Let_def intro: yields_bind)
  qed
  with set r show ?thesis by (auto simp: RenameCRD_def name Let_def intro: yields_bind)
qed

lemma RestoreCRD_yields:
  assumes "rules_ready rr" and "crd_rule rr gr res" and "doc D x j"
    and "jget j [''metadata'', ''name''] = Some (JStr (rr_RenameResource rr (rs_Plural res) @ ''.'' @ g'))"
    and "rr_IsRenamedGroup rr g'" and "jget j [''spec'', ''group''] \<noteq> None" and "jget j [''spec'', ''names''] = Some (JObj m)"
  shows "yields D (RestoreCRD L rr x)
    (jset (jset (jset j [''metadata'', ''name''] (JStr (rs_Plural res @ ''.'' @ gr_Group gr))) [''spec'', ''group''] (JStr (gr_Group gr)))
      [''spec'', ''names''] (restored_names_of rr res (JObj m)))"
proof -
  note r = assms(2) [unfolded crd_rule_def]
  let ?ja = "jset j [''metadata'', ''name''] (JStr (rs_Plural res @ ''.'' @ gr_Group gr))"
  let ?jb = "jset ?ja [''spec'', ''group''] (JStr (gr_Group gr))"
  have rt: "resource_text res" "utf8 (gr_Group gr)" using ready_resource_text [OF assms(1)] r by blast+
  have name: "gjson_String L (gjson_GetBytes L x ''metadata.name'') = rr_RenameResource rr (rs_Plural res) @ ''.'' @ g'"
    using String_at [OF assms(3), of "''metadata.name''"] assms(4) by (simp add: has_text_def jtext_at_def)
  have cut: "Cut (rr_RenameResource rr (rs_Plural res) @ ''.'' @ g') (CHR ''.'') = (rr_RenameResource rr (rs_Plural res), g', True)"
    using r by (simp add: rr_RenameResource_def Cut_found)
  have trim: "rr_RestoreResource rr (rr_RenameResource rr (rs_Plural res)) = rs_Plural res"
    by (simp add: rr_RestoreResource_def rr_RenameResource_def)
  have found: "rr_GroupResourceRules rr (rs_Plural res) = Some (gr, res)" using r by blast
  have hg: "\<not> rr_HasGroup rr g'"
    using assms(1,5) renamed_not_group by (auto simp: rr_HasGroup_iff rr_IsRenamedGroup_iff)
  have 1: "yields D (sjson_SetBytes L x ''metadata.name'' (VString (rs_Plural res @ ''.'' @ gr_Group gr))) ?ja"
    using SetString_yields [OF assms(3), of "''metadata.name''"] jget_settable [OF assms(4)] rt
    by (simp add: resource_text_def utf8_append)
  have 2: "yields D (sjson_SetBytes L y ''spec.group'' (VString (gr_Group gr))) ?jb" if "doc D y ?ja" for y
    using SetString_yields [OF that, of "''spec.group''" "gr_Group gr"] assms(6) rt(2) jget_settable
      settable_jset_forks [of "[''metadata'', ''name'']" "[''spec'', ''group'']" j] by auto
  have nb: "jget ?jb [''spec'', ''names''] = Some (JObj m)" using assms(7) by (simp add: jget_jset_forks)
  have 3: "yields D (sjson_SetRawBytes L z ''spec.names'' y)
      (jset ?jb [''spec'', ''names''] (restored_names_of rr res (JObj m)))"
    if "doc D z ?jb" "doc D y (restored_names_of rr res (JObj m))" for y z
    using SetRawBytes [OF that(1), of "''spec.names''" y] that(2) jget_settable [OF nb] by simp
  have raw: "doc D (Some (gjson_Raw L (gjson_GetBytes L z ''spec.names''))) (JObj m)" if "doc D z ?jb" for z
    using GetBytes [OF that, of "''spec.names''"] nb by (simp add: Raw)
  show ?thesis
    unfolding RestoreCRD_def Let_def name cut prod.case
    by (simp only: hg assms(5) trim found option.case prod.case if_True if_False not_True_eq_False,
      rule yields_bind [OF 1], rule yields_bind [OF 2], assumption, rule restore_names_yields [OF assms(1) rt(1) raw], assumption, rule 3)
qed

end

section \<open>Properties\<close>


definition sample_crd :: rj where
  "sample_crd = RObj [(''kind'', RStr ''CustomResourceDefinition''), (''metadata'', RObj [(''name'', RStr ''rs.g.io'')]),
     (''spec'', RObj [(''group'', RStr ''g.io''), (''scope'', RStr ''Namespaced''),
       (''names'', RObj [(''categories'', RArr [RStr ''all'']), (''kind'', RStr ''R''), (''listKind'', RStr ''RList''), (''plural'', RStr ''rs''),
         (''singular'', RStr ''r''), (''shortNames'', RArr [RStr ''sr''])])])]"


text \<open>
  What a restored definition can turn into besides a definition: a name without a dot is an
  error; a definition of a group with rules is skipped, so that the server's own definition never
  shows beside the restored one; a definition of any group that is not a renamed one gives the nil
  payload, for a single object as well as for an item of a list.
\<close>

theorem restore_crd_other:
  assumes "json_library L D V" and "rules_ready rr" and "doc D x j"
    and "jget j [''metadata'', ''name''] = Some (JStr name)"
  shows "(CHR ''.'' \<notin> set name \<longrightarrow> RestoreCRD L rr x = Inl (malformed_crd name)) \<and>
    (\<forall>r g. name = r @ ''.'' @ g \<longrightarrow> CHR ''.'' \<notin> set r \<longrightarrow>
      (rr_HasGroup rr g \<longrightarrow> RestoreCRD L rr x = Inl SkipItem) \<and>
      (\<not> rr_HasGroup rr g \<and> \<not> rr_IsRenamedGroup rr g \<longrightarrow> RestoreCRD L rr x = Inr None))"
proof -
  have "gjson_String L (gjson_GetBytes L x ''metadata.name'') = name"
    using json_library.String_at [OF assms(1,3), of "''metadata.name''"] assms(4) by (simp add: has_text_def jtext_at_def)
  then show ?thesis by (auto simp: RestoreCRD_def)
qed

theorem restore_crd_other_witness:
  "RestoreCRD ref_lib (rr_Init sample_rules) (Some (print sample_crd)) = Inl SkipItem"
proof -
  have ok: "rj_ok sample_crd" "rr_HasGroup (rr_Init sample_rules) ''g.io''" by code_simp+
  have "jget (rj_abs sample_crd) [''metadata'', ''name''] = Some (JStr ''rs.g.io'')" by (simp add: sample_crd_def)
  from restore_crd_other [OF ref.json_library_axioms sample_rules_ready ref_doc [OF ok(1)] this, THEN conjunct2,
    THEN spec [of _ "''rs''"], THEN spec [of _ "''g.io''"]] ok(2)
  show ?thesis by simp
qed

text \<open>
  A patch that cannot be renamed is lost: when renaming the spec in any operation of a JSON patch fails,
  the patch is answered with a nil payload and without an error.
\<close>

lemma crd_patch_error_lost:
  assumes "RenameMetadataPatch L rr x = Inr y" and "RewriteArrayS L y Root (RenameCRDPatch_item L rr res) False = (True, Inl e)"
  shows "RenameCRDPatch L rr res x = Inr None"
  using assms by (simp add: RenameCRDPatch_def)

definition failing_patch :: rj where
  "failing_patch = RArr [RObj [(''op'', RStr ''replace''), (''path'', RStr ''/spec''), (''value'', RStr ''v'')]]"

lemma crd_patch_error_lost_sample:
  "RenameCRDPatch ref_lib (rr_Init sample_rules) (snd (sample_resource ''rs'' ''r'' ''R'')) (Some (print failing_patch)) = Inr None"
  by code_simp

end
