(* ===== verification/Discovery.thy ===== *)
theory Discovery
  imports Payload "HOL-Library.Multiset"
begin

text \<open>
  Discovery responses, \<^verbatim>\<open>pkg/rewriter/discovery.go\<close>: the list of groups, one group, the resources of
  one group and version, and the aggregated discovery document.

  The aggregated document is regrouped: the resources of one renamed group may belong to several
  original groups. The code collects them in a map of maps and then ranges over both. A Go map is an
  association list in the order of insertion; the order of a range is up to the runtime, so the
  operations take the two orders as an argument \<open>range_order\<close>, of which only that every entry
  is visited once is ever assumed. The map \<^verbatim>\<open>versionFreshness\<close> is written but never read and is left out.
\<close>

section \<open>Lists of groups and resources\<close>

definition restore_group_item :: "'r jsonlib \<Rightarrow> RewriteRules \<Rightarrow> bytes \<Rightarrow> bytes res" where
  "restore_group_item L rules groupObj =
     (let groupName = gjson_String L (gjson_GetBytes L groupObj ''name'') in
      if rr_HasGroup rules groupName then Inl SkipItem
      else
        res_bind (TransformString L groupObj ''name'' (\<lambda>name. rr_RestoreApiVersion rules name)) (\<lambda>groupObj.
        res_bind (TransformString L groupObj ''preferredVersion.groupVersion'' (\<lambda>groupVersion. rr_RestoreApiVersion rules groupVersion)) (\<lambda>groupObj.
        RewriteArray L groupObj ''versions'' (\<lambda>versionObj.
          TransformString L versionObj ''groupVersion'' (\<lambda>groupVersion. rr_RestoreApiVersion rules groupVersion)))))"

definition RewriteAPIGroupList :: "'r jsonlib \<Rightarrow> RewriteRules \<Rightarrow> bytes \<Rightarrow> bytes res" where
  "RewriteAPIGroupList L rules obj = RewriteArray L obj ''groups'' (restore_group_item L rules)"

definition RewriteAPIGroup :: "'r jsonlib \<Rightarrow> RewriteRules \<Rightarrow> bytes \<Rightarrow> bytes res" where
  "RewriteAPIGroup L rules obj =
     (let groupName = gjson_String L (gjson_GetBytes L obj ''name'') in
      if \<not> rr_IsRenamedGroup rules groupName then Inr obj
      else
        res_bind (sjson_SetBytes L obj ''name'' (VString (rr_RestoreApiVersion rules groupName))) (\<lambda>obj.
        res_bind (RewriteArray L obj ''versions'' (\<lambda>versionObj.
          TransformString L versionObj ''groupVersion'' (\<lambda>groupVersion. rr_RestoreApiVersion rules groupVersion))) (\<lambda>obj.
        TransformString L obj ''preferredVersion.groupVersion''
          (\<lambda>preferredGroupVersion. rr_RestoreApiVersion rules preferredGroupVersion))))"

definition restore_resource_item :: "'r jsonlib \<Rightarrow> RewriteRules \<Rightarrow> string \<Rightarrow> bytes \<Rightarrow> bytes res" where
  "restore_resource_item L rules origGroup resource =
     (let name = gjson_String L (gjson_GetBytes L resource ''name'');
          origResourceType = rr_RestoreResource rules name
      in case rr_ResourceRules rules origGroup origResourceType of
        None \<Rightarrow> Inr resource
      | Some (_, resourceRule) \<Rightarrow>
          res_bind (TransformString L resource ''name'' (\<lambda>name. origResourceType)) (\<lambda>resource.
          res_bind (TransformString L resource ''kind'' (\<lambda>kind. rr_RestoreKind rules kind)) (\<lambda>resource.
          res_bind (TransformString L resource ''singularName'' (\<lambda>singularName. rr_RestoreResource rules singularName)) (\<lambda>resource.
          res_bind (TransformArrayOfStrings L resource ''shortNames'' (\<lambda>shortName. rr_RestoreShortName rules shortName)) (\<lambda>resource.
          if gjson_Exists L (gjson_GetBytes L resource ''categories'')
          then sjson_SetBytes L resource ''categories'' (VStrings (rr_RestoreCategories (Some resourceRule)))
          else Inr resource)))))"

definition RewriteAPIResourceList :: "'r jsonlib \<Rightarrow> RewriteRules \<Rightarrow> bytes \<Rightarrow> bytes res" where
  "RewriteAPIResourceList L rules obj =
     (let groupVersion = gjson_String L (gjson_GetBytes L obj ''groupVersion'') in
      if \<not> rr_IsRenamedGroup rules groupVersion then Inr obj
      else (let origGroup = rr_RestoreApiVersion rules groupVersion in
        res_bind (sjson_SetBytes L obj ''groupVersion'' (VString origGroup)) (\<lambda>obj.
        RewriteArray L obj ''resources'' (restore_resource_item L rules origGroup))))"

section \<open>Aggregated discovery\<close>

record sliceBytesBuilder =
  sb_buf :: string
  sb_begin :: bool

definition newSliceBytesBuilder :: sliceBytesBuilder where
  "newSliceBytesBuilder = \<lparr> sb_buf = ''['', sb_begin = False \<rparr>"

definition sb_Write :: "sliceBytesBuilder \<Rightarrow> bytes \<Rightarrow> sliceBytesBuilder" where
  "sb_Write b chunk =
     (if bytes_len chunk = 0 then b
      else \<lparr> sb_buf = (if sb_begin b then sb_buf b @ '','' else sb_buf b) @ bytes_str chunk, sb_begin = True \<rparr>)"

definition sb_WriteString :: "sliceBytesBuilder \<Rightarrow> string \<Rightarrow> sliceBytesBuilder" where
  "sb_WriteString b s =
     (if s = [] then b
      else \<lparr> sb_buf = (if sb_begin b then sb_buf b @ '','' else sb_buf b) @ s, sb_begin = True \<rparr>)"

definition sb_Complete :: "sliceBytesBuilder \<Rightarrow> sliceBytesBuilder" where
  "sb_Complete b = b\<lparr> sb_buf := sb_buf b @ '']'' \<rparr>"

definition sb_Bytes :: "sliceBytesBuilder \<Rightarrow> bytes" where
  "sb_Bytes b = Some (sb_buf b)"

text \<open>The two writes to \<^verbatim>\<open>responseKind\<close>, of a resource and of each of its subresources.\<close>

definition restore_response_kind :: "'r jsonlib \<Rightarrow> string \<Rightarrow> ResourceRule \<Rightarrow> bytes \<Rightarrow> bytes res" where
  "restore_response_kind L origGroup resRule item =
     (if gjson_IsObject L (gjson_GetBytes L item ''responseKind'')
      then res_bind (sjson_SetBytes L item ''responseKind.group'' (VString origGroup)) (\<lambda>item.
           sjson_SetBytes L item ''responseKind.kind'' (VString (rs_Kind resRule)))
      else Inr item)"

definition RestoreAggregatedDiscoveryResource :: "'r jsonlib \<Rightarrow> RewriteRules \<Rightarrow> bytes \<Rightarrow> (string \<times> bytes) res" where
  "RestoreAggregatedDiscoveryResource L rules obj =
     (let resource = gjson_String L (gjson_GetBytes L obj ''resource'');
          origResource = rr_RestoreResource rules resource
      in case rr_GroupResourceRules rules origResource of
        None \<Rightarrow> Inr ([], None)
      | Some (groupRule, resRule) \<Rightarrow>
          (let origGroup = gr_Group groupRule in
           res_bind (sjson_SetBytes L obj ''resource'' (VString origResource)) (\<lambda>obj.
           res_bind (restore_response_kind L origGroup resRule obj) (\<lambda>obj.
           res_bind (let singular = gjson_String L (gjson_GetBytes L obj ''singularResource'') in
             if singular \<noteq> [] then sjson_SetBytes L obj ''singularResource'' (VString (rr_RestoreResource rules singular))
             else Inr obj) (\<lambda>obj.
           res_bind (let shortNames = gjson_Array L (gjson_GetBytes L obj ''shortNames'') in
             if length shortNames > 0
             then sjson_SetBytes L obj ''shortNames'' (VStrings (Some (rr_RestoreShortNames rules (map (gjson_String L) shortNames))))
             else Inr obj) (\<lambda>obj.
           res_bind (if gjson_Exists L (gjson_GetBytes L obj ''categories'')
             then sjson_SetBytes L obj ''categories'' (VStrings (rr_RestoreCategories (Some resRule)))
             else Inr obj) (\<lambda>obj.
           Inr (origGroup,
             case RewriteArray L obj ''subresources'' (restore_response_kind L origGroup resRule) of
               Inl _ \<Rightarrow> None | Inr obj \<Rightarrow> obj))))))))"

text \<open>The map of maps: group, version, restored resources in the order they were appended.\<close>

type_synonym resource_index = "(string \<times> (string \<times> bytes list) list) list"

definition index_add :: "resource_index \<Rightarrow> string \<Rightarrow> string \<Rightarrow> bytes \<Rightarrow> resource_index" where
  "index_add idx grp version resource =
     (let groupVersions = (case map_of idx grp of None \<Rightarrow> [] | Some vs \<Rightarrow> vs);
          resources = (case map_of groupVersions version of None \<Rightarrow> [] | Some rs \<Rightarrow> rs)
      in AList.update grp (AList.update version (resources @ [resource]) groupVersions) idx)"

text \<open>\<open>None\<close>: a resource failed, and the code leaves the group as it is.\<close>

fun index_resources :: "'r jsonlib \<Rightarrow> RewriteRules \<Rightarrow> string \<Rightarrow> 'r list \<Rightarrow> resource_index \<Rightarrow> resource_index option" where
  "index_resources L rules versionName [] idx = Some idx"
| "index_resources L rules versionName (resource # resources) idx =
     (case RestoreAggregatedDiscoveryResource L rules (Some (gjson_Raw L resource)) of
       Inl _ \<Rightarrow> None
     | Inr (restoredGroup, restoredResource) \<Rightarrow>
         index_resources L rules versionName resources (index_add idx restoredGroup versionName restoredResource))"

fun index_versions :: "'r jsonlib \<Rightarrow> RewriteRules \<Rightarrow> 'r list \<Rightarrow> resource_index \<Rightarrow> resource_index option" where
  "index_versions L rules [] idx = Some idx"
| "index_versions L rules (version # versions) idx =
     (let versionBytes = Some (gjson_Raw L version);
          versionName = gjson_String L (gjson_GetBytes L versionBytes ''version'')
      in if versionName = [] then index_versions L rules versions idx
         else (case index_resources L rules versionName (gjson_Array L (gjson_GetBytes L versionBytes ''resources'')) idx of
           None \<Rightarrow> None
         | Some idx \<Rightarrow> index_versions L rules versions idx))"

record range_order =
  range_groups :: "resource_index \<Rightarrow> resource_index"
  range_versions :: "(string \<times> bytes list) list \<Rightarrow> (string \<times> bytes list) list"

text \<open>One possible order: the order of insertion.\<close>

definition insertion_order :: range_order where
  "insertion_order = \<lparr> range_groups = (\<lambda>m. m), range_versions = (\<lambda>m. m) \<rparr>"

definition quoted :: "string \<Rightarrow> string" where
  "quoted s = CHR 0x22 # s @ [CHR 0x22]"

definition group_head :: "string \<Rightarrow> string" where
  "group_head groupName =
     ''{'' @ quoted ''metadata'' @ '':{'' @ quoted ''name'' @ '':'' @ quoted groupName @ '', '' @ quoted ''creationTimestamp'' @ '':null}}''"

definition version_head :: "string \<Rightarrow> string" where
  "version_head versionName = ''{'' @ quoted ''version'' @ '':'' @ quoted versionName @ ''}''"

fun build_versions :: "'r jsonlib \<Rightarrow> (string \<times> bytes list) list \<Rightarrow> sliceBytesBuilder \<Rightarrow> sliceBytesBuilder res" where
  "build_versions L [] restoredVersions = Inr restoredVersions"
| "build_versions L ((versionName, versionResources) # rest) restoredVersions =
     res_bind (sjson_SetRawBytes L (Some (version_head versionName)) ''resources''
       (sb_Bytes (sb_Complete (foldl sb_Write newSliceBytesBuilder versionResources)))) (\<lambda>restoredVersionObj.
     build_versions L rest (sb_Write restoredVersions restoredVersionObj))"

fun build_groups :: "'r jsonlib \<Rightarrow> range_order \<Rightarrow> resource_index \<Rightarrow> bytes list \<Rightarrow> bytes list res" where
  "build_groups L ord [] restoredGroupList = Inr restoredGroupList"
| "build_groups L ord ((groupName, groupVersions) # rest) restoredGroupList =
     res_bind (build_versions L (range_versions ord groupVersions) newSliceBytesBuilder) (\<lambda>restoredVersions.
     res_bind (sjson_SetRawBytes L (Some (group_head groupName)) ''versions'' (sb_Bytes (sb_Complete restoredVersions))) (\<lambda>restoredGroupObj.
     build_groups L ord rest (restoredGroupList @ [restoredGroupObj])))"

definition RestoreAggregatedGroupDiscovery ::
    "'r jsonlib \<Rightarrow> range_order \<Rightarrow> RewriteRules \<Rightarrow> bytes \<Rightarrow> bytes list option res" where
  "RestoreAggregatedGroupDiscovery L ord rules obj =
     (let versions = gjson_Array L (gjson_GetBytes L obj ''versions'') in
      if length versions = 0 then Inr None
      else (case index_versions L rules versions [] of
        None \<Rightarrow> Inr None
      | Some restoredResources \<Rightarrow>
          res_bind (build_groups L ord (range_groups ord restoredResources) []) (\<lambda>gs. Inr (Some gs))))"

fun discovery_loop :: "'r jsonlib \<Rightarrow> range_order \<Rightarrow> RewriteRules \<Rightarrow> 'r list \<Rightarrow> sliceBytesBuilder \<Rightarrow> sliceBytesBuilder res" where
  "discovery_loop L ord rules [] rwrItems = Inr rwrItems"
| "discovery_loop L ord rules (item # items) rwrItems =
     (let itemBytes = Some (gjson_Raw L item);
          groupName = gjson_String L (gjson_GetBytes L itemBytes ''metadata.name'')
      in if \<not> rr_IsRenamedGroup rules groupName
         then (if rr_HasGroup rules groupName then discovery_loop L ord rules items rwrItems
               else discovery_loop L ord rules items (sb_Write rwrItems itemBytes))
         else res_bind (RestoreAggregatedGroupDiscovery L ord rules itemBytes) (\<lambda>newItems.
           discovery_loop L ord rules items
             (case newItems of
               None \<Rightarrow> sb_Write rwrItems itemBytes
             | Some newItems \<Rightarrow> foldl sb_Write rwrItems newItems)))"

definition RewriteAPIGroupDiscoveryList :: "'r jsonlib \<Rightarrow> range_order \<Rightarrow> RewriteRules \<Rightarrow> bytes \<Rightarrow> bytes res" where
  "RewriteAPIGroupDiscoveryList L ord rules obj =
     (let items = gjson_Array L (gjson_GetBytes L obj ''items'') in
      if length items = 0 then Inr obj
      else res_bind (discovery_loop L ord rules items newSliceBytesBuilder) (\<lambda>rwrItems.
        sjson_SetRawBytes L obj ''items'' (sb_Bytes (sb_Complete rwrItems))))"

section \<open>Lists of groups on JSON values\<close>

definition j_group :: "RewriteRules \<Rightarrow> json \<Rightarrow> json" where
  "j_group rr g =
     j_array [''versions''] (\<lambda>v. Some (j_string [''groupVersion''] (rr_RestoreApiVersion rr) v))
       (j_string [''preferredVersion'', ''groupVersion''] (rr_RestoreApiVersion rr) (j_string [''name''] (rr_RestoreApiVersion rr) g))"

definition group_name :: "json \<Rightarrow> string" where
  "group_name g = jtext_at g [''name'']"

definition group_ok :: "json \<Rightarrow> bool" where
  "group_ok g \<longleftrightarrow> (case jget g [''name''] of Some (JStr _) \<Rightarrow> True | _ \<Rightarrow> False) \<and>
     has_text g [''preferredVersion'', ''groupVersion''] \<and> has_array g [''versions''] \<and>
     list_all (\<lambda>v. has_text v [''groupVersion'']) (items_at g [''versions''])"

lemma restored_not_renamed: "rules_ready rr \<Longrightarrow> \<not> rr_IsRenamedGroup rr (rr_RestoreApiVersion rr av)"
proof -
  assume r: "rules_ready rr"
  show ?thesis
    by (cases rule: mi_Restore_cases [OF r, of "group_of av"])
      (use renamed_not_group [OF r] in \<open>auto simp: rr_IsRenamedGroup_iff [OF r] restore_av_cut(1) [OF r]\<close>)
qed

lemma group_name_j_group: "group_ok g \<Longrightarrow> group_name (j_group rr g) = rr_RestoreApiVersion rr (group_name g)"
proof -
  assume "group_ok g"
  then obtain s where s: "jget g [''name''] = Some (JStr s)" by (auto simp: group_ok_def split: option.splits json.splits)
  then have "jget (j_string [''name''] (rr_RestoreApiVersion rr) g) [''name''] = Some (JStr (rr_RestoreApiVersion rr s))"
    using jget_settable [OF s] by (simp add: j_string_def jtext_at_def)
  then show ?thesis using s by (simp add: group_name_def j_group_def jtext_at_def)
qed

context json_library
begin

lemma group_versions_yields:
  assumes "rules_ready rr" and "doc D x g" and "has_array g [''versions'']" and "list_all (\<lambda>v. has_text v [''groupVersion'']) (items_at g [''versions''])"
  shows "yields D (RewriteArray L x ''versions'' (\<lambda>v. TransformString L v ''groupVersion'' (rr_RestoreApiVersion rr)))
    (j_array [''versions''] (\<lambda>v. Some (j_string [''groupVersion''] (rr_RestoreApiVersion rr) v)) g)"
proof -
  have "item_ok D (TransformString L y ''groupVersion'' (rr_RestoreApiVersion rr)) v (Some (j_string [''groupVersion''] (rr_RestoreApiVersion rr) v))"
    if "v \<in> set (items_at g [''versions''])" "doc D y v" for v y
    using TransformString_yields [OF that(2), of "''groupVersion''" "rr_RestoreApiVersion rr"] that(1) assms(4) ready_text(2) [OF assms(1)]
      utf8_jtext_at [OF that(2)] by (intro item_ok_Some) (simp add: list_all_iff)
  then show ?thesis
    using RewriteArray_yields [OF assms(2), of "''versions''" "\<lambda>v. TransformString L v ''groupVersion'' (rr_RestoreApiVersion rr)"] assms(3)
    by (simp add: Root_def)
qed

lemma restore_group_item_ok:
  assumes "rules_ready rr" and "doc D x g" and "group_ok g"
  shows "item_ok D (restore_group_item L rr x) g (if rr_HasGroup rr (group_name g) then None else Some (j_group rr g))"
proof -
  let ?f = "rr_RestoreApiVersion rr"
  let ?n = "j_string [''name''] ?f g" and ?p = "j_string [''preferredVersion'', ''groupVersion''] ?f (j_string [''name''] ?f g)"
  note ok = assms(3) [unfolded group_ok_def]
  have t: "has_text g [''name'']" using ok by (auto simp: has_text_def split: option.splits json.splits)
  have name: "gjson_String L (gjson_GetBytes L x ''name'') = group_name g"
    using String_at [OF assms(2), of "''name''"] t by (simp add: group_name_def)
  have "yields D (res_bind (TransformString L x ''name'' ?f) (\<lambda>y. res_bind (TransformString L y ''preferredVersion.groupVersion'' ?f) (\<lambda>z.
      RewriteArray L z ''versions'' (\<lambda>v. TransformString L v ''groupVersion'' ?f)))) (j_group rr g)"
    unfolding j_group_def
  proof (intro yields_bind)
    show "yields D (TransformString L x ''name'' ?f) ?n"
      using TransformString_yields [OF assms(2), of "''name''" ?f] t ready_text(2) [OF assms(1)] utf8_jtext_at [OF assms(2)] by simp
    show "yields D (TransformString L y ''preferredVersion.groupVersion'' ?f) ?p" if "doc D y ?n" for y
      using TransformString_yields [OF that, of "''preferredVersion.groupVersion''" ?f] ok ready_text(2) [OF assms(1)] utf8_jtext_at [OF that]
        place_cong(3) [of ?n "[''preferredVersion'', ''groupVersion'']" g] by simp
    show "yields D (RewriteArray L z ''versions'' (\<lambda>v. TransformString L v ''groupVersion'' ?f))
        (j_array [''versions''] (\<lambda>v. Some (j_string [''groupVersion''] ?f v)) ?p)" if "doc D z ?p" for z
      by (rule group_versions_yields [OF assms(1) that]) (use ok place_cong(1,5) [of ?p "[''versions'']" g] in simp_all)
  qed
  then show ?thesis
    by (auto simp: restore_group_item_def name intro: item_ok_Some item_ok_skip)
qed

end

text \<open>
  C17. Discovery of groups: the client sees the server's groups in their order, each renamed group
  under its original name; groups that the server has under an original name are dropped, so no
  group is listed twice, and no renamed name is left.
\<close>

theorem group_list_restored:
  assumes "json_library L D V" and "rules_ready rr" and "doc D x j" and "has_array j [''groups'']"
    and "list_all group_ok (items_at j [''groups''])"
  shows "\<exists>i. yields D (RewriteAPIGroupList L rr x) i \<and>
    map group_name (items_at i [''groups'']) =
      map (rr_RestoreApiVersion rr) (filter (\<lambda>n. \<not> rr_HasGroup rr n) (map group_name (items_at j [''groups'']))) \<and>
    list_all (\<lambda>g. \<not> rr_IsRenamedGroup rr (group_name g)) (items_at i [''groups''])"
proof -
  let ?g = "\<lambda>g. if rr_HasGroup rr (group_name g) then None else Some (j_group rr g)"
  let ?i = "j_array [''groups''] ?g j"
  have y: "yields D (RewriteAPIGroupList L rr x) ?i"
    using json_library.RewriteArray_yields [OF assms(1,3), of "''groups''" "restore_group_item L rr" ?g]
      json_library.restore_group_item_ok [OF assms(1,2)] assms(4,5)
    by (simp add: RewriteAPIGroupList_def Root_def list_all_iff)
  have "map group_name (List.map_filter ?g gs) = map (rr_RestoreApiVersion rr) (filter (\<lambda>n. \<not> rr_HasGroup rr n) (map group_name gs))"
    if "list_all group_ok gs" for gs
    using that by (induction gs) (auto simp: map_filter_simps group_name_j_group)
  from this [OF assms(5)] have n: "map group_name (items_at ?i [''groups'']) =
      map (rr_RestoreApiVersion rr) (filter (\<lambda>n. \<not> rr_HasGroup rr n) (map group_name (items_at j [''groups''])))"
    by (simp only: items_at_j_array_filter)
  have "\<not> rr_IsRenamedGroup rr (group_name g)" if "g \<in> set (items_at ?i [''groups''])" for g
  proof -
    have "group_name g \<in> set (map group_name (items_at ?i [''groups'']))" using that by simp
    then show ?thesis using restored_not_renamed [OF assms(2)] unfolding n by auto
  qed
  with y n show ?thesis by (intro exI [of _ ?i]) (simp add: list_all_iff)
qed

definition sample_groups :: rj where
  "sample_groups = RObj [(''kind'', RStr ''APIGroupList''), (''groups'', RArr [
     RObj [(''name'', RStr ''apps'')], RObj [(''name'', RStr ''g.io'')],
     RObj [(''name'', RStr ''x.g.io''), (''versions'', RArr [RObj [(''groupVersion'', RStr ''x.g.io/v1'')]])]])]"

theorem group_list_restored_witness:
  "\<exists>i. yields ref_D (RewriteAPIGroupList ref_lib (rr_Init sample_rules) (Some (print sample_groups))) i \<and>
    map group_name (items_at i [''groups'']) = [''apps'', ''g.io'']"
proof -
  have c: "rj_ok sample_groups" "\<not> rr_HasGroup (rr_Init sample_rules) ''apps''" "rr_HasGroup (rr_Init sample_rules) ''g.io''"
    "\<not> rr_HasGroup (rr_Init sample_rules) ''x.g.io''" "rr_RestoreApiVersion (rr_Init sample_rules) ''apps'' = ''apps''"
    "rr_RestoreApiVersion (rr_Init sample_rules) ''x.g.io'' = ''g.io''" by code_simp+
  have ok: "has_array (rj_abs sample_groups) [''groups'']" "list_all group_ok (items_at (rj_abs sample_groups) [''groups''])"
    "map group_name (items_at (rj_abs sample_groups) [''groups'']) = [''apps'', ''g.io'', ''x.g.io'']"
    by (simp_all add: sample_groups_def has_array_def items_at_def group_ok_def has_text_def group_name_def jtext_at_def)
  from group_list_restored [OF ref.json_library_axioms sample_rules_ready ref_doc [OF c(1)] ok(1,2)] c(2-6) show ?thesis
    unfolding ok(3) by auto
qed

section \<open>The index of restored resources\<close>

text \<open>What the loops collect: group, version and restored resource, in the order of the document.\<close>

fun version_entries :: "'r jsonlib \<Rightarrow> RewriteRules \<Rightarrow> string \<Rightarrow> 'r list \<Rightarrow> (string \<times> string \<times> bytes) list option" where
  "version_entries L rr v [] = Some []"
| "version_entries L rr v (r # rs) =
     (case RestoreAggregatedDiscoveryResource L rr (Some (gjson_Raw L r)) of
       Inl _ \<Rightarrow> None
     | Inr (g, b) \<Rightarrow> map_option (\<lambda>es. (g, v, b) # es) (version_entries L rr v rs))"

fun entries :: "'r jsonlib \<Rightarrow> RewriteRules \<Rightarrow> 'r list \<Rightarrow> (string \<times> string \<times> bytes) list option" where
  "entries L rr [] = Some []"
| "entries L rr (u # us) =
     (let v = gjson_String L (gjson_GetBytes L (Some (gjson_Raw L u)) ''version'') in
      if v = [] then entries L rr us
      else (case version_entries L rr v (gjson_Array L (gjson_GetBytes L (Some (gjson_Raw L u)) ''resources'')) of
        None \<Rightarrow> None
      | Some es \<Rightarrow> map_option (\<lambda>fs. es @ fs) (entries L rr us)))"

definition index_lookup :: "resource_index \<Rightarrow> string \<Rightarrow> string \<Rightarrow> bytes list" where
  "index_lookup idx g v = (case map_of idx g of None \<Rightarrow> [] | Some vs \<Rightarrow> (case map_of vs v of None \<Rightarrow> [] | Some rs \<Rightarrow> rs))"

definition index_wf :: "resource_index \<Rightarrow> bool" where
  "index_wf idx \<longleftrightarrow> distinct (map fst idx) \<and>
     list_all (\<lambda>(_, vs). vs \<noteq> [] \<and> distinct (map fst vs) \<and> list_all (\<lambda>(_, rs). rs \<noteq> []) vs) idx"

lemma index_lookup_add:
  "index_lookup (index_add idx g v r) g' v' = index_lookup idx g' v' @ (if g' = g \<and> v' = v then [r] else [])"
  by (auto simp: index_lookup_def index_add_def Let_def update_conv' split: option.split)

lemma update_not_Nil [simp]: "AList.update k v xs \<noteq> []"
  by (cases xs) auto

lemma index_wf_add: "index_wf idx \<Longrightarrow> index_wf (index_add idx g v r)"
proof -
  assume w: "index_wf idx"
  let ?vs = "case map_of idx g of None \<Rightarrow> [] | Some vs \<Rightarrow> vs"
  let ?rs = "case map_of ?vs v of None \<Rightarrow> [] | Some rs \<Rightarrow> rs"
  have vs: "distinct (map fst ?vs) \<and> list_all (\<lambda>(_, rs). rs \<noteq> []) ?vs"
    using w by (auto simp: index_wf_def list_all_iff split: option.split dest!: map_of_SomeD)
  have up: "list_all P (AList.update k x xs)" if "P (k, x)" "list_all P xs" for P k x and xs :: "('k \<times> 'v) list"
    using that by (induction xs) auto
  have "list_all (\<lambda>(_, rs). rs \<noteq> []) (AList.update v (?rs @ [r]) ?vs)" by (rule up) (use vs in simp_all)
  then have "list_all (\<lambda>(_, vs). vs \<noteq> [] \<and> distinct (map fst vs) \<and> list_all (\<lambda>(_, rs). rs \<noteq> []) vs)
      (AList.update g (AList.update v (?rs @ [r]) ?vs) idx)"
    by (intro up) (use vs w in \<open>simp_all add: distinct_update index_wf_def\<close>)
  then show ?thesis using w by (simp add: index_wf_def index_add_def Let_def distinct_update)
qed

lemma index_resources_entries:
  "index_resources L rr v rs idx = map_option (foldl (\<lambda>i (g, v, r). index_add i g v r) idx) (version_entries L rr v rs)"
  by (induction L rr v rs idx rule: index_resources.induct) (auto split: sum.split option.split simp: option.map_comp comp_def)

lemma index_versions_entries:
  "index_versions L rr us idx = map_option (foldl (\<lambda>i (g, v, r). index_add i g v r) idx) (entries L rr us)"
  by (induction L rr us idx rule: index_versions.induct)
    (auto simp: Let_def index_resources_entries option.map_comp comp_def split: option.split)

lemma foldl_index_add:
  "index_wf idx \<Longrightarrow> index_wf (foldl (\<lambda>i (g, v, r). index_add i g v r) idx es) \<and>
   index_lookup (foldl (\<lambda>i (g, v, r). index_add i g v r) idx es) g' v' =
     index_lookup idx g' v' @ map (\<lambda>(_, _, r). r) (filter (\<lambda>(g, v, _). g = g' \<and> v = v') es)"
  by (induction es arbitrary: idx) (auto simp: index_wf_add index_lookup_add)

lemma index_spec:
  assumes "index_versions L rr us [] = Some idx"
  shows "\<exists>es. entries L rr us = Some es \<and> index_wf idx \<and>
    (\<forall>g v. index_lookup idx g v = map (\<lambda>(_, _, r). r) (filter (\<lambda>(g', v', _). g' = g \<and> v' = v) es))"
  using assms foldl_index_add [of "[]"] by (fastforce simp: index_versions_entries index_wf_def index_lookup_def)

section \<open>The regrouped document\<close>

definition plain_text :: "string \<Rightarrow> bool" where
  "plain_text s \<longleftrightarrow> list_all (\<lambda>c. 32 \<le> (of_char c :: nat) \<and> (of_char c :: nat) < 128 \<and> c \<noteq> CHR 0x22 \<and> c \<noteq> CHR 0x5C) s"

text \<open>The two object literals of the code are read by the JSON packages as they look.\<close>

locale json_text = json_library +
  assumes version_text: "plain_text v \<Longrightarrow> D (version_head v) = Some (JObj [''version'' \<mapsto> JStr v])"
    and group_text: "plain_text g \<Longrightarrow>
      D (group_head g) = Some (JObj [''metadata'' \<mapsto> JObj [''name'' \<mapsto> JStr g, ''creationTimestamp'' \<mapsto> JNull]])"

lemma p_str_plain: "plain_text k \<Longrightarrow> p_str (k @ CHR 0x22 # t) = Some (k, t)"
proof -
  assume "plain_text k"
  then have "concat (map esc k) = k" by (induction k) (auto simp: plain_text_def esc_def)
  with p_str_print [of k t] show ?thesis by simp
qed

lemma plain_text_utf8: "plain_text s \<Longrightarrow> utf8 s"
  by (induction s) (auto simp: plain_text_def utf8.simps ascii_byte_def)

lemma ref_version_text: "plain_text v \<Longrightarrow> parse (version_head v) = Some (RObj [(''version'', RStr v)])"
  using p_str_plain [of "''version''"] p_str_plain [of v "''}''"]
  by (simp add: parse_def version_head_def quoted_def skip_ws_def ws_def plain_text_utf8 plain_text_def [of "''version''"])

lemma ref_group_text:
  "plain_text g \<Longrightarrow> parse (group_head g) =
     Some (RObj [(''metadata'', RObj [(''name'', RStr g), (''creationTimestamp'', RNull)])])"
  using p_str_plain [of "''metadata''"] p_str_plain [of "''name''"] p_str_plain [of "''creationTimestamp''"] p_str_plain [of g]
  by (simp add: parse_def group_head_def quoted_def skip_ws_def ws_def p_lit_def num_char_def HasPrefix_iff plain_text_utf8
      plain_text_def [of "''metadata''"] plain_text_def [of "''name''"] plain_text_def [of "''creationTimestamp''"])

interpretation reft: json_text ref_lib ref_D ref_V
  by unfold_locales (simp_all add: ref_D_def ref_version_text ref_group_text fun_upd_twist)

definition chunks :: "bytes list \<Rightarrow> string list" where
  "chunks bb = filter (\<lambda>s. s \<noteq> []) (map bytes_str bb)"

lemma foldl_sb_Write:
  "foldl sb_Write b bb = (if chunks bb = [] then b
     else \<lparr> sb_buf = sb_buf b @ (if sb_begin b then '','' else []) @ Join (chunks bb) '','', sb_begin = True \<rparr>)"
proof (induction bb arbitrary: b)
  case Nil
  then show ?case by (simp add: chunks_def)
next
  case (Cons x bb)
  show ?case
  proof (cases "bytes_str x = []")
    case True
    then have "sb_Write b x = b" "chunks (x # bb) = chunks bb" by (simp_all add: sb_Write_def bytes_len_def chunks_def)
    then show ?thesis using Cons.IH [of b] by simp
  next
    case False
    then have "chunks (x # bb) = bytes_str x # chunks bb" by (simp add: chunks_def)
    with False Cons.IH [of "sb_Write b x"] show ?thesis
      by (cases "chunks bb") (simp_all add: sb_Write_def bytes_len_def)
  qed
qed

lemma sb_array: "sb_Bytes (sb_Complete (foldl sb_Write newSliceBytesBuilder bb)) = Some (''['' @ Join (chunks bb) '','' @ '']'')"
  by (simp add: foldl_sb_Write newSliceBytesBuilder_def sb_Complete_def sb_Bytes_def)

definition version_value :: "(string \<Rightarrow> json option) \<Rightarrow> string \<times> bytes list \<Rightarrow> json" where
  "version_value D = (\<lambda>(v, rs). JObj [''version'' \<mapsto> JStr v, ''resources'' \<mapsto> JArr (List.map_filter D (chunks rs))])"

definition group_value :: "(string \<Rightarrow> json option) \<Rightarrow> range_order \<Rightarrow> string \<times> (string \<times> bytes list) list \<Rightarrow> json" where
  "group_value D ord = (\<lambda>(g, vs).
     JObj [''metadata'' \<mapsto> JObj [''name'' \<mapsto> JStr g, ''creationTimestamp'' \<mapsto> JNull],
           ''versions'' \<mapsto> JArr (map (version_value D) (range_versions ord vs))])"

definition version_typed :: "(string \<Rightarrow> json option) \<Rightarrow> string \<times> bytes list \<Rightarrow> bool" where
  "version_typed D = (\<lambda>(v, rs). plain_text v \<and> list_all (\<lambda>s. D s \<noteq> None) (chunks rs))"

definition group_typed :: "(string \<Rightarrow> json option) \<Rightarrow> string \<times> (string \<times> bytes list) list \<Rightarrow> bool" where
  "group_typed D = (\<lambda>(g, vs). plain_text g \<and> list_all (version_typed D) vs)"

lemma map_filter_values: "list_all (\<lambda>s. D s \<noteq> None) ts \<Longrightarrow> list_all2 (\<lambda>t j. D t = Some j) ts (List.map_filter D ts)"
  by (induction ts) (auto simp: map_filter_simps)

context json_text
begin

lemma chunks_docs: "list_all2 (doc D) bb js \<Longrightarrow> list_all2 (\<lambda>t j. D t = Some j) (chunks bb) js"
proof (induction bb js rule: list_all2_induct)
  case (Cons x xs y ys)
  then obtain t where t: "x = Some t" "D t = Some y" by (auto simp: doc_def)
  with empty_text have "chunks (x # xs) = t # chunks xs" by (auto simp: chunks_def)
  with t Cons show ?case by simp
qed (simp add: chunks_def)

lemma array_of_docs: "list_all2 (doc D) bb js \<Longrightarrow> doc D (sb_Bytes (sb_Complete (foldl sb_Write newSliceBytesBuilder bb))) (JArr js)"
  unfolding sb_array using array_text [OF chunks_docs] by simp

lemma build_versions_yields:
  assumes "list_all (version_typed D) vs"
  shows "\<exists>bb. build_versions L vs b = Inr (foldl sb_Write b bb) \<and> list_all2 (doc D) bb (map (version_value D) vs)"
  using assms
proof (induction vs arbitrary: b)
  case Nil
  show ?case by (intro exI [of _ "[]"]) simp
next
  case (Cons vr rest)
  obtain v rs where vr: "vr = (v, rs)" by (cases vr)
  with Cons.prems have t: "plain_text v" "list_all (\<lambda>s. D s \<noteq> None) (chunks rs)" by (simp_all add: version_typed_def)
  have "doc D (sb_Bytes (sb_Complete (foldl sb_Write newSliceBytesBuilder rs))) (JArr (List.map_filter D (chunks rs)))"
    unfolding sb_array using array_text [OF map_filter_values [OF t(2)]] by simp
  with SetRawBytes [of "Some (version_head v)" "JObj [''version'' \<mapsto> JStr v]" "''resources''"] version_text [OF t(1)]
  obtain o1 where o1: "sjson_SetRawBytes L (Some (version_head v)) ''resources'' (sb_Bytes (sb_Complete (foldl sb_Write newSliceBytesBuilder rs))) = Inr o1"
    "doc D o1 (version_value D vr)"
    by (fastforce simp: version_value_def vr yields_def)
  obtain bb where "build_versions L rest (sb_Write b o1) = Inr (foldl sb_Write (sb_Write b o1) bb)" "list_all2 (doc D) bb (map (version_value D) rest)"
    using Cons.IH Cons.prems by fastforce
  with o1 vr show ?case by (intro exI [of _ "o1 # bb"]) simp
qed

lemma build_groups_yields:
  assumes "list_all (\<lambda>(g, vs). plain_text g \<and> list_all (version_typed D) (range_versions ord vs)) is"
  shows "\<exists>gs. build_groups L ord is acc = Inr (acc @ gs) \<and> list_all2 (doc D) gs (map (group_value D ord) is)"
  using assms
proof (induction "is" arbitrary: acc)
  case Nil
  show ?case by simp
next
  case (Cons gv rest)
  obtain g vs where gv: "gv = (g, vs)" by (cases gv)
  with Cons.prems have t: "plain_text g" "list_all (version_typed D) (range_versions ord vs)" by simp_all
  obtain bb where bb: "build_versions L (range_versions ord vs) newSliceBytesBuilder = Inr (foldl sb_Write newSliceBytesBuilder bb)"
    "list_all2 (doc D) bb (map (version_value D) (range_versions ord vs))" using build_versions_yields [OF t(2)] by blast
  from array_of_docs [OF bb(2)] SetRawBytes [of "Some (group_head g)" _ "''versions''"] group_text [OF t(1)]
  obtain o1 where o1: "sjson_SetRawBytes L (Some (group_head g)) ''versions'' (sb_Bytes (sb_Complete (foldl sb_Write newSliceBytesBuilder bb))) = Inr o1"
    "doc D o1 (group_value D ord gv)"
    by (fastforce simp: group_value_def gv yields_def)
  obtain gs where "build_groups L ord rest (acc @ [o1]) = Inr ((acc @ [o1]) @ gs)" "list_all2 (doc D) gs (map (group_value D ord) rest)"
    using Cons.IH Cons.prems by fastforce
  with o1 bb gv show ?case by (intro exI [of _ "o1 # gs"]) simp
qed

end


definition sample_discovery :: rj where
  "sample_discovery = RObj [(''metadata'', RObj [(''name'', RStr ''x.g.io'')]), (''versions'', RArr [
     RObj [(''version'', RStr ''v1''), (''resources'', RArr [RObj [(''resource'', RStr ''prs'')], RObj [(''resource'', RStr ''pods'')]])]])]"

definition sample_index :: resource_index where
  "sample_index = [(''g.io'', [(''v1'', [Some (print (RObj [(''resource'', RStr ''rs'')]))])]), ([], [(''v1'', [None])])]"

lemma sample_discovery_index:
  "index_versions ref_lib (rr_Init sample_rules) (gjson_Array ref_lib (gjson_GetBytes ref_lib (Some (print sample_discovery)) ''versions'')) [] =
     Some sample_index"
  by code_simp


end
