(* ===== verification/Base64.thy ===== *)
theory Base64
  imports Prelude
begin

text \<open>
  \<^verbatim>\<open>base64.StdEncoding\<close> of the Go standard library, which carries the patches of admission reviews:
  three bytes become four characters of the alphabet, the last group is padded. Decoding ignores
  line breaks and the unused bits before the padding, and fails on everything else.

  Shown: decoding inverts encoding, and encoded texts are plain ASCII.
\<close>

section \<open>Model\<close>

text \<open>The alphabet: capital letters, small letters, digits, plus and slash.\<close>

definition b64_char :: "nat \<Rightarrow> char" where
  "b64_char n = (let m = n mod 64 in
     char_of (if m < 26 then m + 65 else if m < 52 then m + 71 else if m < 62 then m - 4 else if m = 62 then 43 else 47))"

definition b64_val :: "char \<Rightarrow> nat option" where
  "b64_val c = (let n = (of_char c :: nat) in
     if 65 \<le> n \<and> n \<le> 90 then Some (n - 65)
     else if 97 \<le> n \<and> n \<le> 122 then Some (n - 71)
     else if 48 \<le> n \<and> n \<le> 57 then Some (n + 4)
     else if n = 43 then Some 62
     else if n = 47 then Some 63 else None)"

fun EncodeToString :: "string \<Rightarrow> string" where
  "EncodeToString [] = []"
| "EncodeToString [a] =
     (let x = (of_char a :: nat) in [b64_char (x div 4), b64_char (x mod 4 * 16), CHR ''='', CHR ''=''])"
| "EncodeToString [a, b] =
     (let x = (of_char a :: nat); y = (of_char b :: nat)
      in [b64_char (x div 4), b64_char (x mod 4 * 16 + y div 16), b64_char (y mod 16 * 4), CHR ''=''])"
| "EncodeToString (a # b # c # s) =
     (let x = (of_char a :: nat); y = (of_char b :: nat); z = (of_char c :: nat)
      in b64_char (x div 4) # b64_char (x mod 4 * 16 + y div 16) # b64_char (y mod 16 * 4 + z div 64) # b64_char (z mod 64) #
         EncodeToString s)"

fun decode_groups :: "string \<Rightarrow> string option" where
  "decode_groups [] = Some []"
| "decode_groups (a # b # c # d # s) =
     (case (b64_val a, b64_val b) of
       (Some w, Some x) \<Rightarrow>
         (case (b64_val c, b64_val d) of
           (Some y, Some z) \<Rightarrow>
             map_option (\<lambda>r. char_of (w * 4 + x div 16) # char_of (x mod 16 * 16 + y div 4) # char_of (y mod 4 * 64 + z) # r)
               (decode_groups s)
         | (Some y, None) \<Rightarrow>
             if d = CHR ''='' \<and> s = [] then Some [char_of (w * 4 + x div 16), char_of (x mod 16 * 16 + y div 4)] else None
         | (None, _) \<Rightarrow>
             if c = CHR ''='' \<and> d = CHR ''='' \<and> s = [] then Some [char_of (w * 4 + x div 16)] else None)
     | _ \<Rightarrow> None)"
| "decode_groups s = None"

definition DecodeString :: "string \<Rightarrow> string option" where
  "DecodeString s = decode_groups (filter (\<lambda>c. c \<noteq> CHR 0x0A \<and> c \<noteq> CHR 0x0D) s)"

section \<open>Properties\<close>

lemma of_b64_char:
  "(of_char (b64_char n) :: nat) = (let m = n mod 64 in
     if m < 26 then m + 65 else if m < 52 then m + 71 else if m < 62 then m - 4 else if m = 62 then 43 else 47)"
  by (simp add: b64_char_def Let_def)

lemma b64_val_char: "b64_val (b64_char n) = Some (n mod 64)"
proof -
  have "n mod 64 < 64" by simp
  then consider "n mod 64 < 26" | "26 \<le> n mod 64" "n mod 64 < 52" | "52 \<le> n mod 64" "n mod 64 < 62"
    | "n mod 64 = 62" | "n mod 64 = 63" by linarith
  then show ?thesis
    by cases (auto simp: b64_val_def of_b64_char Let_def)
qed

lemma b64_char_plain: "ascii_byte (b64_char n)" "b64_char n \<noteq> CHR 0x0A" "b64_char n \<noteq> CHR 0x0D"
proof -
  have "43 \<le> (of_char (b64_char n) :: nat) \<and> (of_char (b64_char n) :: nat) < 128"
    using mod_less_divisor [of 64 n] unfolding of_b64_char Let_def by (auto simp del: mod_less_divisor)
  then show "ascii_byte (b64_char n)" "b64_char n \<noteq> CHR 0x0A" "b64_char n \<noteq> CHR 0x0D"
    by (auto simp: ascii_byte_def)
qed

lemma of_char_bound: "(of_char c :: nat) < 256"
  using nat_of_char_less_256 by blast

lemma b64_eq: "b64_val (CHR ''='') = None"
  by code_simp

lemma split_less: "(a :: nat) < m \<Longrightarrow> b < k \<Longrightarrow> a * k + b < m * k"
proof -
  assume "a < m" "b < k"
  then have "Suc a * k \<le> m * k" by (intro mult_le_mono1) simp
  with \<open>b < k\<close> show "a * k + b < m * k" by simp
qed

lemma six_two: "x < 256 \<Longrightarrow> y < 256 \<Longrightarrow> x div 4 mod 64 * 4 + (x mod 4 * 16 + y div 16) mod 64 div 16 = (x :: nat)"
  using split_less [of "x mod 4" 4 "y div 16" 16] by simp

lemma four_four: "y < 256 \<Longrightarrow> z < 256 \<Longrightarrow> (x mod 4 * 16 + y div 16) mod 64 mod 16 * 16 + (y mod 16 * 4 + z div 64) mod 64 div 4 = (y :: nat)"
  using split_less [of "x mod 4" 4 "y div 16" 16] split_less [of "y mod 16" 16 "z div 64" 4] by simp

lemma two_six: "z < 256 \<Longrightarrow> (y mod 16 * 4 + z div 64) mod 64 mod 4 * 64 + z mod 64 = (z :: nat)"
  using split_less [of "y mod 16" 16 "z div 64" 4] by simp

lemma bits_back:
  fixes a b c :: char
  defines "x \<equiv> (of_char a :: nat)" and "y \<equiv> (of_char b :: nat)" and "z \<equiv> (of_char c :: nat)"
  shows "char_of (x div 4 mod 64 * 4 + (x mod 4 * 16 + y div 16) mod 64 div 16) = a"
    and "char_of ((x mod 4 * 16 + y div 16) mod 64 mod 16 * 16 + (y mod 16 * 4 + z div 64) mod 64 div 4) = b"
    and "char_of ((y mod 16 * 4 + z div 64) mod 64 mod 4 * 64 + z mod 64) = c"
    and "char_of (x div 4 mod 64 * 4 + (x mod 4 * 16) mod 64 div 16) = a"
    and "char_of ((x mod 4 * 16 + y div 16) mod 64 mod 16 * 16 + (y mod 16 * 4) mod 64 div 4) = b"
proof -
  have l: "x < 256" "y < 256" "z < 256" by (simp_all add: x_def y_def z_def)
  note e = six_two [OF l(1,2)] four_four [OF l(2,3), of x] two_six [OF l(3), of y] six_two [OF l(1), of 0] four_four [OF l(2), of 0 x]
  show "char_of (x div 4 mod 64 * 4 + (x mod 4 * 16 + y div 16) mod 64 div 16) = a"
    unfolding e(1) by (simp add: x_def)
  show "char_of ((x mod 4 * 16 + y div 16) mod 64 mod 16 * 16 + (y mod 16 * 4 + z div 64) mod 64 div 4) = b"
    unfolding e(2) by (simp add: y_def)
  show "char_of ((y mod 16 * 4 + z div 64) mod 64 mod 4 * 64 + z mod 64) = c"
    unfolding e(3) by (simp add: z_def)
  have "x div 4 mod 64 * 4 + (x mod 4 * 16) mod 64 div 16 = x" using e(4) by simp
  then show "char_of (x div 4 mod 64 * 4 + (x mod 4 * 16) mod 64 div 16) = a" by (simp only: x_def char_of_char)
  have "(x mod 4 * 16 + y div 16) mod 64 mod 16 * 16 + (y mod 16 * 4) mod 64 div 4 = y" using e(5) by simp
  then show "char_of ((x mod 4 * 16 + y div 16) mod 64 mod 16 * 16 + (y mod 16 * 4) mod 64 div 4) = b"
    by (simp only: y_def char_of_char)
qed

lemma decode_groups_encode: "decode_groups (EncodeToString s) = Some s"
  by (induction s rule: EncodeToString.induct)
    (simp_all only: EncodeToString.simps Let_def decode_groups.simps b64_val_char b64_eq prod.case option.case bits_back
      mod_mod_trivial option.map simp_thms if_True)

lemma encode_plain: "c \<in> set (EncodeToString s) \<Longrightarrow> ascii_byte c \<and> c \<noteq> CHR 0x0A \<and> c \<noteq> CHR 0x0D"
proof (induction s rule: EncodeToString.induct)
  case (2 a)
  moreover have "ascii_byte (CHR ''='')" by code_simp
  ultimately show ?case by (auto simp: Let_def b64_char_plain)
next
  case (3 a b)
  moreover have "ascii_byte (CHR ''='')" by code_simp
  ultimately show ?case by (auto simp: Let_def b64_char_plain)
qed (auto simp: Let_def b64_char_plain)

theorem decode_encode: "DecodeString (EncodeToString s) = Some s"
proof -
  have "filter (\<lambda>c. c \<noteq> CHR 0x0A \<and> c \<noteq> CHR 0x0D) (EncodeToString s) = EncodeToString s"
    by (rule filter_True) (use encode_plain in blast)
  then show ?thesis by (simp add: DecodeString_def decode_groups_encode)
qed

lemma utf8_ascii_text: "list_all ascii_byte s \<Longrightarrow> utf8 s"
  by (induction s) (auto simp: utf8.simps)

lemma b64_encode_utf8: "utf8 (EncodeToString s)"
  by (rule utf8_ascii_text) (use encode_plain in \<open>auto simp: list_all_iff\<close>)

lemma encode_Nil [simp]: "EncodeToString s = [] \<longleftrightarrow> s = []"
  by (cases s rule: EncodeToString.cases) (auto simp: Let_def)

end
