(* ===== verification/Admission_Review.thy ===== *)
theory Admission_Review
  imports Payload Base64
begin

text \<open>
  Admission reviews, \<^verbatim>\<open>pkg/rewriter/admission_review.go\<close>: the request the server sends to a webhook of
  the controller is restored, the patch in the answer is renamed. The \<^verbatim>\<open>nil\<close> payload of a request
  that is left alone is \<open>None\<close>.
\<close>

section \<open>Model\<close>

definition RenameAdmissionReviewResponse :: "'r jsonlib \<Rightarrow> RewriteRules \<Rightarrow> bytes \<Rightarrow> bytes res" where
  "RenameAdmissionReviewResponse L rules obj =
     (let patchType = gjson_String L (gjson_GetBytes L obj ''patchType'') in
      if patchType \<noteq> ''JSONPatch'' then Inr obj
      else (let b64Patch = gjson_String L (gjson_GetBytes L obj ''patch'') in
        if b64Patch = [] then Inr obj
        else (case DecodeString b64Patch of
          None \<Rightarrow> Inl (Wrapf ''decode base64 patch'' (Errorf ''illegal base64 data''))
        | Some patch \<Rightarrow>
            res_bind (res_wrap ''rename metadata patch'' (RenameMetadataPatch L rules (Some patch))) (\<lambda>rwrPatch.
            sjson_SetBytes L obj ''patch'' (VString (EncodeToString (bytes_str rwrPatch)))))))"

definition RestoreAdmissionReviewObject :: "'r jsonlib \<Rightarrow> RewriteRules \<Rightarrow> bytes \<Rightarrow> bytes res" where
  "RestoreAdmissionReviewObject L rules obj =
     res_bind (res_wrap ''restore resource group, kind'' (RestoreResource L rules obj)) (\<lambda>obj.
     res_wrap ''restore resource metadata'' (TransformObject L obj ''metadata'' (\<lambda>metadataObj.
       RewriteMetadata L rules metadataObj Restore)))"

text \<open>
  The blocks for \<^verbatim>\<open>resource\<close> and \<^verbatim>\<open>requestResource\<close>: the first result says whether the group is a
  renamed one, otherwise the whole request is left alone.
\<close>

definition restore_resource_field :: "'r jsonlib \<Rightarrow> RewriteRules \<Rightarrow> string \<Rightarrow> string \<Rightarrow> string \<Rightarrow> bytes \<Rightarrow> bytes res option" where
  "restore_resource_field L rules field resourcePath groupPath obj =
     (let fieldObj = gjson_GetBytes L obj field;
          grp = gjson_Get L fieldObj ''group'';
          resource = gjson_Get L fieldObj ''resource''
      in if \<not> rr_IsRenamedGroup rules (gjson_String L grp) then None
         else Some (
           let restoredResourceType = rr_RestoreResource rules (gjson_String L resource) in
           res_bind (sjson_SetBytes L obj resourcePath (VString restoredResourceType)) (\<lambda>obj.
           let restoredGroup = rr_RestoreApiVersion rules (gjson_String L grp) in
           sjson_SetBytes L obj groupPath (VString restoredGroup))))"

text \<open>The blocks for \<^verbatim>\<open>kind\<close> and \<^verbatim>\<open>requestKind\<close>.\<close>

definition restore_kind_field :: "'r jsonlib \<Rightarrow> RewriteRules \<Rightarrow> string \<Rightarrow> string \<Rightarrow> string \<Rightarrow> bytes \<Rightarrow> bytes res" where
  "restore_kind_field L rules field kindPath groupPath obj =
     (let fieldObj = gjson_GetBytes L obj field;
          kind = gjson_Get L fieldObj ''kind'';
          restoredKind = rr_RestoreKind rules (gjson_String L kind)
      in res_bind (sjson_SetBytes L obj kindPath (VString restoredKind)) (\<lambda>obj.
         let grp = gjson_Get L fieldObj ''group'';
             restoredGroup = rr_RestoreApiVersion rules (gjson_String L grp)
         in sjson_SetBytes L obj groupPath (VString restoredGroup)))"

text \<open>The rest of a request without subresource: the kinds and the objects under review.\<close>

definition restore_request_objects :: "'r jsonlib \<Rightarrow> RewriteRules \<Rightarrow> bytes \<Rightarrow> bytes res" where
  "restore_request_objects L rules obj =
     res_bind (restore_kind_field L rules ''kind'' ''kind.kind'' ''kind.group'' obj) (\<lambda>obj.
     res_bind (restore_kind_field L rules ''requestKind'' ''requestKind.kind'' ''requestKind.group'' obj) (\<lambda>obj.
     res_bind (res_wrap (''restore '' @ [CHR 0x27] @ ''object'' @ [CHR 0x27]) (TransformObject L obj ''object'' (\<lambda>objectObj.
       RestoreAdmissionReviewObject L rules objectObj))) (\<lambda>obj.
     res_wrap (''restore '' @ [CHR 0x27] @ ''oldObject'' @ [CHR 0x27]) (TransformObject L obj ''oldObject'' (\<lambda>objectObj.
       RestoreAdmissionReviewObject L rules objectObj)))))"

definition RestoreAdmissionReviewRequest :: "'r jsonlib \<Rightarrow> RewriteRules \<Rightarrow> bytes \<Rightarrow> bytes res" where
  "RestoreAdmissionReviewRequest L rules obj =
     (case restore_resource_field L rules ''resource'' ''resource.resource'' ''resource.group'' obj of
       None \<Rightarrow> Inr None
     | Some r \<Rightarrow> res_bind r (\<lambda>obj.
     (case restore_resource_field L rules ''requestResource'' ''requestResource.resource'' ''requestResource.group'' obj of
       None \<Rightarrow> Inr None
     | Some r \<Rightarrow> res_bind r (\<lambda>obj.
     let fieldObj = gjson_GetBytes L obj ''subresource'' in
     if gjson_Exists L fieldObj \<and> gjson_String L fieldObj \<noteq> [] then Inr obj
     else restore_request_objects L rules obj))))"

definition RewriteAdmissionReview :: "'r jsonlib \<Rightarrow> RewriteRules \<Rightarrow> bytes \<Rightarrow> bytes res" where
  "RewriteAdmissionReview L rules obj =
     (if gjson_Exists L (gjson_GetBytes L obj ''response'')
      then TransformObject L obj ''response'' (\<lambda>responseObj. RenameAdmissionReviewResponse L rules responseObj)
      else (let request = gjson_GetBytes L obj ''request'' in
        if gjson_Exists L request
        then res_bind (RestoreAdmissionReviewRequest L rules (Some (gjson_Raw L request))) (\<lambda>newRequest.
          if bytes_len newRequest > 0 then sjson_SetRawBytes L obj ''request'' newRequest else Inr obj)
        else Inr obj))"

section \<open>Requests on JSON values\<close>

definition j_field :: "RewriteRules \<Rightarrow> string \<Rightarrow> string \<Rightarrow> (string \<Rightarrow> string) \<Rightarrow> json \<Rightarrow> json" where
  "j_field rr f k r j =
     jset (jset j [f, k] (JStr (r (jtext_at j [f, k])))) [f, ''group''] (JStr (rr_RestoreApiVersion rr (jtext_at j [f, ''group''])))"

definition j_request_objects :: "RewriteRules \<Rightarrow> json \<Rightarrow> json" where
  "j_request_objects rr j =
     j_object [''oldObject''] (j_payload rr Restore) (j_object [''object''] (j_payload rr Restore)
       (j_field rr ''requestKind'' ''kind'' (rr_RestoreKind rr) (j_field rr ''kind'' ''kind'' (rr_RestoreKind rr) j)))"

definition j_request :: "RewriteRules \<Rightarrow> json \<Rightarrow> json" where
  "j_request rr j =
     (let j = j_field rr ''requestResource'' ''resource'' (rr_RestoreResource rr) (j_field rr ''resource'' ''resource'' (rr_RestoreResource rr) j) in
      if jtext_at j [''subresource''] \<noteq> [] then j
      else j_request_objects rr j)"

definition field_ok :: "json \<Rightarrow> string \<Rightarrow> string \<Rightarrow> bool" where
  "field_ok j f k \<longleftrightarrow> (case jget j [f] of Some v \<Rightarrow> is_object v | None \<Rightarrow> False) \<and> has_text j [f, k] \<and> has_text j [f, ''group'']"

definition review_object_ok :: "RewriteRules \<Rightarrow> json option \<Rightarrow> bool" where
  "review_object_ok rr v \<longleftrightarrow> (case v of Some (JObj n) \<Rightarrow> resource_ok (JObj n) \<and> meta_ok rr Restore (j_versions rr Restore (JObj n)) | _ \<Rightarrow> True)"

definition request_ok :: "RewriteRules \<Rightarrow> json \<Rightarrow> bool" where
  "request_ok rr j \<longleftrightarrow> field_ok j ''resource'' ''resource'' \<and> field_ok j ''requestResource'' ''resource'' \<and>
     field_ok j ''kind'' ''kind'' \<and> field_ok j ''requestKind'' ''kind'' \<and> has_text j [''subresource''] \<and>
     review_object_ok rr (jget j [''object'']) \<and> review_object_ok rr (jget j [''oldObject''])"

lemma field_settable: "field_ok j f k \<Longrightarrow> settable j [f, l]"
  by (cases j) (auto simp: field_ok_def is_object_settable split: option.splits)

lemma jget_j_field: "g \<noteq> f \<Longrightarrow> jget (j_field rr f k r j) (g # ks) = jget j (g # ks)"
  by (simp add: j_field_def jget_jset_forks)

lemma jget_j_object: "g \<noteq> k \<Longrightarrow> jget (j_object [k] f j) (g # ks) = jget j (g # ks)"
  by (cases j; simp add: j_object_member; simp add: j_object_def)

lemma j_object_get: "jget j [k] = Some (JObj n) \<Longrightarrow> jget (j_object [k] f j) [k] = Some (f (JObj n))"
  using jget_settable [of j "[k]"] by (simp add: j_object_def)

lemma field_ok_j_field: "g \<noteq> f \<Longrightarrow> field_ok (j_field rr f k r j) g l = field_ok j g l"
  using place_cong(3) [OF jget_j_field, of g f] by (simp add: field_ok_def jget_j_field)

lemma jtext_j_field: "g \<noteq> f \<Longrightarrow> jtext_at (j_field rr f k r j) (g # ks) = jtext_at j (g # ks)"
  by (simp add: jtext_at_def jget_j_field)

lemma j_field_group:
  "field_ok j f k \<Longrightarrow> k \<noteq> ''group'' \<Longrightarrow> jget (j_field rr f k r j) [f, ''group''] = Some (JStr (rr_RestoreApiVersion rr (jtext_at j [f, ''group''])))"
  using settable_jset_forks [of "[f, k]" "[f, ''group'']" j] field_settable [of j f k] by (simp add: j_field_def)

lemma j_field_text: "field_ok j f k \<Longrightarrow> k \<noteq> ''group'' \<Longrightarrow> jget (j_field rr f k r j) [f, k] = Some (JStr (r (jtext_at j [f, k])))"
proof -
  assume "field_ok j f k" and "k \<noteq> ''group''"
  then have "forks [f, ''group''] [f, k]" "settable j [f, k]" using field_settable by simp_all
  then show ?thesis by (simp only: j_field_def jget_jset_forks jget_jset)
qed

context json_library
begin

lemma field_read:
  assumes "doc D x j" and "plain_path f" and "jpath f = [f]" and "plain_path k" and "jpath k = [k]" and "field_ok j f l" and "has_text j [f, k]"
  shows "gjson_String L (gjson_Get L (gjson_GetBytes L x f) k) = jtext_at j [f, k]"
proof -
  obtain v where v: "jget j [f] = Some v" using assms(6) by (auto simp: field_ok_def split: option.splits)
  then have "V (gjson_Get L (gjson_GetBytes L x f) k) = jget j [f, k]"
    using GetBytes [OF assms(1,2)] Get [OF assms(4)] assms(3,5) by (cases j) (auto split: option.splits)
  with assms(7) show ?thesis by (auto simp: has_text_def jtext_at_def intro: String)
qed

lemma field_write:
  assumes "rules_ready rr" and "doc D x j" and "field_ok j f k" and "k \<noteq> ''group''" and "utf8 (r (jtext_at j [f, k]))"
    and "plain_path fk" and "jpath fk = [f, k]" and "plain_path fg" and "jpath fg = [f, ''group'']"
  shows "yields D (res_bind (sjson_SetBytes L x fk (VString (r (jtext_at j [f, k])))) (\<lambda>x.
      sjson_SetBytes L x fg (VString (rr_RestoreApiVersion rr (jtext_at j [f, ''group''])))))
    (j_field rr f k r j)"
proof (rule yields_bind)
  let ?j = "jset j [f, k] (JStr (r (jtext_at j [f, k])))"
  show "yields D (sjson_SetBytes L x fk (VString (r (jtext_at j [f, k])))) ?j"
    using SetString_yields [OF assms(2,6)] field_settable [OF assms(3)] assms(5,7) by simp
  fix y
  assume y: "doc D y ?j"
  have "settable ?j [f, ''group'']"
    using settable_jset_forks [of "[f, k]" "[f, ''group'']" j] field_settable [OF assms(3)] assms(4) by simp
  then show "yields D (sjson_SetBytes L y fg (VString (rr_RestoreApiVersion rr (jtext_at j [f, ''group''])))) (j_field rr f k r j)"
    using SetString_yields [OF y assms(8)] assms(9) ready_text [OF assms(1)] utf8_jtext_at [OF assms(2)] by (simp add: j_field_def)
qed

lemma restore_resource_field_yields:
  assumes "rules_ready rr" and "doc D x j" and "field_ok j f ''resource''" and "rr_IsRenamedGroup rr (jtext_at j [f, ''group''])"
    and "plain_path f" and "jpath f = [f]" and "plain_path fk" and "jpath fk = [f, ''resource'']" and "plain_path fg" and "jpath fg = [f, ''group'']"
  shows "\<exists>r. restore_resource_field L rr f fk fg x = Some r \<and> yields D r (j_field rr f ''resource'' (rr_RestoreResource rr) j)"
proof -
  have "gjson_String L (gjson_Get L (gjson_GetBytes L x f) ''group'') = jtext_at j [f, ''group'']"
    "gjson_String L (gjson_Get L (gjson_GetBytes L x f) ''resource'') = jtext_at j [f, ''resource'']"
    by (rule field_read [OF assms(2,5,6) _ _ assms(3)]; use assms(3) in \<open>simp add: field_ok_def\<close>)+
  with field_write [OF assms(1-3) _ _ assms(7-10), of "rr_RestoreResource rr"] assms(4) ready_text [OF assms(1)] utf8_jtext_at [OF assms(2)]
  show ?thesis by (simp add: restore_resource_field_def)
qed

lemma restore_kind_field_yields:
  assumes "rules_ready rr" and "doc D x j" and "field_ok j f ''kind''"
    and "plain_path f" and "jpath f = [f]" and "plain_path fk" and "jpath fk = [f, ''kind'']" and "plain_path fg" and "jpath fg = [f, ''group'']"
  shows "yields D (restore_kind_field L rr f fk fg x) (j_field rr f ''kind'' (rr_RestoreKind rr) j)"
proof -
  have "gjson_String L (gjson_Get L (gjson_GetBytes L x f) ''group'') = jtext_at j [f, ''group'']"
    "gjson_String L (gjson_Get L (gjson_GetBytes L x f) ''kind'') = jtext_at j [f, ''kind'']"
    by (rule field_read [OF assms(2,4,5) _ _ assms(3)]; use assms(3) in \<open>simp add: field_ok_def\<close>)+
  with field_write [OF assms(1-3) _ _ assms(6-9), of "rr_RestoreKind rr"] ready_text [OF assms(1)] utf8_jtext_at [OF assms(2)]
  show ?thesis by (simp add: restore_kind_field_def)
qed

lemma review_object_yields:
  assumes "rules_ready rr" and "doc D x j" and "plain_path p" and "review_object_ok rr (jget j (jpath p))"
  shows "yields D (TransformObject L x p (RestoreAdmissionReviewObject L rr)) (j_object (jpath p) (j_payload rr Restore) j)"
proof (rule TransformObject_yields [OF assms(2,3)])
  fix m y
  assume m: "jget j (jpath p) = Some (JObj m)" and y: "doc D y (JObj m)"
  have ok: "resource_ok (JObj m)" "meta_ok rr Restore (j_versions rr Restore (JObj m))"
    using assms(4) m by (simp_all add: review_object_ok_def)
  show "yields D (RestoreAdmissionReviewObject L rr y) (j_payload rr Restore (JObj m))"
    unfolding RestoreAdmissionReviewObject_def j_payload_def
    using versions_yields [OF assms(1) y ok(1), of Restore] metadata_step_yields [OF assms(1) _ ok(2)]
    by (intro yields_bind yields_wrap) simp_all
qed

lemma request_objects_yields:
  assumes "rules_ready rr" and "doc D x j" and "field_ok j ''kind'' ''kind''" and "field_ok j ''requestKind'' ''kind''"
    and "review_object_ok rr (jget j [''object''])" and "review_object_ok rr (jget j [''oldObject''])"
  shows "yields D (restore_request_objects L rr x) (j_request_objects rr j)"
proof -
  let ?j1 = "j_field rr ''kind'' ''kind'' (rr_RestoreKind rr) j"
  let ?j2 = "j_field rr ''requestKind'' ''kind'' (rr_RestoreKind rr) ?j1"
  let ?j3 = "j_object [''object''] (j_payload rr Restore) ?j2"
  have 1: "yields D (restore_kind_field L rr ''kind'' ''kind.kind'' ''kind.group'' x) ?j1"
    by (rule restore_kind_field_yields [OF assms(1,2,3)]) simp_all
  have 2: "yields D (restore_kind_field L rr ''requestKind'' ''requestKind.kind'' ''requestKind.group'' y) ?j2" if "doc D y ?j1" for y
    by (rule restore_kind_field_yields [OF assms(1) that]) (use assms(4) in \<open>simp_all add: field_ok_j_field\<close>)
  have 3: "yields D (TransformObject L y ''object'' (RestoreAdmissionReviewObject L rr)) ?j3" if "doc D y ?j2" for y
    using review_object_yields [OF assms(1) that, of "''object''"] assms(5) by (simp add: jget_j_field)
  have 4: "yields D (TransformObject L y ''oldObject'' (RestoreAdmissionReviewObject L rr)) (j_object [''oldObject''] (j_payload rr Restore) ?j3)"
    if "doc D y ?j3" for y
    using review_object_yields [OF assms(1) that, of "''oldObject''"] assms(6) by (simp add: jget_j_field)
  show ?thesis
    unfolding restore_request_objects_def j_request_objects_def
    by (intro yields_bind [OF 1] yields_bind [OF 2] yields_bind [OF yields_wrap [OF 3]] yields_wrap [OF 4])
qed

lemma request_yields:
  assumes "rules_ready rr" and "doc D x j" and "request_ok rr j"
    and "rr_IsRenamedGroup rr (jtext_at j [''resource'', ''group''])" and "rr_IsRenamedGroup rr (jtext_at j [''requestResource'', ''group''])"
  shows "yields D (RestoreAdmissionReviewRequest L rr x) (j_request rr j)"
proof -
  note ok = assms(3) [unfolded request_ok_def]
  let ?j1 = "j_field rr ''resource'' ''resource'' (rr_RestoreResource rr) j"
  let ?j2 = "j_field rr ''requestResource'' ''resource'' (rr_RestoreResource rr) ?j1"
  obtain r1 where r1: "restore_resource_field L rr ''resource'' ''resource.resource'' ''resource.group'' x = Some r1" "yields D r1 ?j1"
    using restore_resource_field_yields [OF assms(1,2), of "''resource''" "''resource.resource''" "''resource.group''"] ok assms(4) by auto
  have r2: "\<exists>r. restore_resource_field L rr ''requestResource'' ''requestResource.resource'' ''requestResource.group'' y = Some r \<and> yields D r ?j2"
    if "doc D y ?j1" for y
    by (rule restore_resource_field_yields [OF assms(1) that])
      (use ok assms(5) in \<open>simp_all add: field_ok_j_field jtext_j_field\<close>)
  have t: "has_text ?j2 [''subresource'']" using ok by (simp add: has_text_def jget_j_field)
  have tail: "yields D (let fieldObj = gjson_GetBytes L y ''subresource'' in
      if gjson_Exists L fieldObj \<and> gjson_String L fieldObj \<noteq> [] then Inr y else restore_request_objects L rr y) (j_request rr j)"
    if y: "doc D y ?j2" for y
  proof -
    have "gjson_Exists L (gjson_GetBytes L y ''subresource'') \<and> gjson_String L (gjson_GetBytes L y ''subresource'') \<noteq> [] \<longleftrightarrow>
        jtext_at ?j2 [''subresource''] \<noteq> []"
      using String_at [OF y, of "''subresource''"] GetBytes [OF y, of "''subresource''"] t
      by (cases "jget ?j2 [''subresource'']") (auto simp: Exists jtext_at_def)
    moreover have "yields D (restore_request_objects L rr y) (j_request_objects rr ?j2)"
      by (rule request_objects_yields [OF assms(1) y]) (use ok in \<open>simp_all add: field_ok_j_field jget_j_field\<close>)
    ultimately show ?thesis using y by (simp add: j_request_def Let_def)
  qed
  have "yields D (case restore_resource_field L rr ''requestResource'' ''requestResource.resource'' ''requestResource.group'' y of
      None \<Rightarrow> Inr None | Some r \<Rightarrow> res_bind r (\<lambda>obj. let fieldObj = gjson_GetBytes L obj ''subresource'' in
        if gjson_Exists L fieldObj \<and> gjson_String L fieldObj \<noteq> [] then Inr obj else restore_request_objects L rr obj)) (j_request rr j)"
    if "doc D y ?j1" for y
  proof -
    from r2 [OF that] obtain r where r: "restore_resource_field L rr ''requestResource'' ''requestResource.resource'' ''requestResource.group'' y = Some r"
      "yields D r ?j2" by blast
    show ?thesis unfolding r(1) option.case by (rule yields_bind [OF r(2) tail])
  qed
  then show ?thesis
    unfolding RestoreAdmissionReviewRequest_def r1(1) option.case by (rule yields_bind [OF r1(2)])
qed

end

lemma review_request_yields:
  assumes "json_library L D V" and "rules_ready rr" and "replaces_wf rr" and "doc D x j"
    and "jget j [''response''] = None" and "jget j [''request''] = Some q" and "request_ok rr q"
    and "rr_IsRenamedGroup rr (jtext_at q [''resource'', ''group''])" and "rr_IsRenamedGroup rr (jtext_at q [''requestResource'', ''group''])"
    and "jtext_at q [''subresource''] = []" and "client_payload rr c" and "jget q [''object''] = Some (j_payload rr Rename c)"
  shows "yields D (RewriteAdmissionReview L rr x) (jset j [''request''] (j_request rr q)) \<and> jget (j_request rr q) [''object''] = Some c \<and>
    jget (j_request rr q) [''resource'', ''group''] = Some (JStr (rr_RestoreApiVersion rr (jtext_at q [''resource'', ''group'']))) \<and>
    jget (j_request rr q) [''kind'', ''kind''] = Some (JStr (rr_RestoreKind rr (jtext_at q [''kind'', ''kind''])))"
proof -
  let ?r = "gjson_GetBytes L x ''request''"
  have V: "V ?r = Some q" and N: "V (gjson_GetBytes L x ''response'') = None"
    using json_library.GetBytes [OF assms(1,4)] assms(5,6) by simp_all
  have "doc D (Some (gjson_Raw L ?r)) q" using json_library.Raw [OF assms(1), OF V] by simp
  then have "yields D (RestoreAdmissionReviewRequest L rr (Some (gjson_Raw L ?r))) (j_request rr q)"
    by (rule json_library.request_yields [OF assms(1,2) _ assms(7-9)])
  then obtain t where t: "RestoreAdmissionReviewRequest L rr (Some (gjson_Raw L ?r)) = Inr (Some t)" "D t = Some (j_request rr q)"
    by (auto simp: yields_def doc_def)
  then have "bytes_len (Some t) > 0" using json_library.empty_text [OF assms(1)] by (cases t) (auto simp: bytes_len_def)
  moreover have "yields D (sjson_SetRawBytes L x ''request'' (Some t)) (jset j [''request''] (j_request rr q))"
    using json_library.SetRawBytes [OF assms(1,4), of "''request''"] jget_settable [OF assms(6)] t(2) by simp
  ultimately have y: "yields D (RewriteAdmissionReview L rr x) (jset j [''request''] (j_request rr q))"
    using t(1) V N by (simp add: RewriteAdmissionReview_def json_library.Exists [OF assms(1)])
  note r = j_payload_roundtrip [OF assms(2,3,11)] and fo = assms(7) [unfolded request_ok_def]
  obtain n where n: "j_payload rr Rename c = JObj n"
    using resource_ok_object [OF r(4)] by (cases "j_payload rr Rename c") (simp_all add: is_object_def)
  have d: "j_request rr q = j_request_objects rr (j_field rr ''requestResource'' ''resource'' (rr_RestoreResource rr)
      (j_field rr ''resource'' ''resource'' (rr_RestoreResource rr) q))"
    using assms(10) by (simp add: j_request_def Let_def jtext_j_field)
  have "jget (j_request rr q) [''object''] = Some (j_payload rr Restore (JObj n))"
    unfolding d j_request_objects_def
    by (subst jget_j_object, simp, rule j_object_get) (simp add: jget_j_field assms(12) n)
  then have c: "jget (j_request rr q) [''object''] = Some c" using r(1) n by simp
  show ?thesis
    using y c fo unfolding d
    by (simp add: j_request_objects_def j_field_group j_field_text field_ok_j_field jtext_j_field jget_j_field jget_j_object)
qed

text \<open>
  A review of a renamed resource reaches the webhook of the controller restored: resource, kind
  and the request's own copies of them carry the original names, and the object under review is the
  very object the client had sent to be renamed.
\<close>

theorem admission_request_restored:
  assumes "json_library L D V" and "rules_ready rr" and "replaces_wf rr" and "doc D x j"
    and "jget j [''response''] = None" and "jget j [''request''] = Some q" and "request_ok rr q"
    and "rr_IsRenamedGroup rr (jtext_at q [''resource'', ''group''])" and "rr_IsRenamedGroup rr (jtext_at q [''requestResource'', ''group''])"
    and "jtext_at q [''subresource''] = []" and "client_payload rr c" and "jget q [''object''] = Some (j_payload rr Rename c)"
  shows "yields D (RewriteAdmissionReview L rr x) (jset j [''request''] (j_request rr q)) \<and> jget (j_request rr q) [''object''] = Some c \<and>
    jget (j_request rr q) [''resource'', ''group''] = Some (JStr (rr_RestoreApiVersion rr (jtext_at q [''resource'', ''group'']))) \<and>
    jget (j_request rr q) [''kind'', ''kind''] = Some (JStr (rr_RestoreKind rr (jtext_at q [''kind'', ''kind''])))"
  by (rule review_request_yields [OF assms])

definition sample_custom :: "string \<Rightarrow> string \<Rightarrow> rj" where
  "sample_custom av k = RObj [(''apiVersion'', RStr av), (''kind'', RStr k), (''metadata'', RObj [(''name'', RStr ''n'')])]"

definition sample_request :: rj where
  "sample_request = RObj [(''uid'', RStr ''u''),
     (''kind'', RObj [(''group'', RStr ''x.g.io''), (''kind'', RStr ''PR'')]), (''resource'', RObj [(''group'', RStr ''x.g.io''), (''resource'', RStr ''prs'')]),
     (''requestKind'', RObj [(''group'', RStr ''x.g.io''), (''kind'', RStr ''PR'')]), (''requestResource'', RObj [(''group'', RStr ''x.g.io''), (''resource'', RStr ''prs'')]),
     (''object'', sample_custom ''x.g.io/v1'' ''PR'')]"

definition sample_review :: rj where
  "sample_review = RObj [(''kind'', RStr ''AdmissionReview''), (''request'', sample_request)]"

lemma sample_custom_renamed:
  "client_payload (rr_Init sample_rules) (rj_abs (sample_custom ''g.io/v1'' ''R''))"
  "j_payload (rr_Init sample_rules) Rename (rj_abs (sample_custom ''g.io/v1'' ''R'')) = rj_abs (sample_custom ''x.g.io/v1'' ''PR'')"
proof -
  have s: "\<not> rr_IsRenamedGroup (rr_Init sample_rules) ''g.io/v1''" "rr_RenameApiVersion (rr_Init sample_rules) ''g.io/v1'' = ''x.g.io/v1''"
    "rr_RenameKind (rr_Init sample_rules) ''R'' = ''PR''" by code_simp+
  show "client_payload (rr_Init sample_rules) (rj_abs (sample_custom ''g.io/v1'' ''R''))"
    using s(1) by (simp add: client_payload_def client_resource_def client_version_def client_metadata_def client_map_def has_array_def items_at_def sample_custom_def)
  have "m(a := m a, b := m b, c := m c, d := m d) = m" for m :: "string \<Rightarrow> json option" and a b c d by simp
  then show "j_payload (rr_Init sample_rules) Rename (rj_abs (sample_custom ''g.io/v1'' ''R'')) = rj_abs (sample_custom ''x.g.io/v1'' ''PR'')"
    using s(2,3) by (simp add: j_payload_def sample_custom_def j_resource_object j_object_member at_object_def j_array_member
      j_metadata_object at_map_def at_array_def at_strings_def jtext_at_def fun_upd_twist fun_upd_idem)
qed

theorem admission_request_restored_witness:
  "\<exists>i. yields ref_D (RewriteAdmissionReview ref_lib (rr_Init sample_rules) (Some (print sample_review))) (jset (rj_abs sample_review) [''request''] i) \<and>
    jget i [''object''] = Some (rj_abs (sample_custom ''g.io/v1'' ''R'')) \<and> jget i [''resource'', ''group''] = Some (JStr ''g.io'')"
proof -
  let ?rr = "rr_Init sample_rules" and ?q = "rj_abs sample_request"
  have c: "replaces_wf ?rr" "rj_ok sample_review" "rr_IsRenamedGroup ?rr ''x.g.io''" "rr_RestoreApiVersion ?rr ''x.g.io'' = ''g.io''" by code_simp+
  note r = j_payload_roundtrip [OF sample_rules_ready c(1) sample_custom_renamed(1), unfolded sample_custom_renamed(2)]
  have g: "jget (rj_abs sample_review) [''response''] = None" "jget (rj_abs sample_review) [''request''] = Some ?q"
    "jget ?q [''object''] = Some (rj_abs (sample_custom ''x.g.io/v1'' ''PR''))" "jget ?q [''oldObject''] = None"
    by (simp_all add: sample_review_def sample_request_def)
  have t: "jtext_at ?q [''resource'', ''group''] = ''x.g.io''" "jtext_at ?q [''requestResource'', ''group''] = ''x.g.io''" "jtext_at ?q [''subresource''] = []"
    by (simp_all add: sample_request_def jtext_at_def)
  have f: "field_ok ?q ''resource'' ''resource''" "field_ok ?q ''requestResource'' ''resource''" "field_ok ?q ''kind'' ''kind''"
    "field_ok ?q ''requestKind'' ''kind''" "has_text ?q [''subresource'']"
    by (simp_all add: sample_request_def field_ok_def has_text_def)
  have "review_object_ok ?rr (Some (rj_abs (sample_custom ''x.g.io/v1'' ''PR'')))"
    using r(4,5) by (auto simp: review_object_ok_def split: json.split)
  with f g(3,4) have ok: "request_ok ?rr ?q" by (simp add: request_ok_def, simp add: review_object_ok_def)
  from admission_request_restored [OF ref.json_library_axioms sample_rules_ready c(1) ref_doc [OF c(2)] g(1,2) ok _ _ t(3) sample_custom_renamed(1)]
  show ?thesis using c(3,4) t g(3) sample_custom_renamed(2) by auto
qed

lemma review_response_yields:
  assumes "json_library L D V" and "doc D x j" and "jget j [''response''] = Some (JObj n)" and "n ''patchType'' = Some (JStr ''JSONPatch'')"
    and "n ''patch'' = Some (JStr t)" and "t \<noteq> []"
  shows "case DecodeString t of
      None \<Rightarrow> \<exists>e. RewriteAdmissionReview L rr x = Inl e
    | Some p \<Rightarrow> (case RenameMetadataPatch L rr (Some p) of
        Inl e \<Rightarrow> RewriteAdmissionReview L rr x = Inl (Wrapf ''rename metadata patch'' e)
      | Inr y \<Rightarrow> \<exists>t'. yields D (RewriteAdmissionReview L rr x) (jset j [''response''] (JObj (n(''patch'' \<mapsto> JStr t')))) \<and> DecodeString t' = Some (bytes_str y))"
proof -
  let ?r = "gjson_GetBytes L x ''response''" and ?y = "Some (gjson_Raw L (gjson_GetBytes L x ''response''))"
  have V: "V ?r = Some (JObj n)" using json_library.GetBytes [OF assms(1,2)] assms(3) by simp
  then have e: "gjson_Exists L ?r" "gjson_IsObject L ?r" and d: "doc D ?y (JObj n)"
    using json_library.Raw [OF assms(1), OF V] by (simp_all add: json_library.Exists [OF assms(1)] json_library.IsObject [OF assms(1)])
  have g: "gjson_String L (gjson_GetBytes L ?y ''patchType'') = ''JSONPatch''" "gjson_String L (gjson_GetBytes L ?y ''patch'') = t"
    using json_library.String_at [OF assms(1) d, of "''patchType''"] json_library.String_at [OF assms(1) d, of "''patch''"] assms(4,5)
    by (simp_all add: has_text_def jtext_at_def)
  have set: "yields D (sjson_SetBytes L ?y ''patch'' (VString (EncodeToString u))) (JObj (n(''patch'' \<mapsto> JStr (EncodeToString u))))" for u
    using json_library.SetString_yields [OF assms(1) d, of "''patch''" "EncodeToString u"] assms(5) by (simp add: b64_encode_utf8)
  have raw: "yields D (sjson_SetRawBytes L x ''response'' z) (jset j [''response''] w)" if "doc D z w" for z w
    using json_library.SetRawBytes [OF assms(1,2), of "''response''"] jget_settable [OF assms(3)] that by simp
  have "yields D (res_bind (sjson_SetBytes L ?y ''patch'' (VString (EncodeToString u))) (sjson_SetRawBytes L x ''response''))
      (jset j [''response''] (JObj (n(''patch'' \<mapsto> JStr (EncodeToString u)))))" for u
    by (rule yields_bind [OF set raw])
  then show ?thesis
    using e g assms(6) decode_encode
    by (auto simp: RewriteAdmissionReview_def TransformObject_def RenameAdmissionReviewResponse_def split: option.split sum.split)
qed

text \<open>
  The answer of a webhook: a JSON patch is decoded, renamed and encoded again in place, so that
  what the server decodes is the renamed patch; a patch that is not base64 is an error.
\<close>

theorem admission_response_renamed:
  assumes "json_library L D V" and "doc D x j" and "jget j [''response''] = Some (JObj n)" and "n ''patchType'' = Some (JStr ''JSONPatch'')"
    and "n ''patch'' = Some (JStr t)" and "t \<noteq> []"
  shows "case DecodeString t of
      None \<Rightarrow> \<exists>e. RewriteAdmissionReview L rr x = Inl e
    | Some p \<Rightarrow> (case RenameMetadataPatch L rr (Some p) of
        Inl e \<Rightarrow> RewriteAdmissionReview L rr x = Inl (Wrapf ''rename metadata patch'' e)
      | Inr y \<Rightarrow> \<exists>t'. yields D (RewriteAdmissionReview L rr x) (jset j [''response''] (JObj (n(''patch'' \<mapsto> JStr t')))) \<and> DecodeString t' = Some (bytes_str y))"
  by (rule review_response_yields [OF assms])

definition sample_response :: rj where
  "sample_response = RObj [(''response'', RObj [(''patchType'', RStr ''JSONPatch''), (''patch'', RStr (EncodeToString (print (RArr [sample_patch]))))])]"

theorem admission_response_renamed_witness:
  "\<exists>t y. RenameMetadataPatch ref_lib (rr_Init sample_rules) (Some (print (RArr [sample_patch]))) = Inr y \<and>
    doc ref_D y (rj_abs (RArr [RObj [(''op'', RStr ''remove''), (''path'', RStr ''/metadata/labels/x.g.io~1a'')]])) \<and>
    yields ref_D (RewriteAdmissionReview ref_lib (rr_Init sample_rules) (Some (print sample_response)))
      (jset (rj_abs sample_response) [''response''] (JObj [''patchType'' \<mapsto> JStr ''JSONPatch'', ''patch'' \<mapsto> JStr t])) \<and> DecodeString t = Some (bytes_str y)"
proof -
  have p: "RenameMetadataPatch ref_lib (rr_Init sample_rules) (Some (print (RArr [sample_patch]))) =
      Inr (Some (print (RArr [RObj [(''op'', RStr ''remove''), (''path'', RStr ''/metadata/labels/x.g.io~1a'')]])))" "rj_ok sample_response"
    "rj_ok (RArr [RObj [(''op'', RStr ''remove''), (''path'', RStr ''/metadata/labels/x.g.io~1a'')]])" "EncodeToString (print (RArr [sample_patch])) \<noteq> []"
    by code_simp+
  have g: "jget (rj_abs sample_response) [''response''] =
      Some (JObj [''patchType'' \<mapsto> JStr ''JSONPatch'', ''patch'' \<mapsto> JStr (EncodeToString (print (RArr [sample_patch])))])"
    by (simp add: sample_response_def fun_upd_twist del: print.simps)
  from admission_response_renamed [OF ref.json_library_axioms ref_doc [OF p(2)] g _ _ p(4), of "rr_Init sample_rules"]
  show ?thesis using p(1) ref_doc [OF p(3)] by (auto simp: decode_encode simp del: print.simps rj_abs.simps)
qed

end
