(* ===== verification/Query.thy ===== *)
theory Query
  imports Prelude "HOL-Library.List_Lexorder" "HOL-Library.Char_ord" "HOL-Library.AList"
begin

text \<open>
  The parts of Go's \<^verbatim>\<open>net/url\<close> and \<^verbatim>\<open>regexp\<close> that the endpoint rewriting of
  \<^verbatim>\<open>pkg/rewriter/rule_rewriter.go\<close> uses: query strings (\<^verbatim>\<open>ParseQuery\<close>, \<^verbatim>\<open>Values.Get\<close>, \<^verbatim>\<open>Values.Set\<close>,
  \<^verbatim>\<open>Values.Encode\<close>) and the one regular expression \<^verbatim>\<open>metadataNameRe\<close> with its submatches and its
  replacement. \<^verbatim>\<open>Values\<close>, a map of lists, is an association list with distinct keys; the encoder
  sorts the keys, so the order does not show.

  Shown: a query survives encoding and parsing, which carries the property that the label selector
  rewriting keeps every other parameter.
\<close>

section \<open>Query escapes\<close>

definition hex_digit :: "nat \<Rightarrow> char" where
  "hex_digit n = ''0123456789ABCDEF'' ! n"

definition unhex :: "char \<Rightarrow> nat option" where
  "unhex c = (let n = of_char c :: nat in
     if 48 \<le> n \<and> n \<le> 57 then Some (n - 48)
     else if 97 \<le> n \<and> n \<le> 102 then Some (n - 87)
     else if 65 \<le> n \<and> n \<le> 70 then Some (n - 55)
     else None)"

definition unreserved :: "char \<Rightarrow> bool" where
  "unreserved c \<longleftrightarrow> c \<in> set ''abcdefghijklmnopqrstuvwxyzABCDEFGHIJKLMNOPQRSTUVWXYZ0123456789-_.~''"

definition escape_byte :: "char \<Rightarrow> string" where
  "escape_byte c =
     (if unreserved c then [c]
      else if c = CHR '' '' then ''+''
      else (let n = of_char c :: nat in [CHR ''%'', hex_digit (n div 16), hex_digit (n mod 16)]))"

definition QueryEscape :: "string \<Rightarrow> string" where
  "QueryEscape s = concat (map escape_byte s)"

fun QueryUnescape :: "string \<Rightarrow> string option" where
  "QueryUnescape [] = Some []"
| "QueryUnescape (c # s) =
     (if c = CHR ''%'' then
        (case s of
          a # b # r \<Rightarrow>
            (case (unhex a, unhex b) of
              (Some x, Some y) \<Rightarrow> map_option ((#) (char_of (16 * x + y))) (QueryUnescape r)
            | _ \<Rightarrow> None)
        | _ \<Rightarrow> None)
      else map_option ((#) (if c = CHR ''+'' then CHR '' '' else c)) (QueryUnescape s))"

section \<open>Query strings\<close>

type_synonym Values = "(string \<times> string list) list"

text \<open>One piece between \<^verbatim>\<open>&\<close>: the loop body of \<^verbatim>\<open>parseQuery\<close>; the flag records the first error.\<close>

definition parse_piece :: "Values \<times> bool \<Rightarrow> string \<Rightarrow> Values \<times> bool" where
  "parse_piece st piece =
     (case st of (m, bad) \<Rightarrow>
       if CHR '';'' \<in> set piece then (m, True)
       else if piece = [] then (m, bad)
       else (case Cut piece (CHR ''='') of (key, value, _) \<Rightarrow>
         (case (QueryUnescape key, QueryUnescape value) of
           (Some k, Some v) \<Rightarrow>
             (AList.update k ((case map_of m k of None \<Rightarrow> [] | Some vs \<Rightarrow> vs) @ [v]) m, bad)
         | _ \<Rightarrow> (m, True))))"

definition ParseQuery :: "string \<Rightarrow> Values option" where
  "ParseQuery query =
     (case foldl parse_piece ([], False) (Split query (CHR ''&'')) of
       (m, bad) \<Rightarrow> if bad then None else Some m)"

definition Values_Get :: "Values \<Rightarrow> string \<Rightarrow> string" where
  "Values_Get q key = (case map_of q key of None \<Rightarrow> [] | Some [] \<Rightarrow> [] | Some (v # _) \<Rightarrow> v)"

definition Values_Set :: "Values \<Rightarrow> string \<Rightarrow> string \<Rightarrow> Values" where
  "Values_Set q key value = AList.update key [value] q"

definition encode_pairs :: "Values \<Rightarrow> (string \<times> string) list" where
  "encode_pairs q = concat (map (\<lambda>k. map (Pair k) (case map_of q k of None \<Rightarrow> [] | Some vs \<Rightarrow> vs)) (sort (map fst q)))"

definition encode_pair :: "string \<times> string \<Rightarrow> string" where
  "encode_pair kv = QueryEscape (fst kv) @ ''='' @ QueryEscape (snd kv)"

definition Values_Encode :: "Values \<Rightarrow> string" where
  "Values_Encode q = Join (map encode_pair (encode_pairs q)) ''&''"

section \<open>The expression metadataNameRe\<close>

text \<open>
  \<^verbatim>\<open>metadata.name\%3D([a-z0-9-]+)((\.[a-z0-9-]+)*)\<close>. The first dot stands for any character but a
  newline, a character being one UTF-8 sequence or one stray byte.
\<close>

definition any_char :: "string \<Rightarrow> string option" where
  "any_char s = (case s of [] \<Rightarrow> None | c # _ \<Rightarrow> if c = CHR 0x0A then None else Some (drop (max 1 (utf8_head s)) s))"

definition name_char :: "char \<Rightarrow> bool" where
  "name_char c \<longleftrightarrow> c \<in> set ''abcdefghijklmnopqrstuvwxyz0123456789-''"

text \<open>The dotted labels, longest first: the text of group 2, the text of the last round (group 3) and the rest.\<close>

function match_labels :: "string \<Rightarrow> string \<Rightarrow> string \<times> string \<times> string" where
  "match_labels prev s =
     (case s of
       [] \<Rightarrow> ([], prev, [])
     | c # t \<Rightarrow>
         if c = CHR ''.'' then
           (if takeWhile name_char t = [] then ([], prev, s)
            else (case match_labels (c # takeWhile name_char t) (dropWhile name_char t) of
              (g, l, r) \<Rightarrow> ((c # takeWhile name_char t) @ g, l, r)))
         else ([], prev, s))"
  by pat_completeness auto
termination
  by (relation "measure (\<lambda>(prev, s). length s)") (auto simp: le_imp_less_Suc length_dropWhile_le)

declare match_labels.simps [simp del]

text \<open>A match at the beginning of the text: groups 1, 2, 3 and the rest.\<close>

definition match_here :: "string \<Rightarrow> (string \<times> string \<times> string \<times> string) option" where
  "match_here s =
     (case CutPrefix s ''metadata'' of
       (_, False) \<Rightarrow> None
     | (s1, True) \<Rightarrow>
         (case any_char s1 of
           None \<Rightarrow> None
         | Some s2 \<Rightarrow>
             (case CutPrefix s2 ''name%3D'' of
               (_, False) \<Rightarrow> None
             | (s3, True) \<Rightarrow>
                 (let g1 = takeWhile name_char s3 in
                  if g1 = [] then None
                  else (case match_labels [] (dropWhile name_char s3) of (g2, g3, r) \<Rightarrow> Some (g1, g2, g3, r))))))"

fun FindStringSubmatch :: "string \<Rightarrow> (string \<times> string) option" where
  "FindStringSubmatch [] = None"
| "FindStringSubmatch (c # s) =
     (case match_here (c # s) of
       Some (g1, g2, g3, r) \<Rightarrow> Some (g1, g2)
     | None \<Rightarrow> FindStringSubmatch s)"

text \<open>
  The template of a replacement: \<^verbatim>\<open>$$\<close> is a dollar, \<^verbatim>\<open>$name\<close> and \<^verbatim>\<open>${name}\<close> stand for a submatch, empty
  when there is no such group, and any other dollar stands for itself. Names are ASCII here.
\<close>

definition word_char :: "char \<Rightarrow> bool" where
  "word_char c \<longleftrightarrow> c \<in> set ''abcdefghijklmnopqrstuvwxyzABCDEFGHIJKLMNOPQRSTUVWXYZ0123456789_''"

definition extract_name :: "string \<Rightarrow> (string \<times> string) option" where
  "extract_name t =
     (case t of
       [] \<Rightarrow> None
     | c # u \<Rightarrow>
         if c = CHR ''{'' then
           (let name = takeWhile word_char u; r = dropWhile word_char u
            in if name = [] \<or> r = [] \<or> hd r \<noteq> CHR ''}'' then None else Some (name, tl r))
         else (let name = takeWhile word_char t in if name = [] then None else Some (name, dropWhile word_char t)))"

definition submatch :: "string list \<Rightarrow> string \<Rightarrow> string" where
  "submatch groups name =
     (if name = ''0'' then groups ! 0 else if name = ''1'' then groups ! 1
      else if name = ''2'' then groups ! 2 else if name = ''3'' then groups ! 3 else [])"

lemma extract_name_shorter: "extract_name t = Some (name, r) \<Longrightarrow> length r < length t"
proof -
  assume e: "extract_name t = Some (name, r)"
  then obtain c u where t: "t = c # u" by (cases t) (auto simp: extract_name_def)
  show ?thesis
  proof (cases "c = CHR ''{''")
    case True
    with e t have "r = tl (dropWhile word_char u)" by (auto simp: extract_name_def Let_def split: if_splits)
    then show ?thesis using t length_dropWhile_le [of word_char u] by simp
  next
    case False
    with e t have "takeWhile word_char t \<noteq> []" "r = dropWhile word_char t"
      by (auto simp: extract_name_def Let_def split: if_splits)
    then show ?thesis using t length_dropWhile_le [of word_char u] by (auto split: if_splits)
  qed
qed

function regexp_expand :: "string list \<Rightarrow> string \<Rightarrow> string" where
  "regexp_expand groups [] = []"
| "regexp_expand groups (c # t) =
     (if c \<noteq> CHR ''$'' then c # regexp_expand groups t
      else if t \<noteq> [] \<and> hd t = CHR ''$'' then CHR ''$'' # regexp_expand groups (tl t)
      else (case extract_name t of
        None \<Rightarrow> CHR ''$'' # regexp_expand groups t
      | Some (name, r) \<Rightarrow> submatch groups name @ regexp_expand groups r))"
  by pat_completeness auto
termination
  by (relation "measure (\<lambda>(groups, t). length t)") (auto dest: extract_name_shorter)

declare regexp_expand.simps(2) [simp del]

lemma match_labels_le: "match_labels p s = (g, l, r) \<Longrightarrow> length r \<le> length s"
proof (induction p s arbitrary: g l r rule: match_labels.induct)
  case (1 p s)
  show ?case
  proof (cases s)
    case Nil
    with 1 show ?thesis by (simp add: match_labels.simps [of p "[]"])
  next
    case (Cons c t)
    show ?thesis
    proof (cases "c = CHR ''.'' \<and> takeWhile name_char t \<noteq> []")
      case True
      obtain g' l' r' where m: "match_labels (c # takeWhile name_char t) (dropWhile name_char t) = (g', l', r')"
        by (metis prod_cases3)
      from 1(1) [OF Cons _ _ m] True have "length r' \<le> length (dropWhile name_char t)" by simp
      moreover have "r = r'" using 1(2) Cons True m by (simp add: match_labels.simps [of p "CHR ''.'' # t"])
      ultimately show ?thesis using Cons length_dropWhile_le [of name_char t] by simp
    next
      case False
      with 1(2) Cons show ?thesis by (auto simp: match_labels.simps [of p "c # t"] split: if_splits)
    qed
  qed
qed

lemma CutPrefix_length: "CutPrefix s p = (r, True) \<Longrightarrow> length s = length p + length r"
  by (auto simp: CutPrefix_found)

lemma match_here_shorter: "match_here s = Some (g1, g2, g3, r) \<Longrightarrow> length r < length s"
proof -
  assume m: "match_here s = Some (g1, g2, g3, r)"
  then obtain s1 s2 s3 where s: "CutPrefix s ''metadata'' = (s1, True)" "any_char s1 = Some s2"
    "CutPrefix s2 ''name%3D'' = (s3, True)" "match_labels [] (dropWhile name_char s3) = (g2, g3, r)"
    by (auto simp: match_here_def Let_def split: prod.splits bool.splits option.splits if_splits)
  have "length s2 \<le> length s1" using s(2) by (auto simp: any_char_def split: list.splits if_splits)
  moreover have "length r \<le> length s3"
    using match_labels_le [OF s(4)] length_dropWhile_le [of name_char s3] by simp
  ultimately show ?thesis using CutPrefix_length [OF s(1)] CutPrefix_length [OF s(3)] by simp
qed

function ReplaceAllString :: "string \<Rightarrow> string \<Rightarrow> string" where
  "ReplaceAllString [] template = []"
| "ReplaceAllString (c # s) template =
     (case match_here (c # s) of
       Some (g1, g2, g3, r) \<Rightarrow>
         regexp_expand [take (length (c # s) - length r) (c # s), g1, g2, g3] template @ ReplaceAllString r template
     | None \<Rightarrow> c # ReplaceAllString s template)"
  by pat_completeness auto
termination
  by (relation "measure (\<lambda>(s, template). length s)") (auto dest: match_here_shorter)

declare ReplaceAllString.simps(2) [simp del]

section \<open>Round trip of query strings\<close>

lemma unhex_hex_digit: "n < 16 \<Longrightarrow> unhex (hex_digit n) = Some n"
proof -
  assume "n < 16"
  then have "n \<in> set [0..<16]" by simp
  moreover have "list_all (\<lambda>n. unhex (hex_digit n) = Some n) [0..<16]" by code_simp
  ultimately show ?thesis by (simp add: list_all_iff)
qed

lemma unreserved_plain:
  "unreserved c \<Longrightarrow> c \<noteq> CHR ''%'' \<and> c \<noteq> CHR ''+'' \<and> c \<noteq> CHR ''&'' \<and> c \<noteq> CHR ''='' \<and> c \<noteq> CHR '';''"
  by (auto simp: unreserved_def)

lemma hex_digit_plain: "n < 16 \<Longrightarrow> unreserved (hex_digit n)"
proof -
  assume "n < 16"
  then have "n \<in> set [0..<16]" by simp
  moreover have "list_all (\<lambda>n. unreserved (hex_digit n)) [0..<16]" by code_simp
  ultimately show ?thesis by (simp add: list_all_iff)
qed

lemma byte_nibbles: "(of_char c :: nat) div 16 < 16" "(of_char c :: nat) mod 16 < 16"
proof -
  have "(of_char c :: nat) < 256" using nat_of_char_less_256 by blast
  then show "(of_char c :: nat) div 16 < 16" by (simp add: less_mult_imp_div_less)
qed simp

lemma QueryUnescape_escape: "QueryUnescape (escape_byte c @ s) = map_option ((#) c) (QueryUnescape s)"
proof (cases "unreserved c")
  case True
  with unreserved_plain [OF True] show ?thesis by (simp add: escape_byte_def)
next
  case False
  have "char_of (16 * ((of_char c :: nat) div 16) + (of_char c :: nat) mod 16) = c"
    by (simp only: mult_div_mod_eq char_of_char)
  with False byte_nibbles [of c] show ?thesis
    by (auto simp: escape_byte_def Let_def unhex_hex_digit)
qed

lemma QueryUnescape_QueryEscape: "QueryUnescape (QueryEscape s) = Some s"
  by (induction s) (simp_all add: QueryEscape_def QueryUnescape_escape)

lemma QueryEscape_plain: "c \<in> set (QueryEscape s) \<Longrightarrow> unreserved c \<or> c = CHR ''%'' \<or> c = CHR ''+''"
  using byte_nibbles by (auto simp: QueryEscape_def escape_byte_def Let_def hex_digit_plain split: if_splits)

lemma QueryEscape_separators:
  "CHR ''&'' \<notin> set (QueryEscape s)" "CHR ''='' \<notin> set (QueryEscape s)" "CHR '';'' \<notin> set (QueryEscape s)"
  using QueryEscape_plain [of _ s] unreserved_plain by fastforce+

lemma parse_encoded_pair:
  "parse_piece (m, bad) (encode_pair kv) =
     (AList.update (fst kv) ((case map_of m (fst kv) of None \<Rightarrow> [] | Some vs \<Rightarrow> vs) @ [snd kv]) m, bad)"
  by (simp add: parse_piece_def encode_pair_def QueryEscape_separators QueryUnescape_QueryEscape)

lemma parse_encoded_pairs:
  "foldl parse_piece (m, False) (map encode_pair kvs) =
     (foldl (\<lambda>m kv. AList.update (fst kv) ((case map_of m (fst kv) of None \<Rightarrow> [] | Some vs \<Rightarrow> vs) @ [snd kv]) m) m kvs, False)"
  by (induction kvs arbitrary: m) (simp_all add: parse_encoded_pair)

text \<open>What the parser collects for a key: its values in the order they come.\<close>

lemma collected:
  "(case map_of (foldl (\<lambda>m kv. AList.update (fst kv) ((case map_of m (fst kv) of None \<Rightarrow> [] | Some vs \<Rightarrow> vs) @ [snd kv]) m) m kvs) k of
     None \<Rightarrow> [] | Some vs \<Rightarrow> vs) =
   (case map_of m k of None \<Rightarrow> [] | Some vs \<Rightarrow> vs) @ map snd (filter (\<lambda>kv. fst kv = k) kvs)"
  by (induction kvs arbitrary: m) (auto simp: update_conv' split: option.split)

lemma encode_pairs_values:
  assumes "distinct (map fst q)"
  shows "map snd (filter (\<lambda>kv. fst kv = k) (encode_pairs q)) = (case map_of q k of None \<Rightarrow> [] | Some vs \<Rightarrow> vs)"
proof -
  have f: "map snd (filter (\<lambda>kv. fst kv = k) (concat (map (\<lambda>k. map (Pair k) (g k)) ks))) = (if k \<in> set ks then g k else [])"
    if "distinct ks" for ks :: "string list" and g :: "string \<Rightarrow> string list"
    using that by (induction ks) (auto simp: filter_map comp_def filter_empty_conv)
  have "k \<in> set (sort (map fst q)) \<longleftrightarrow> map_of q k \<noteq> None" by (auto simp: map_of_eq_None_iff)
  with f [of "sort (map fst q)"] assms show ?thesis
    by (auto simp: encode_pairs_def split: option.split)
qed

lemma ParseQuery_Encode:
  assumes "distinct (map fst q)"
  shows "\<exists>q'. ParseQuery (Values_Encode q) = Some q' \<and>
    (\<forall>k. (case map_of q' k of None \<Rightarrow> [] | Some vs \<Rightarrow> vs) = (case map_of q k of None \<Rightarrow> [] | Some vs \<Rightarrow> vs))"
proof (cases "encode_pairs q = []")
  case True
  then have "ParseQuery (Values_Encode q) = Some []" by (simp add: Values_Encode_def ParseQuery_def parse_piece_def)
  moreover have "(case map_of q k of None \<Rightarrow> [] | Some vs \<Rightarrow> vs) = []" for k
    using encode_pairs_values [OF assms, of k] True by simp
  ultimately show ?thesis by simp
next
  case False
  have "Split (Values_Encode q) (CHR ''&'') = map encode_pair (encode_pairs q)"
    unfolding Values_Encode_def
    by (rule Split_Join) (use False QueryEscape_separators in \<open>auto simp: encode_pair_def\<close>)
  then show ?thesis
    using collected [of "[]" "encode_pairs q"] encode_pairs_values [OF assms]
    by (simp add: ParseQuery_def parse_encoded_pairs)
qed

lemma ParseQuery_distinct: "ParseQuery s = Some q \<Longrightarrow> distinct (map fst q)"
proof -
  have "distinct (map fst (fst st)) \<Longrightarrow> distinct (map fst (fst (foldl parse_piece st ps)))" for st ps
    by (induction ps arbitrary: st) (auto simp: parse_piece_def distinct_update split: prod.split option.split)
  from this [of "([], False)"] show "ParseQuery s = Some q \<Longrightarrow> distinct (map fst q)"
    by (auto simp: ParseQuery_def split: prod.splits if_splits) (metis fst_conv)
qed

end
