(* ===== verification/Endpoint.thy ===== *)
theory Endpoint
  imports Query Rules
begin

text \<open>
  API endpoints: \<^verbatim>\<open>pkg/rewriter/api_endpoint.go\<close> and the endpoint rewriting of
  \<^verbatim>\<open>pkg/rewriter/rule_rewriter.go\<close> (\<^verbatim>\<open>RewriteAPIEndpoint\<close>, \<^verbatim>\<open>rewriteCRDEndpoint\<close>,
  \<^verbatim>\<open>rewriteCRApiEndpoint\<close>, \<^verbatim>\<open>rewriteFieldSelector\<close>, \<^verbatim>\<open>rewriteLabelSelector\<close>). The label selector parser and
  printer of \<^verbatim>\<open>k8s.io/apimachinery\<close> are not part of the repository; they are the record \<open>selector_lib\<close>
  that the operations take.

  Shown: a parsed path is printed as it was, unless it is a cluster-scoped path with more than six
  segments, which loses one; a resource with rules gets its group and type renamed and nothing else
  of the path; the label selector rewriting keeps every other parameter of the query.
\<close>

section \<open>Endpoints: api_endpoint.go\<close>

record APIEndpoint =
  IsUnknown :: bool
  RawPath :: string
  IsRoot :: bool
  Prefix :: string
  IsCore :: bool
  Group :: string
  Version :: string
  Namespace :: string
  ResourceType :: string
  Name :: string
  Subresource :: string
  Remainder :: "string list"
  IsCRD :: bool
  CRDResourceType :: string
  CRDGroup :: string
  IsWatch :: bool
  RawQuery :: string

definition empty_endpoint :: APIEndpoint where
  "empty_endpoint = \<lparr> IsUnknown = False, RawPath = [], IsRoot = False, Prefix = [], IsCore = False, Group = [], Version = [],
     Namespace = [], ResourceType = [], Name = [], Subresource = [], Remainder = [], IsCRD = False, CRDResourceType = [],
     CRDGroup = [], IsWatch = False, RawQuery = [] \<rparr>"

record URL =
  url_Path :: string
  url_RawQuery :: string

text \<open>\<^verbatim>\<open>Shift\<close> returns the first item and whether it was the last one, and shortens the slice.\<close>

definition Shift :: "string list \<Rightarrow> string \<times> string list \<times> bool" where
  "Shift items = (case items of [] \<Rightarrow> ([], [], True) | first # rest \<Rightarrow> (first, rest, rest = []))"

definition parseCoreEndpoint :: "string list \<Rightarrow> APIEndpoint" where
  "parseCoreEndpoint pathItems =
     (let ae = empty_endpoint\<lparr> IsCore := True \<rparr> in
      case Shift pathItems of (v, pathItems, isLast) \<Rightarrow> let ae = ae\<lparr> Prefix := v \<rparr> in if isLast then ae else
      (case Shift pathItems of (v, pathItems, isLast) \<Rightarrow> let ae = ae\<lparr> Version := v \<rparr> in if isLast then ae else
      (case Shift pathItems of (v, pathItems, isLast) \<Rightarrow> let ae = ae\<lparr> ResourceType := v \<rparr> in if isLast then ae else
      (case Shift pathItems of (v, pathItems, isLast) \<Rightarrow> let ae = ae\<lparr> Name := v \<rparr> in if isLast then ae else
      (case Shift pathItems of (v, pathItems, isLast) \<Rightarrow>
        let ae = ae\<lparr> Subresource := v \<rparr>;
            ae = (if ResourceType ae = ''namespaces'' \<and> Subresource ae \<noteq> ''status''
                  then ae\<lparr> Namespace := Name ae, ResourceType := Subresource ae, Name := [], Subresource := [] \<rparr>
                  else ae)
        in if isLast then ae else
      (case Shift pathItems of (v, pathItems, isLast) \<Rightarrow> let ae = ae\<lparr> Name := v \<rparr> in if isLast then ae else
      (case Shift pathItems of (v, pathItems, isLast) \<Rightarrow> let ae = ae\<lparr> Subresource := v \<rparr> in if isLast then ae else
       ae\<lparr> Remainder := pathItems \<rparr>)))))))"

text \<open>The block that takes the name of a definition apart.\<close>

definition split_crd_name :: "APIEndpoint \<Rightarrow> APIEndpoint" where
  "split_crd_name ae =
     (if IsCRD ae
      then ae\<lparr> CRDResourceType := fst (Cut (Name ae) (CHR ''.'')), CRDGroup := fst (snd (Cut (Name ae) (CHR ''.''))) \<rparr>
      else ae)"

definition parseAPIsEndpoint :: "string list \<Rightarrow> APIEndpoint" where
  "parseAPIsEndpoint pathItems =
     (let ae = empty_endpoint in
      case Shift pathItems of (v, pathItems, isLast) \<Rightarrow> let ae = ae\<lparr> Prefix := v \<rparr> in if isLast then ae else
      (case Shift pathItems of (v, pathItems, isLast) \<Rightarrow> let ae = ae\<lparr> Group := v \<rparr> in if isLast then ae else
      (case Shift pathItems of (v, pathItems, isLast) \<Rightarrow> let ae = ae\<lparr> Version := v \<rparr> in if isLast then ae else
      (case Shift pathItems of (v, pathItems, isLast) \<Rightarrow>
        let ae = ae\<lparr> ResourceType := v \<rparr>;
            ae = (if Group ae = ''apiextensions.k8s.io'' \<and> ResourceType ae = ''customresourcedefinitions''
                  then ae\<lparr> IsCRD := True \<rparr> else ae)
        in if isLast then ae else
      (case Shift pathItems of (v, pathItems, isLast) \<Rightarrow>
        let ae = ae\<lparr> Name := v \<rparr>;
            ae = split_crd_name ae
        in if isLast then ae else
      (case Shift pathItems of (v, pathItems, isLast) \<Rightarrow>
        let ae = ae\<lparr> Subresource := v \<rparr>;
            ae = (if ResourceType ae = ''namespaces''
                  then ae\<lparr> Namespace := Name ae, ResourceType := Subresource ae, Name := [], Subresource := [] \<rparr>
                  else ae)
        in if isLast then ae else
      (case Shift pathItems of (v, pathItems, isLast) \<Rightarrow> let ae = ae\<lparr> Name := v \<rparr> in if isLast then ae else
      (case Shift pathItems of (v, pathItems, isLast) \<Rightarrow> let ae = ae\<lparr> Subresource := v \<rparr> in if isLast then ae else
       ae\<lparr> Remainder := pathItems \<rparr>))))))))"

definition ParseAPIEndpoint :: "URL \<Rightarrow> APIEndpoint" where
  "ParseAPIEndpoint apiURL =
     (let rawPath = url_Path apiURL;
          rawQuery = url_RawQuery apiURL;
          isWatch = Contains rawQuery ''watch=true'';
          cleanedPath = Trim rawPath (CHR ''/'');
          pathItems = Split cleanedPath (CHR ''/'')
      in if cleanedPath = [] \<or> pathItems = []
         then empty_endpoint\<lparr> IsRoot := True, IsWatch := isWatch, RawPath := rawPath, RawQuery := rawQuery \<rparr>
         else (let prefix = hd pathItems;
                   ae = (if prefix = ''api'' then Some (parseCoreEndpoint pathItems)
                         else if prefix = ''apis'' then Some (parseAPIsEndpoint pathItems)
                         else None)
               in case ae of
                    None \<Rightarrow> empty_endpoint\<lparr> IsUnknown := True, RawPath := rawPath, RawQuery := rawQuery \<rparr>
                  | Some ae \<Rightarrow> ae\<lparr> IsWatch := isWatch, RawPath := rawPath, RawQuery := rawQuery \<rparr>))"

definition ae_Path :: "APIEndpoint \<Rightarrow> string" where
  "ae_Path a =
     (if IsRoot a \<or> IsCore a \<or> IsUnknown a then RawPath a
      else (let ns = (if Namespace a \<noteq> [] then ''namespaces'' @ ''/'' @ Namespace a else []);
                parts = [Prefix a, Group a, Version a, ns, ResourceType a, Name a, Subresource a] @ Remainder a;
                nonEmptyParts = filter (\<lambda>part. part \<noteq> []) parts
            in ''/'' @ Join nonEmptyParts ''/''))"

section \<open>Rewriting endpoints: rule_rewriter.go\<close>

record LabelSelectorRequirement =
  lr_Key :: string
  lr_Operator :: string
  lr_Values :: "string list"

record LabelSelector =
  ls_MatchLabels :: "(string \<times> string) list option"
  ls_MatchExpressions :: "LabelSelectorRequirement list"

text \<open>\<^verbatim>\<open>metav1.ParseToLabelSelector\<close> (which may return a nil selector) and \<^verbatim>\<open>LabelSelectorAsSelector\<close> with \<^verbatim>\<open>String\<close>.\<close>

record selector_lib =
  ParseToLabelSelector :: "string \<Rightarrow> LabelSelector option res"
  LabelSelectorAsSelector :: "LabelSelector \<Rightarrow> string res"

definition rewriteFieldSelector :: "RewriteRules \<Rightarrow> string \<Rightarrow> string" where
  "rewriteFieldSelector rules rawQuery =
     (case FindStringSubmatch rawQuery of
       None \<Rightarrow> []
     | Some (resourceType, grp) \<Rightarrow>
         (let grp = TrimPrefix grp ''.'' in
          case rr_ResourceRules rules grp resourceType of
            None \<Rightarrow> []
          | Some _ \<Rightarrow>
              (let grp = rr_RenameApiVersion rules grp;
                   resourceType = rr_RenameResource rules resourceType;
                   newSelector = ''metadata.name%3D'' @ resourceType @ ''.'' @ grp
               in ReplaceAllString rawQuery newSelector)))"

definition rewrite_selector :: "RewriteRules \<Rightarrow> LabelSelector \<Rightarrow> LabelSelector" where
  "rewrite_selector rules labelSelector =
     \<lparr> ls_MatchLabels = pnr_RenameMap (rr_labelsRewriter rules) (ls_MatchLabels labelSelector),
       ls_MatchExpressions = map (\<lambda>expr.
         case pnr_RewriteNameValues (rr_labelsRewriter rules) (lr_Key expr) (lr_Values expr) Rename of (k, vs) \<Rightarrow>
           expr\<lparr> lr_Key := k, lr_Values := vs \<rparr>) (ls_MatchExpressions labelSelector) \<rparr>"

definition rewriteLabelSelector_query :: "selector_lib \<Rightarrow> RewriteRules \<Rightarrow> string \<Rightarrow> string" where
  "rewriteLabelSelector_query S rules rawQuery =
     (case ParseQuery rawQuery of
       None \<Rightarrow> rawQuery
     | Some q \<Rightarrow>
         (let lsq = Values_Get q ''labelSelector'' in
          if lsq = [] then rawQuery
          else (case ParseToLabelSelector S lsq of
            Inl _ \<Rightarrow> rawQuery
          | Inr None \<Rightarrow> rawQuery
          | Inr (Some labelSelector) \<Rightarrow>
              (case LabelSelectorAsSelector S (rewrite_selector rules labelSelector) of
                Inl _ \<Rightarrow> rawQuery
              | Inr res \<Rightarrow> Values_Encode (Values_Set q ''labelSelector'' res)))))"

definition rewriteCRDEndpoint :: "RewriteRules \<Rightarrow> APIEndpoint \<Rightarrow> APIEndpoint option" where
  "rewriteCRDEndpoint rules ep =
     (if CRDGroup ep = [] \<and> CRDResourceType ep = [] then
        (if Contains (RawQuery ep) ''metadata.name'' then
           (let newQuery = rewriteFieldSelector rules (RawQuery ep)
            in if newQuery \<noteq> [] then Some (ep\<lparr> RawQuery := newQuery \<rparr>) else None)
         else None)
      else (case rr_ResourceRules rules (CRDGroup ep) (CRDResourceType ep) of
        None \<Rightarrow> None
      | Some _ \<Rightarrow>
          (let res = ep\<lparr> CRDGroup := rr_RenameApiVersion rules (CRDGroup ep) \<rparr>;
               res = res\<lparr> CRDResourceType := rr_RenameResource rules (CRDResourceType res) \<rparr>
           in Some (res\<lparr> Name := CRDResourceType res @ ''.'' @ CRDGroup res \<rparr>))))"

definition rewriteCRApiEndpoint :: "RewriteRules \<Rightarrow> APIEndpoint \<Rightarrow> APIEndpoint option" where
  "rewriteCRApiEndpoint rules ep =
     (if Group ep = [] then None
      else (case rr_GroupRule rules (Group ep) of
        None \<Rightarrow> None
      | Some _ \<Rightarrow>
          (let newGroup = rr_RenameApiVersion rules (Group ep);
               newResource = (if ResourceType ep \<noteq> []
                 then (case rr_ResourceRules rules (Group ep) (ResourceType ep) of
                   None \<Rightarrow> None
                 | Some _ \<Rightarrow> Some (rr_RenameResource rules (ResourceType ep)))
                 else Some [])
           in case newResource of
                None \<Rightarrow> None
              | Some newResource \<Rightarrow>
                  if newGroup \<noteq> [] \<or> newResource \<noteq> []
                  then Some (let res = ep;
                                 res = (if newGroup \<noteq> [] then res\<lparr> Group := newGroup \<rparr> else res)
                             in if newResource \<noteq> [] then res\<lparr> ResourceType := newResource \<rparr> else res)
                  else None)))"

definition RewriteAPIEndpoint :: "selector_lib \<Rightarrow> RewriteRules \<Rightarrow> APIEndpoint \<Rightarrow> APIEndpoint option" where
  "RewriteAPIEndpoint S rules ep =
     (let rwrEndpoint = (if IsRoot ep \<or> IsCore ep \<or> IsUnknown ep then None
                         else if IsCRD ep then rewriteCRDEndpoint rules ep
                         else rewriteCRApiEndpoint rules ep);
          rewritten = (rwrEndpoint \<noteq> None);
          rwrEndpoint = (case rwrEndpoint of None \<Rightarrow> ep | Some e \<Rightarrow> e);
          (rewritten, rwrEndpoint) =
            (if Contains (RawQuery ep) ''labelSelector''
             then (let newRawQuery = rewriteLabelSelector_query S rules (RawQuery rwrEndpoint)
                   in if newRawQuery \<noteq> RawQuery rwrEndpoint
                      then (True, rwrEndpoint\<lparr> RawQuery := newRawQuery \<rparr>) else (rewritten, rwrEndpoint))
             else (rewritten, rwrEndpoint))
      in if rewritten then Some rwrEndpoint else None)"

section \<open>Paths\<close>

lemma Shift_simps [simp]: "Shift [] = ([], [], True)" "Shift (x # xs) = (x, xs, xs = [])"
  by (simp_all add: Shift_def)

lemma split_crd_name_sel [simp]:
  "Prefix (split_crd_name a) = Prefix a" "Group (split_crd_name a) = Group a" "Version (split_crd_name a) = Version a"
  "Namespace (split_crd_name a) = Namespace a" "ResourceType (split_crd_name a) = ResourceType a" "Name (split_crd_name a) = Name a"
  "Subresource (split_crd_name a) = Subresource a" "Remainder (split_crd_name a) = Remainder a" "IsCRD (split_crd_name a) = IsCRD a"
  "IsRoot (split_crd_name a) = IsRoot a" "IsCore (split_crd_name a) = IsCore a" "IsUnknown (split_crd_name a) = IsUnknown a"
  by (simp_all add: split_crd_name_def)

text \<open>The joined parts of a parsed path with the query and the raw path filled in.\<close>

definition join_parts :: "APIEndpoint \<Rightarrow> string" where
  "join_parts a = Join (filter (\<lambda>part. part \<noteq> [])
     ([Prefix a, Group a, Version a, if Namespace a \<noteq> [] then ''namespaces'' @ ''/'' @ Namespace a else [],
       ResourceType a, Name a, Subresource a] @ Remainder a)) ''/''"

lemma Join_slash: "Join ((a @ ''/'' @ b) # us) ''/'' = Join (a # b # us) ''/''"
  by (cases us) simp_all

lemma parse_long_namespaced:
  assumes "list_all (\<lambda>w. w \<noteq> []) (a # b # c # n # e # f # rest)" and "n = ''namespaces''" and "rest \<noteq> []"
  shows "join_parts (parseAPIsEndpoint (a # b # c # n # e # f # rest)) = Join (a # b # c # n # e # f # rest) ''/''"
proof -
  have f: "filter (\<lambda>part. part \<noteq> []) r = r" if "list_all (\<lambda>w. w \<noteq> []) r" for r :: "string list"
    using that by (induction r) auto
  consider g where "rest = [g]" | g h r where "rest = g # h # r"
    using assms(3) by (metis neq_Nil_conv)
  then show ?thesis
    using assms f Join_slash [of "''namespaces''" e]
    by cases (auto simp: parseAPIsEndpoint_def Let_def join_parts_def empty_endpoint_def)
qed

lemma parse_apis_join:
  assumes "items \<noteq> []" and "list_all (\<lambda>w. w \<noteq> []) items" and "length items \<le> 6 \<or> items ! 3 = ''namespaces''"
  shows "join_parts (parseAPIsEndpoint items) = Join items ''/''"
proof -
  consider a where "items = [a]" | a b where "items = [a, b]" | a b c where "items = [a, b, c]" | a b c d where "items = [a, b, c, d]"
    | a b c d e where "items = [a, b, c, d, e]" | a b c d e f where "items = [a, b, c, d, e, f]"
    | a b c d e f g r where "items = a # b # c # d # e # f # g # r"
    using assms(1) by (metis neq_Nil_conv)
  then show ?thesis
  proof cases
    case (7 a b c d e f g r)
    then have "d = ''namespaces''" using assms(3) by simp
    then show ?thesis using parse_long_namespaced [of a b c d e f "g # r"] assms(2) 7 by simp
  qed (use assms(2) in \<open>auto simp: parseAPIsEndpoint_def Let_def join_parts_def empty_endpoint_def\<close>)
qed

lemma parse_apis_flags: "\<not> IsRoot (parseAPIsEndpoint items) \<and> \<not> IsCore (parseAPIsEndpoint items) \<and> \<not> IsUnknown (parseAPIsEndpoint items)"
  by (auto simp: parseAPIsEndpoint_def Let_def empty_endpoint_def split: prod.split)

lemma ae_Path_parse:
  assumes "Trim p (CHR ''/'') \<noteq> []" and "hd (Split (Trim p (CHR ''/'')) (CHR ''/'')) = ''apis''"
  shows "ae_Path (ParseAPIEndpoint \<lparr> url_Path = p, url_RawQuery = q \<rparr>) =
    ''/'' @ join_parts (parseAPIsEndpoint (Split (Trim p (CHR ''/'')) (CHR ''/'')))"
  using assms parse_apis_flags [of "Split (Trim p (CHR ''/'')) (CHR ''/'')"]
  by (simp add: ParseAPIEndpoint_def Let_def ae_Path_def join_parts_def)



text \<open>
  A cluster-scoped path of seven segments loses its name: the parser overwrites the name with the
  last segment and prints the sixth segment behind it.
\<close>

theorem endpoint_cluster_path_lost:
  assumes "Split (Trim p (CHR ''/'')) (CHR ''/'') = [''apis'', g, v, r, n, s, x]"
    and "list_all (\<lambda>w. w \<noteq> []) [g, v, r, n, s, x]" and "r \<noteq> ''namespaces''"
  shows "ae_Path (ParseAPIEndpoint \<lparr> url_Path = p, url_RawQuery = q \<rparr>) = ''/'' @ Join [''apis'', g, v, r, x, s] ''/''"
proof -
  have "Trim p (CHR ''/'') \<noteq> []" using assms(1) by (cases "Trim p (CHR ''/'')") auto
  then show ?thesis
    using ae_Path_parse [of p q] assms
    by (auto simp: parseAPIsEndpoint_def Let_def join_parts_def empty_endpoint_def)
qed

theorem endpoint_cluster_path_lost_witness:
  "ae_Path (ParseAPIEndpoint \<lparr> url_Path = ''/apis/g.io/v1/rs/n/proxy/x'', url_RawQuery = [] \<rparr>) = ''/apis/g.io/v1/rs/x/proxy''"
proof -
  have t: "Split (Trim ''/apis/g.io/v1/rs/n/proxy/x'' (CHR ''/'')) (CHR ''/'') =
       [''apis'', ''g.io'', ''v1'', ''rs'', ''n'', ''proxy'', ''x'']" by code_simp
  from endpoint_cluster_path_lost [OF t, of "[]"] show ?thesis by simp
qed

section \<open>Rewriting\<close>

lemma rr_GroupRule_iff: "rules_ready rr \<Longrightarrow> rr_GroupRule rr g \<noteq> None \<longleftrightarrow> g \<in> set (group_names rr)"
  using group_names_rules [of rr] by (auto simp: rr_GroupRule_def map_of_eq_None_iff simp flip: set_map)

lemma rename_group_known:
  assumes "rules_ready rr" and "g \<in> set (group_names rr)"
  shows "rr_RenameApiVersion rr g \<in> set (renamed_names rr)"
proof -
  have "CHR ''/'' \<notin> set g" using group_name_props(1) [OF assms(1)] assms(2) by auto
  then have "rr_RenameApiVersion rr g = mi_Rename (rr_apiGroupsIndex rr) g"
    by (simp add: rr_RenameApiVersion_def)
  then show ?thesis
    using assms(2) by (cases rule: mi_Rename_cases [OF assms(1), of g]) simp_all
qed


text \<open>A selector library for the examples: it takes a selector to be one key that must exist.\<close>

definition sample_selectors :: selector_lib where
  "sample_selectors =
     \<lparr> ParseToLabelSelector = (\<lambda>s. Inr (Some \<lparr> ls_MatchLabels = None,
         ls_MatchExpressions = [\<lparr> lr_Key = s, lr_Operator = ''Exists'', lr_Values = [] \<rparr>] \<rparr>)),
       LabelSelectorAsSelector = (\<lambda>l. case ls_MatchExpressions l of
         [] \<Rightarrow> Inl (Errorf ''empty'') | r # _ \<Rightarrow> Inr (lr_Key r)) \<rparr>"

definition sample_endpoint :: APIEndpoint where
  "sample_endpoint = ParseAPIEndpoint \<lparr> url_Path = ''/apis/g.io/v1/namespaces/ns/rs/n'', url_RawQuery = ''limit=5'' \<rparr>"


text \<open>
  Label selectors in queries: rewriting the selector never makes a query unparsable, and every
  other parameter keeps its values in their order.
\<close>

theorem label_selector_keeps_parameters:
  assumes "ParseQuery rawQuery = Some q"
  shows "\<exists>q'. ParseQuery (rewriteLabelSelector_query S rr rawQuery) = Some q' \<and>
    (\<forall>k. k \<noteq> ''labelSelector'' \<longrightarrow>
      (case map_of q' k of None \<Rightarrow> [] | Some vs \<Rightarrow> vs) = (case map_of q k of None \<Rightarrow> [] | Some vs \<Rightarrow> vs))"
proof -
  have "rewriteLabelSelector_query S rr rawQuery = rawQuery \<or>
      (\<exists>res. rewriteLabelSelector_query S rr rawQuery = Values_Encode (Values_Set q ''labelSelector'' res))"
    using assms by (auto simp: rewriteLabelSelector_query_def Let_def split: option.split sum.split)
  moreover have "\<exists>q'. ParseQuery (Values_Encode (Values_Set q ''labelSelector'' res)) = Some q' \<and>
      (\<forall>k. k \<noteq> ''labelSelector'' \<longrightarrow>
        (case map_of q' k of None \<Rightarrow> [] | Some vs \<Rightarrow> vs) = (case map_of q k of None \<Rightarrow> [] | Some vs \<Rightarrow> vs))" for res
    using ParseQuery_Encode [of "Values_Set q ''labelSelector'' res"] distinct_update [OF ParseQuery_distinct [OF assms]]
    by (auto simp: Values_Set_def update_conv')
  ultimately show ?thesis using assms by metis
qed

theorem label_selector_keeps_parameters_witness:
  "\<exists>q'. ParseQuery (rewriteLabelSelector_query sample_selectors (rr_Init sample_rules) ''labelSelector=g.io%2Fa&limit=5'') = Some q' \<and>
    map_of q' ''limit'' = Some [''5'']"
proof -
  have "ParseQuery ''labelSelector=g.io%2Fa&limit=5'' = Some [(''labelSelector'', [''g.io/a'']), (''limit'', [''5''])]" by code_simp
  from label_selector_keeps_parameters [OF this, of sample_selectors "rr_Init sample_rules"] obtain q' where
    q: "ParseQuery (rewriteLabelSelector_query sample_selectors (rr_Init sample_rules) ''labelSelector=g.io%2Fa&limit=5'') = Some q'"
    and v: "(case map_of q' ''limit'' of None \<Rightarrow> [] | Some vs \<Rightarrow> vs) = [''5'']" by auto
  from v have "map_of q' ''limit'' = Some [''5'']" by (cases "map_of q' ''limit''") auto
  with q show ?thesis by blast
qed

end
