(* ===== verification/Target_Request.thy ===== *)
theory Target_Request
  imports Endpoint
begin

text \<open>
  What the proxy decides about one request, \<^verbatim>\<open>pkg/rewriter/target_request.go\<close>: where it goes, and
  whether its payload and the response are rewritten. Pointers of the struct are options; the
  request is its URL (a request without a URL is answered with nil by the code and never reaches the
  model's callers).

  Shown: a request whose path was rewritten has both payloads rewritten; a path the proxy does not
  know passes through unchanged in both directions; a core path is never changed.
\<close>

section \<open>Model\<close>

record TargetRequest =
  originEndpoint :: "APIEndpoint option"
  targetEndpoint :: "APIEndpoint option"
  webhookRule :: "WebhookRule option"

definition NewTargetRequest :: "selector_lib \<Rightarrow> RewriteRules \<Rightarrow> URL option \<Rightarrow> TargetRequest option" where
  "NewTargetRequest S rules url =
     (case url of
       None \<Rightarrow> None
     | Some u \<Rightarrow>
         (case rr_WebhookRule rules (url_Path u) of
           Some rule \<Rightarrow> Some \<lparr> originEndpoint = None, targetEndpoint = None, webhookRule = Some rule \<rparr>
         | None \<Rightarrow>
             (let apiEndpoint = ParseAPIEndpoint u
              in Some \<lparr> originEndpoint = Some apiEndpoint, targetEndpoint = RewriteAPIEndpoint S rules apiEndpoint,
                        webhookRule = None \<rparr>)))"

definition tr_Path :: "TargetRequest \<Rightarrow> string" where
  "tr_Path tr =
     (case targetEndpoint tr of
       Some e \<Rightarrow> ae_Path e
     | None \<Rightarrow> (case originEndpoint tr of
         Some e \<Rightarrow> ae_Path e
       | None \<Rightarrow> (case webhookRule tr of Some w \<Rightarrow> wh_Path w | None \<Rightarrow> [])))"

definition tr_IsCore :: "TargetRequest \<Rightarrow> bool" where
  "tr_IsCore tr = (case originEndpoint tr of Some e \<Rightarrow> IsCore e | None \<Rightarrow> False)"

definition tr_IsCRD :: "TargetRequest \<Rightarrow> bool" where
  "tr_IsCRD tr = (case originEndpoint tr of Some e \<Rightarrow> IsCRD e | None \<Rightarrow> False)"

definition tr_IsWatch :: "TargetRequest \<Rightarrow> bool" where
  "tr_IsWatch tr = (case originEndpoint tr of Some e \<Rightarrow> IsWatch e | None \<Rightarrow> False)"

definition tr_IsWebhook :: "TargetRequest \<Rightarrow> bool" where
  "tr_IsWebhook tr = (webhookRule tr \<noteq> None)"

definition tr_OrigGroup :: "TargetRequest \<Rightarrow> string" where
  "tr_OrigGroup tr =
     (case originEndpoint tr of
       Some e \<Rightarrow> if tr_IsCRD tr then CRDGroup e else Group e
     | None \<Rightarrow> (case webhookRule tr of Some w \<Rightarrow> wh_Group w | None \<Rightarrow> []))"

definition tr_OrigResourceType :: "TargetRequest \<Rightarrow> string" where
  "tr_OrigResourceType tr =
     (case originEndpoint tr of
       Some e \<Rightarrow> if tr_IsCRD tr then CRDResourceType e else ResourceType e
     | None \<Rightarrow> (case webhookRule tr of Some w \<Rightarrow> wh_Resource w | None \<Rightarrow> []))"

definition tr_RawQuery :: "TargetRequest \<Rightarrow> string" where
  "tr_RawQuery tr =
     (case targetEndpoint tr of
       Some e \<Rightarrow> RawQuery e
     | None \<Rightarrow> (case originEndpoint tr of Some e \<Rightarrow> RawQuery e | None \<Rightarrow> []))"

definition tr_RequestURI :: "TargetRequest \<Rightarrow> string" where
  "tr_RequestURI tr = (let path = tr_Path tr; query = tr_RawQuery tr in if query = [] then path else path @ ''?'' @ query)"

definition shouldRewriteResource :: "string \<Rightarrow> bool" where
  "shouldRewriteResource resourceType \<longleftrightarrow> resourceType \<in> set
     [''nodes'', ''pods'', ''configmaps'', ''secrets'', ''services'', ''serviceaccounts'', ''mutatingwebhookconfigurations'',
      ''validatingwebhookconfigurations'', ''clusterroles'', ''roles'', ''rolebindings'', ''clusterrolebindings'', ''deployments'',
      ''statefulsets'', ''daemonsets'', ''jobs'', ''persistentvolumeclaims'', ''prometheusrules'', ''servicemonitors'',
      ''poddisruptionbudgets'', ''controllerrevisions'', ''apiservices'', ''validatingadmissionpolicybindings'',
      ''validatingadmissionpolicies'', ''events'']"

definition tr_ShouldRewriteRequest :: "TargetRequest \<Rightarrow> bool" where
  "tr_ShouldRewriteRequest tr =
     (if webhookRule tr \<noteq> None then True
      else (case originEndpoint tr of
        Some e \<Rightarrow>
          if IsRoot e \<or> IsUnknown e then False
          else if targetEndpoint tr = None then
            (if ResourceType e = ''customresourcedefinitions'' \<and> Name e = [] then True
             else shouldRewriteResource (ResourceType e))
          else True
      | None \<Rightarrow> True))"

definition tr_ShouldRewriteResponse :: "TargetRequest \<Rightarrow> bool" where
  "tr_ShouldRewriteResponse tr =
     (if webhookRule tr \<noteq> None then True
      else (case originEndpoint tr of
        None \<Rightarrow> False
      | Some e \<Rightarrow>
          if IsRoot e \<or> IsUnknown e then False
          else if IsCRD e then
            (if Name e = [] then True
             else if Name e \<noteq> [] \<and> targetEndpoint tr \<noteq> None then True
             else False)
          else if targetEndpoint tr \<noteq> None then True
          else if Group e = [] then True
          else shouldRewriteResource (ResourceType e)))"

definition tr_ResourceForLog :: "TargetRequest \<Rightarrow> string" where
  "tr_ResourceForLog tr =
     (case webhookRule tr of
       Some w \<Rightarrow> wh_Resource w
     | None \<Rightarrow>
         (case originEndpoint tr of
           None \<Rightarrow> ''UNKNOWN''
         | Some ep \<Rightarrow>
             if IsRoot ep then ''ROOT''
             else if IsUnknown ep then ''UKNOWN''
             else if IsCore ep then
               (if Version ep = [] then ''APIVersions/core''
                else if ResourceType ep = [] then ''APIResourceList/core''
                else if Subresource ep \<noteq> [] then ResourceType ep @ ''/'' @ Subresource ep
                else ResourceType ep)
             else if Group ep = [] then ''APIGroupList''
             else if Version ep = [] then ''APIGroup/'' @ Group ep
             else if ResourceType ep = [] then ''APIResourceList/'' @ Group ep
             else if Subresource ep \<noteq> [] then ResourceType ep @ ''/'' @ Subresource ep
             else ResourceType ep))"

section \<open>Properties\<close>

lemma rewritten_keeps_origin:
  "RewriteAPIEndpoint S rr ep = Some e \<Longrightarrow> RawPath e = RawPath ep \<and> IsRoot e = IsRoot ep \<and> IsCore e = IsCore ep \<and> IsUnknown e = IsUnknown ep"
  by (auto simp: RewriteAPIEndpoint_def rewriteCRDEndpoint_def rewriteCRApiEndpoint_def Let_def
    split: if_splits option.splits)

lemma raw_fields: "RawPath (ParseAPIEndpoint u) = url_Path u" "RawQuery (ParseAPIEndpoint u) = url_RawQuery u"
  by (auto simp: ParseAPIEndpoint_def Let_def split: option.split)

text \<open>
  Consistent decisions: when the path of a known endpoint was rewritten, the payload of the
  request is renamed and the response is restored; and a webhook request always has both rewritten.
\<close>

theorem rewritten_request_rewrites_payloads:
  assumes "NewTargetRequest S rr (Some u) = Some tr"
    and "tr_IsWebhook tr \<or> targetEndpoint tr \<noteq> None \<and> \<not> IsRoot (ParseAPIEndpoint u) \<and> \<not> IsUnknown (ParseAPIEndpoint u)"
  shows "tr_ShouldRewriteRequest tr \<and> tr_ShouldRewriteResponse tr"
  using assms
  by (auto simp: NewTargetRequest_def tr_IsWebhook_def tr_ShouldRewriteRequest_def tr_ShouldRewriteResponse_def Let_def
    split: option.splits)

theorem rewritten_request_rewrites_payloads_witness:
  "\<exists>tr. NewTargetRequest sample_selectors (rr_Init sample_rules) (Some \<lparr> url_Path = ''/apis/g.io/v1/rs'', url_RawQuery = [] \<rparr>) = Some tr \<and>
    tr_ShouldRewriteRequest tr \<and> tr_ShouldRewriteResponse tr"
proof -
  let ?u = "\<lparr> url_Path = ''/apis/g.io/v1/rs'', url_RawQuery = [] \<rparr>"
  have c: "rr_WebhookRule (rr_Init sample_rules) (url_Path ?u) = None"
    "RewriteAPIEndpoint sample_selectors (rr_Init sample_rules) (ParseAPIEndpoint ?u) \<noteq> None"
    "\<not> IsRoot (ParseAPIEndpoint ?u) \<and> \<not> IsUnknown (ParseAPIEndpoint ?u)" by code_simp+
  let ?tr = "\<lparr> originEndpoint = Some (ParseAPIEndpoint ?u),
     targetEndpoint = RewriteAPIEndpoint sample_selectors (rr_Init sample_rules) (ParseAPIEndpoint ?u), webhookRule = None \<rparr>"
  have n: "NewTargetRequest sample_selectors (rr_Init sample_rules) (Some ?u) = Some ?tr"
    using c(1) by (simp add: NewTargetRequest_def Let_def)
  with rewritten_request_rewrites_payloads [OF n] c show ?thesis by auto
qed

text \<open>
  Pass-through: a request for an unknown path or for the root, without a label selector in its
  query, goes to the same path with the same query, and neither its payload nor the response is
  rewritten. A core path goes to the path the client wrote, whatever the query.
\<close>

theorem unknown_request_unchanged:
  assumes "NewTargetRequest S rr (Some u) = Some tr" and "rr_WebhookRule rr (url_Path u) = None"
  shows "(IsRoot (ParseAPIEndpoint u) \<or> IsUnknown (ParseAPIEndpoint u) \<longrightarrow> \<not> Contains (url_RawQuery u) ''labelSelector'' \<longrightarrow>
      \<not> tr_ShouldRewriteRequest tr \<and> \<not> tr_ShouldRewriteResponse tr \<and>
      tr_Path tr = url_Path u \<and> tr_RawQuery tr = url_RawQuery u) \<and>
    (IsCore (ParseAPIEndpoint u) \<longrightarrow> tr_Path tr = url_Path u)"
proof -
  let ?e = "ParseAPIEndpoint u"
  have tr: "tr = \<lparr> originEndpoint = Some ?e, targetEndpoint = RewriteAPIEndpoint S rr ?e, webhookRule = None \<rparr>"
    using assms by (simp add: NewTargetRequest_def Let_def)
  have path: "ae_Path e = url_Path u" if "RawPath e = url_Path u" "IsRoot e \<or> IsCore e \<or> IsUnknown e" for e
    using that by (auto simp: ae_Path_def)
  show ?thesis
  proof (intro conjI impI)
    assume k: "IsRoot ?e \<or> IsUnknown ?e" "\<not> Contains (url_RawQuery u) ''labelSelector''"
    then have "RewriteAPIEndpoint S rr ?e = None" by (elim disjE) (simp_all add: RewriteAPIEndpoint_def Let_def raw_fields)
    then have t: "tr = \<lparr> originEndpoint = Some ?e, targetEndpoint = None, webhookRule = None \<rparr>" using tr by simp
    from k(1) show "\<not> tr_ShouldRewriteRequest tr" "\<not> tr_ShouldRewriteResponse tr"
      by (simp_all add: t tr_ShouldRewriteRequest_def tr_ShouldRewriteResponse_def)
    show "tr_Path tr = url_Path u" using path [of ?e] k(1) by (auto simp: t tr_Path_def raw_fields)
    show "tr_RawQuery tr = url_RawQuery u" by (simp add: t tr_RawQuery_def raw_fields)
  next
    assume c: "IsCore ?e"
    show "tr_Path tr = url_Path u"
    proof (cases "RewriteAPIEndpoint S rr ?e")
      case None
      then show ?thesis using c path [of ?e] by (simp add: tr tr_Path_def raw_fields)
    next
      case (Some e)
      then show ?thesis using c path [of e] rewritten_keeps_origin [OF Some] by (simp add: tr tr_Path_def raw_fields)
    qed
  qed
qed

theorem unknown_request_unchanged_witness:
  "\<exists>tr. NewTargetRequest sample_selectors (rr_Init sample_rules) (Some \<lparr> url_Path = ''/healthz'', url_RawQuery = ''v'' \<rparr>) = Some tr \<and>
    tr_Path tr = ''/healthz'' \<and> tr_RawQuery tr = ''v''"
proof -
  let ?u = "\<lparr> url_Path = ''/healthz'', url_RawQuery = ''v'' \<rparr>"
  have c: "rr_WebhookRule (rr_Init sample_rules) (url_Path ?u) = None" "IsUnknown (ParseAPIEndpoint ?u)"
    "\<not> Contains (url_RawQuery ?u) ''labelSelector''" by code_simp+
  obtain tr where n: "NewTargetRequest sample_selectors (rr_Init sample_rules) (Some ?u) = Some tr"
    using c(1) by (simp add: NewTargetRequest_def Let_def)
  with unknown_request_unchanged [OF n c(1)] c(2,3) show ?thesis by auto
qed

end
