(* ===== verification/Rule_Rewriter.thy ===== *)
theory Rule_Rewriter
  imports Workloads Rbac Crd Discovery Admission_Review Target_Request
begin

text \<open>
  The rewriter itself, \<^verbatim>\<open>pkg/rewriter/rule_rewriter.go\<close>: it looks at the kind of a payload, drops what the
  exclude rules hide from the client, calls the rewriter of that kind and rewrites the metadata.
  (The rewriting of endpoints of the same file is in \<open>Endpoint\<close>.) An error result of Go carries the
  payload beside the error; no caller looks at it, and the model returns the error alone.
\<close>

section \<open>Model\<close>

definition isExcludableKind :: "string \<Rightarrow> bool" where
  "isExcludableKind kind \<longleftrightarrow> kind \<notin> set
     [''APIGroupList'', ''APIGroup'', ''APIResourceList'', ''APIGroupDiscoveryList'', ''AdmissionReview'']"

definition shouldRewriteOwnerReferences :: "string \<Rightarrow> bool" where
  "shouldRewriteOwnerReferences resourceType \<longleftrightarrow> resourceType \<in> set
     [''CustomResourceDefinition'', ''CustomResourceDefinitionList'', ''Role'', ''RoleList'', ''RoleBinding'', ''RoleBindingList'',
      ''PodDisruptionBudget'', ''PodDisruptionBudgetList'', ''ControllerRevision'', ''ControllerRevisionList'',
      ''ClusterRole'', ''ClusterRoleList'', ''ClusterRoleBinding'', ''ClusterRoleBindingList'', ''APIService'', ''APIServiceList'',
      ''Deployment'', ''DeploymentList'', ''DaemonSet'', ''DaemonSetList'', ''StatefulSet'', ''StatefulSetList'',
      ''Pod'', ''PodList'', ''Job'', ''JobList'', ''ValidatingWebhookConfiguration'', ''ValidatingWebhookConfigurationList'',
      ''MutatingWebhookConfiguration'', ''MutatingWebhookConfigurationList'', ''Service'', ''ServiceList'',
      ''PersistentVolumeClaim'', ''PersistentVolumeClaimList'', ''PrometheusRule'', ''PrometheusRuleList'',
      ''ServiceMonitor'', ''ServiceMonitorList'']"

definition exclude_item :: "'r jsonlib \<Rightarrow> RewriteRules \<Rightarrow> string \<Rightarrow> bytes \<Rightarrow> bytes res" where
  "exclude_item L rules singleKind singleObj =
     (if rr_ShouldExclude L rules singleObj singleKind then Inl SkipItem else Inr None)"

definition FilterExcludes :: "'r jsonlib \<Rightarrow> RewriteRules \<Rightarrow> bytes \<Rightarrow> Action \<Rightarrow> bytes res" where
  "FilterExcludes L rules obj action =
     (if action \<noteq> Restore then Inr obj
      else (let kind = gjson_String L (gjson_GetBytes L obj ''kind'') in
        if \<not> isExcludableKind kind then Inr obj
        else if rr_ShouldExclude L rules obj kind then Inl SkipItem
        else if \<not> HasSuffix kind ''List'' then Inr obj
        else (let singleKind = TrimSuffix kind ''List'' in
          RewriteResourceOrList2 L obj (exclude_item L rules singleKind))))"

text \<open>The switch over the kind.\<close>

definition rewrite_by_kind :: "'r jsonlib \<Rightarrow> range_order \<Rightarrow> RewriteRules \<Rightarrow> string \<Rightarrow> bytes \<Rightarrow> Action \<Rightarrow> bytes res" where
  "rewrite_by_kind L ord rules kind obj action =
     (if kind = ''APIGroupList'' then RewriteAPIGroupList L rules obj
      else if kind = ''APIGroup'' then RewriteAPIGroup L rules obj
      else if kind = ''APIResourceList'' then RewriteAPIResourceList L rules obj
      else if kind = ''APIGroupDiscoveryList'' then RewriteAPIGroupDiscoveryList L ord rules obj
      else if kind = ''AdmissionReview'' then RewriteAdmissionReview L rules obj
      else if kind = ''CustomResourceDefinition'' \<or> kind = ''CustomResourceDefinitionList'' then RewriteCRDOrList L rules obj action
      else if kind = ''MutatingWebhookConfiguration'' \<or> kind = ''MutatingWebhookConfigurationList''
        then RewriteMutatingOrList L rules obj action
      else if kind = ''ValidatingWebhookConfiguration'' \<or> kind = ''ValidatingWebhookConfigurationList''
        then RewriteValidatingOrList L rules obj action
      else if kind = ''Event'' \<or> kind = ''EventList'' then RewriteEventOrList L rules obj action
      else if kind = ''ClusterRole'' \<or> kind = ''ClusterRoleList'' then RewriteClusterRoleOrList L rules obj action
      else if kind = ''Role'' \<or> kind = ''RoleList'' then RewriteRoleOrList L rules obj action
      else if kind = ''Deployment'' \<or> kind = ''DeploymentList'' then RewriteDeploymentOrList L rules obj action
      else if kind = ''StatefulSet'' \<or> kind = ''StatefulSetList'' then RewriteStatefulSetOrList L rules obj action
      else if kind = ''DaemonSet'' \<or> kind = ''DaemonSetList'' then RewriteDaemonSetOrList L rules obj action
      else if kind = ''Pod'' \<or> kind = ''PodList'' then RewritePodOrList L rules obj action
      else if kind = ''PodDisruptionBudget'' \<or> kind = ''PodDisruptionBudgetList'' then RewritePDBOrList L rules obj action
      else if kind = ''Job'' \<or> kind = ''JobList'' then RewriteJobOrList L rules obj action
      else if kind = ''Service'' \<or> kind = ''ServiceList'' then RewriteServiceOrList L rules obj action
      else if kind = ''PersistentVolumeClaim'' \<or> kind = ''PersistentVolumeClaimList'' then RewritePVCOrList L rules obj action
      else if kind = ''ServiceMonitor'' \<or> kind = ''ServiceMonitorList'' then RewriteServiceMonitorOrList L rules obj action
      else if kind = ''ValidatingAdmissionPolicyBinding'' \<or> kind = ''ValidatingAdmissionPolicyBindingList''
        then RewriteValidatingAdmissionPolicyBindingOrList L rules obj action
      else if kind = ''ValidatingAdmissionPolicy'' \<or> kind = ''ValidatingAdmissionPolicyList''
        then RewriteValidatingAdmissionPolicyOrList L rules obj action
      else RewriteCustomResourceOrList L rules obj action)"

definition RewriteJSONPayload :: "'r jsonlib \<Rightarrow> range_order \<Rightarrow> RewriteRules \<Rightarrow> bytes \<Rightarrow> Action \<Rightarrow> bytes res" where
  "RewriteJSONPayload L ord rules obj action =
     (let kind = gjson_String L (gjson_GetBytes L obj ''kind'') in
      res_bind (FilterExcludes L rules obj action) (\<lambda>obj.
      res_bind (rewrite_by_kind L ord rules kind obj action) (\<lambda>rwrBytes.
      RewriteResourceOrList2 L rwrBytes (\<lambda>singleObj.
        TransformObject L singleObj ''metadata'' (\<lambda>metadataObj. RewriteMetadata L rules metadataObj action)))))"

definition RestoreBookmark :: "'r jsonlib \<Rightarrow> RewriteRules \<Rightarrow> bytes \<Rightarrow> bytes res" where
  "RestoreBookmark L rules obj = RestoreAPIVersionAndKind L rules obj"

definition RewritePatch :: "'r jsonlib \<Rightarrow> RewriteRules \<Rightarrow> TargetRequest \<Rightarrow> bytes \<Rightarrow> bytes res" where
  "RewritePatch L rules targetReq patchBytes =
     (case rr_ResourceRules rules (tr_OrigGroup targetReq) (tr_OrigResourceType targetReq) of
       Some (_, resRule) \<Rightarrow>
         if tr_IsCRD targetReq then RenameCRDPatch L rules resRule patchBytes
         else RenameResourcePatch L rules patchBytes
     | None \<Rightarrow>
         (let resourceType = tr_OrigResourceType targetReq in
          if resourceType = ''services'' then RenameServicePatch L rules patchBytes
          else if resourceType = ''deployments'' \<or> resourceType = ''daemonsets'' \<or> resourceType = ''statefulsets''
            then RenameSpecTemplatePatch L rules patchBytes
          else if resourceType = ''validatingwebhookconfigurations'' \<or> resourceType = ''mutatingwebhookconfigurations''
            then RenameWebhookConfigurationPatch L rules patchBytes
          else RenameMetadataPatch L rules patchBytes))"

section \<open>Excluded objects\<close>

definition excluded :: "RewriteRules \<Rightarrow> string \<Rightarrow> json \<Rightarrow> bool" where
  "excluded rr kind j \<longleftrightarrow> (\<exists>r \<in> set (rr_Excludes rr). excluded_by r j kind)"

text \<open>The fields the exclude rules look at are well typed.\<close>

definition exclude_typed :: "json \<Rightarrow> bool" where
  "exclude_typed j \<longleftrightarrow> has_text j [''kind''] \<and> has_text j [''metadata'', ''name''] \<and> has_text_map j [''metadata'', ''labels'']"

definition list_typed :: "json \<Rightarrow> bool" where
  "list_typed j \<longleftrightarrow> (HasSuffix (jtext_at j [''kind'']) ''List'' \<longrightarrow>
     has_array j [''items''] \<and> list_all exclude_typed (items_at j [''items'']))"

definition j_filter :: "RewriteRules \<Rightarrow> json \<Rightarrow> json" where
  "j_filter rr j =
     (let kind = jtext_at j [''kind''] in
      if HasSuffix kind ''List''
      then j_array [''items''] (\<lambda>v. if excluded rr (TrimSuffix kind ''List'') v then None else Some v) j else j)"

context json_library
begin

lemma ShouldExclude_iff: "doc D x j \<Longrightarrow> exclude_typed j \<Longrightarrow> rr_ShouldExclude L rr x kind \<longleftrightarrow> excluded rr kind j"
  using ex_Match_refines [of x j _ kind] by (simp add: exclude_typed_def rr_ShouldExclude_def list_ex_iff excluded_def)

lemma kind_of: "doc D x j \<Longrightarrow> has_text j [''kind''] \<Longrightarrow> gjson_String L (gjson_GetBytes L x ''kind'') = jtext_at j [''kind'']"
  using String_at [of x j "''kind''"] by simp

lemma FilterExcludes_yields:
  assumes "doc D x j" and "exclude_typed j" and "list_typed j" and "isExcludableKind (jtext_at j [''kind''])"
  shows "excluded rr (jtext_at j [''kind'']) j \<Longrightarrow> FilterExcludes L rr x Restore = Inl SkipItem"
    and "\<not> excluded rr (jtext_at j [''kind'']) j \<Longrightarrow> yields D (FilterExcludes L rr x Restore) (j_filter rr j)"
proof -
  have k: "has_text j [''kind'']" using assms(2) by (simp add: exclude_typed_def)
  note kind = kind_of [OF assms(1) k] and ex = ShouldExclude_iff [OF assms(1,2)]
  show "excluded rr (jtext_at j [''kind'']) j \<Longrightarrow> FilterExcludes L rr x Restore = Inl SkipItem"
    using assms(4) by (simp add: FilterExcludes_def kind ex)
  assume n: "\<not> excluded rr (jtext_at j [''kind'']) j"
  let ?g = "\<lambda>v. if excluded rr (TrimSuffix (jtext_at j [''kind'']) ''List'') v then None else Some v"
  let ?F = "exclude_item L rr (TrimSuffix (jtext_at j [''kind'']) ''List'')"
  have item: "item_ok D (?F y) v (?g v)" if "doc D y v" "exclude_typed v" for v y
    using ShouldExclude_iff [OF that] by (simp add: exclude_item_def item_ok_def)
  show "yields D (FilterExcludes L rr x Restore) (j_filter rr j)"
  proof (cases "HasSuffix (jtext_at j [''kind'']) ''List''")
    case True
    have "yields D (RewriteResourceOrList2 L x ?F) (j_array [''items''] ?g j)"
      using RewriteResourceOrList2_yields [OF assms(1) k, of ?F "\<lambda>v. v" ?g] True assms(3) item
      by (simp add: list_typed_def list_all_iff)
    with True n assms(4) show ?thesis by (simp add: FilterExcludes_def kind ex j_filter_def)
  next
    case False
    with n assms(1,4) show ?thesis by (simp add: FilterExcludes_def kind ex j_filter_def)
  qed
qed

end

text \<open>
  C9. Excluded objects never reach the client: restoring an excluded object ends in the skip error
  that its caller drops it for, and a list of any other kind loses exactly its excluded items and
  keeps the others in their order. Payloads of the client are not filtered.
\<close>

theorem filter_excludes_refines:
  assumes "json_library L D V" and "doc D x j" and "exclude_typed j" and "list_typed j" and "isExcludableKind (jtext_at j [''kind''])"
  shows "(if excluded rr (jtext_at j [''kind'']) j then FilterExcludes L rr x Restore = Inl SkipItem
      else yields D (FilterExcludes L rr x Restore) (j_filter rr j)) \<and>
    FilterExcludes L rr x Rename = Inr x"
  using json_library.FilterExcludes_yields [OF assms] by (simp add: FilterExcludes_def)

definition sample_pods :: rj where
  "sample_pods = RObj [(''kind'', RStr ''PodList''), (''items'', RArr [sample_pod, RObj [(''metadata'', RObj [(''name'', RStr ''q'')])]])]"

lemma sample_excludes:
  "rr_Excludes (rr_Init sample_rules) =
     [\<lparr> ex_Kinds = [''Pod''], ex_MatchNames = [], ex_MatchLabels = [(''hide'', ''yes'')] \<rparr>,
      \<lparr> ex_Kinds = [''R'', ''RList'', ''Q'', ''QList''], ex_MatchNames = [], ex_MatchLabels = [] \<rparr>]"
  by code_simp

theorem filter_excludes_refines_witness:
  "yields ref_D (FilterExcludes ref_lib (rr_Init sample_rules) (Some (print sample_pods)) Restore)
     (j_filter (rr_Init sample_rules) (rj_abs sample_pods))"
proof -
  have t: "exclude_typed (rj_abs sample_pods)" "list_typed (rj_abs sample_pods)" "isExcludableKind (jtext_at (rj_abs sample_pods) [''kind''])"
    by (simp_all add: exclude_typed_def list_typed_def isExcludableKind_def has_text_def has_text_map_def has_array_def items_at_def jtext_at_def
      sample_pods_def sample_pod_def)
  have n: "\<not> excluded (rr_Init sample_rules) (jtext_at (rj_abs sample_pods) [''kind'']) (rj_abs sample_pods)"
    by (simp add: excluded_def sample_excludes excluded_by_def jtext_at_def sample_pods_def)
  have "rj_ok sample_pods" by code_simp
  from filter_excludes_refines [OF ref.json_library_axioms ref_doc [OF this] t, of "rr_Init sample_rules"] n show ?thesis by simp
qed

section \<open>Custom resources\<close>

definition special_kinds :: "string list" where
  "special_kinds =
     [''APIGroupList'', ''APIGroup'', ''APIResourceList'', ''APIGroupDiscoveryList'', ''AdmissionReview'',
      ''CustomResourceDefinition'', ''CustomResourceDefinitionList'', ''MutatingWebhookConfiguration'', ''MutatingWebhookConfigurationList'',
      ''ValidatingWebhookConfiguration'', ''ValidatingWebhookConfigurationList'', ''Event'', ''EventList'',
      ''ClusterRole'', ''ClusterRoleList'', ''Role'', ''RoleList'', ''Deployment'', ''DeploymentList'', ''StatefulSet'', ''StatefulSetList'',
      ''DaemonSet'', ''DaemonSetList'', ''Pod'', ''PodList'', ''PodDisruptionBudget'', ''PodDisruptionBudgetList'', ''Job'', ''JobList'',
      ''Service'', ''ServiceList'', ''PersistentVolumeClaim'', ''PersistentVolumeClaimList'', ''ServiceMonitor'', ''ServiceMonitorList'',
      ''ValidatingAdmissionPolicyBinding'', ''ValidatingAdmissionPolicyBindingList'', ''ValidatingAdmissionPolicy'', ''ValidatingAdmissionPolicyList'']"

lemma rewrite_by_kind_custom:
  "kind \<notin> set special_kinds \<Longrightarrow> rewrite_by_kind L ord rr kind x action = RewriteCustomResourceOrList L rr x action"
  "kind \<notin> set special_kinds \<Longrightarrow> isExcludableKind kind"
  unfolding special_kinds_def rewrite_by_kind_def isExcludableKind_def list.set insert_iff de_Morgan_disj empty_iff
  by (simp_all only: if_False if_True simp_thms)

text \<open>A single resource with a rule of its own.\<close>

definition known_kind :: "RewriteRules \<Rightarrow> string \<Rightarrow> bool" where
  "known_kind rr k \<longleftrightarrow> (case rr_ResourceByKind rr k of (g, r, isList) \<Rightarrow> (g \<noteq> [] \<or> r \<noteq> []) \<and> \<not> isList)"

definition single_custom :: "string \<Rightarrow> bool" where
  "single_custom k \<longleftrightarrow> k \<notin> set special_kinds \<and> \<not> HasSuffix k ''List''"

lemma restore_rename_kind: "rr_RestoreKind rr (rr_RenameKind rr k) = k"
  by (simp add: rr_RestoreKind_def rr_RenameKind_def)

lemma jtext_kind_payload:
  "is_object j \<Longrightarrow> jtext_at (j_payload rr Rename j) [''kind''] = rr_RenameKind rr (jtext_at j [''kind''])"
  "is_object j \<Longrightarrow> has_text (j_payload rr Rename j) [''kind'']"
  "is_object j \<Longrightarrow> jtext_at (j_versions rr Rename j) [''kind''] = rr_RenameKind rr (jtext_at j [''kind''])"
  "is_object j \<Longrightarrow> jtext_at (j_versions rr Restore j) [''kind''] = rr_RestoreKind rr (jtext_at j [''kind''])"
  "is_object j \<Longrightarrow> has_text (j_versions rr Rename j) [''kind''] \<and> has_text (j_versions rr Restore j) [''kind'']"
  by (cases j; simp add: j_payload_def is_object_def j_resource_object j_object_member jtext_at_def has_text_def)+

context json_library
begin

lemma payload_yields:
  assumes "rules_ready rr" and "doc D x j" and "resource_ok j" and "meta_ok rr action (j_versions rr action j)"
    and "FilterExcludes L rr x action = Inr x"
    and "jtext_at j [''kind''] \<notin> set special_kinds" and "\<not> HasSuffix (jtext_at (j_versions rr action j) [''kind'']) ''List''"
    and "known_kind rr (case action of Rename \<Rightarrow> jtext_at j [''kind''] | Restore \<Rightarrow> rr_RestoreKind rr (jtext_at j [''kind'']))"
  shows "yields D (RewriteJSONPayload L ord rr x action) (j_payload rr action j)"
proof -
  have o: "is_object j" and k: "has_text j [''kind'']" using assms(3) by (simp_all add: resource_ok_def)
  note kind = kind_of [OF assms(2) k]
  have "RewriteCustomResourceOrList L rr x action = (case action of Rename \<Rightarrow> RenameResource L rr x | Restore \<Rightarrow> RestoreResource L rr x)"
    using assms(8) by (cases action) (auto simp: RewriteCustomResourceOrList_def kind known_kind_def split: prod.splits)
  then have s1: "yields D (rewrite_by_kind L ord rr (jtext_at j [''kind'']) x action) (j_versions rr action j)"
    using versions_yields [OF assms(1-3), of action] by (simp add: rewrite_by_kind_custom(1) [OF assms(6)])
  have s2: "yields D (RewriteResourceOrList2 L y (\<lambda>s. TransformObject L s ''metadata'' (\<lambda>m. RewriteMetadata L rr m action)))
      (j_payload rr action j)" if "doc D y (j_versions rr action j)" for y
  proof -
    have "has_text (j_versions rr action j) [''kind'']" using jtext_kind_payload(5) [OF o] by (cases action) simp_all
    with kind_of [OF that] assms(7) metadata_step_yields [OF assms(1) that assms(4)] show ?thesis
      by (simp add: RewriteResourceOrList2_def j_payload_def)
  qed
  show ?thesis
    unfolding RewriteJSONPayload_def Let_def kind assms(5) res_bind.simps by (rule yields_bind [OF s1 s2])
qed

end

text \<open>A client resource on its way to the server and back.\<close>

definition transparent :: "RewriteRules \<Rightarrow> json \<Rightarrow> bool" where
  "transparent rr j \<longleftrightarrow> client_payload rr j \<and> known_kind rr (jtext_at j [''kind'']) \<and> single_custom (jtext_at j [''kind'']) \<and>
     single_custom (rr_RenameKind rr (jtext_at j [''kind''])) \<and> exclude_typed (j_payload rr Rename j) \<and>
     \<not> excluded rr (rr_RenameKind rr (jtext_at j [''kind''])) (j_payload rr Rename j)"

context json_library
begin

lemma payload_renamed:
  assumes "rules_ready rr" and "replaces_wf rr" and "doc D x j" and "transparent rr j"
  shows "yields D (RewriteJSONPayload L ord rr x Rename) (j_payload rr Rename j)"
proof -
  note t = assms(4) [unfolded transparent_def single_custom_def]
  note r = j_payload_roundtrip [OF assms(1,2) conjunct1 [OF t]]
  note o = resource_ok_object [OF r(2)]
  show ?thesis
    by (rule payload_yields [OF assms(1,3) r(2) meta_ok_versions [OF o r(3)]])
      (use t jtext_kind_payload(3) [OF o, of rr] in \<open>simp_all add: FilterExcludes_def del: j_versions.simps\<close>)
qed

lemma payload_restored:
  assumes "rules_ready rr" and "replaces_wf rr" and "doc D y (j_payload rr Rename j)" and "transparent rr j"
  shows "yields D (RewriteJSONPayload L ord rr y Restore) j"
proof -
  let ?i = "j_payload rr Rename j" and ?k = "jtext_at j [''kind'']"
  note t = assms(4) [unfolded transparent_def single_custom_def]
  note r = j_payload_roundtrip [OF assms(1,2) conjunct1 [OF t]]
  note o = resource_ok_object [OF r(2)] and oi = resource_ok_object [OF r(4)]
  have k: "jtext_at ?i [''kind''] = rr_RenameKind rr ?k" by (rule jtext_kind_payload(1) [OF o])
  have f: "FilterExcludes L rr y Restore = Inr y"
    using kind_of [OF assms(3)] ShouldExclude_iff [OF assms(3)] t k rewrite_by_kind_custom(2) [of "rr_RenameKind rr ?k"]
    by (simp add: FilterExcludes_def exclude_typed_def)
  have "yields D (RewriteJSONPayload L ord rr y Restore) (j_payload rr Restore ?i)"
    by (rule payload_yields [OF assms(1,3) r(4,5) f])
      (use t k jtext_kind_payload(4) [OF oi, of rr] in \<open>simp_all add: restore_rename_kind del: j_versions.simps\<close>)
  with r(1) show ?thesis by simp
qed

end

text \<open>
  C2. The proxy is transparent for custom resources: the payload of a client resource with a rule,
  version, kind, managed fields, labels, annotations, finalizers and owner references included, is
  renamed without an error, and when the server sends it back and no exclude rule hides it, the
  client gets the same JSON value.
\<close>

theorem payload_roundtrip:
  assumes "json_library L D V" and "rules_ready rr" and "replaces_wf rr" and "doc D x j" and "transparent rr j"
  shows "\<exists>y. RewriteJSONPayload L ord rr x Rename = Inr y \<and> doc D y (j_payload rr Rename j) \<and>
    yields D (RewriteJSONPayload L ord' rr y Restore) j"
  using json_library.payload_renamed [OF assms, of ord] json_library.payload_restored [OF assms(1-3) _ assms(5), of _ ord']
  by (auto simp: yields_def)

definition sample_payload :: rj where
  "sample_payload = RObj [(''apiVersion'', RStr ''g.io/v1''), (''kind'', RStr ''R''),
     (''metadata'', RObj [(''name'', RStr ''n''), (''annotations'', RObj [(''g.io/a'', RStr ''v'')]), (''finalizers'', RArr [RStr ''app''])])]"

lemma sample_payload_client: "client_payload (rr_Init sample_rules) (rj_abs sample_payload)"
proof -
  have s: "\<not> rr_IsRenamedGroup (rr_Init sample_rules) ''g.io/v1''"
    "name_survives (rr_annotationsRewriter (rr_Init sample_rules)) ''g.io/a'' ''v''"
    "name_survives (rr_finalizersRewriter (rr_Init sample_rules)) ''app'' []" by code_simp+
  then show ?thesis
    by (simp add: client_payload_def client_resource_def client_version_def client_metadata_def client_map_def no_clash_def
      has_array_def items_at_def sample_payload_def split: if_splits)
qed

lemma sample_payload_transparent: "transparent (rr_Init sample_rules) (rj_abs sample_payload)"
proof -
  let ?rr = "rr_Init sample_rules" and ?j = "rj_abs sample_payload"
  have k: "jtext_at ?j [''kind''] = ''R''" by (simp add: sample_payload_def jtext_at_def)
  have c: "known_kind ?rr ''R''" "single_custom ''R''" "rr_RenameKind ?rr ''R'' = ''PR''" "single_custom ''PR''" by code_simp+
  have t: "exclude_typed (j_payload ?rr Rename ?j)"
    by (simp add: exclude_typed_def j_payload_def sample_payload_def j_resource_object j_object_member at_object_def j_array_member
      j_metadata_object at_map_def at_array_def has_text_def has_text_map_def)
  have n: "\<not> excluded ?rr ''PR'' (j_payload ?rr Rename ?j)" by (simp add: excluded_def sample_excludes excluded_by_def)
  show ?thesis using sample_payload_client k c t n by (simp add: transparent_def)
qed

lemma sample_replaces_wf: "replaces_wf (rr_Init sample_rules)"
  by code_simp

theorem payload_roundtrip_witness:
  "\<exists>y. RewriteJSONPayload ref_lib insertion_order (rr_Init sample_rules) (Some (print sample_payload)) Rename = Inr y \<and>
    yields ref_D (RewriteJSONPayload ref_lib insertion_order (rr_Init sample_rules) y Restore) (rj_abs sample_payload)"
proof -
  have "rj_ok sample_payload" by code_simp
  from payload_roundtrip [OF ref.json_library_axioms sample_rules_ready sample_replaces_wf ref_doc [OF this] sample_payload_transparent]
  show ?thesis by blast
qed

section \<open>Lists of custom resources\<close>

lemma is_object_j_array: "is_object j \<Longrightarrow> is_object (j_array [k] f j)"
  by (simp add: j_array_def)

lemma resource_ok_j_array: "resource_ok j \<Longrightarrow> resource_ok (j_array [''items''] f j)"
proof -
  assume ok: "resource_ok j"
  let ?i = "j_array [''items''] f j"
  have g: "jget ?i [''apiVersion''] = jget j [''apiVersion'']" "jget ?i [''kind''] = jget j [''kind'']"
    "jget ?i [''metadata'', ''managedFields''] = jget j [''metadata'', ''managedFields'']" by simp_all
  show ?thesis
    using ok is_object_j_array [of j "''items''" f] place_cong(3) [OF g(1)] place_cong(3) [OF g(2)] place_cong(1,5) [OF g(3)]
    by (simp only: resource_ok_def)
qed

text \<open>The restored list as a value.\<close>

definition j_restored_list :: "RewriteRules \<Rightarrow> json \<Rightarrow> json" where
  "j_restored_list rr j =
     (let f = j_filter rr j;
          h = jset (jset f [''apiVersion''] (JStr (rr_RestoreApiVersion rr (jtext_at f [''apiVersion'']))))
            [''kind''] (JStr (rr_RestoreKind rr (jtext_at f [''kind''])))
      in j_array [''items''] (\<lambda>v. Some (j_object [''metadata''] (j_metadata rr Restore) v))
           (j_array [''items''] (\<lambda>v. Some (j_versions rr Restore v)) h))"

definition known_list :: "RewriteRules \<Rightarrow> string \<Rightarrow> bool" where
  "known_list rr k \<longleftrightarrow> (case rr_ResourceByKind rr k of (g, r, isList) \<Rightarrow> (g \<noteq> [] \<or> r \<noteq> []) \<and> isList) \<and> HasSuffix k ''List''"

lemma j_restored_list_items:
  assumes "is_object j" and "HasSuffix (jtext_at j [''kind'']) ''List''"
  shows "items_at (j_restored_list rr j) [''items''] =
    map (j_payload rr Restore) (filter (\<lambda>v. \<not> excluded rr (TrimSuffix (jtext_at j [''kind'']) ''List'') v) (items_at j [''items'']))"
proof -
  have "items_at (jset (jset i [''apiVersion''] u) [''kind''] w) [''items''] = items_at i [''items'']" for i u w
    by (rule place_cong(5)) (simp add: jget_jset_forks)
  then show ?thesis
    by (simp add: j_restored_list_def Let_def items_at_j_array_filter map_filter_all j_filter_def assms(2) map_filter_if comp_def
      j_payload_def del: j_versions.simps)
qed

lemma j_restored_list_fields:
  assumes "is_object j"
  shows "jget (j_restored_list rr j) [''apiVersion''] = Some (JStr (rr_RestoreApiVersion rr (jtext_at j [''apiVersion''])))"
    and "jget (j_restored_list rr j) [''kind''] = Some (JStr (rr_RestoreKind rr (jtext_at j [''kind''])))"
proof -
  have o: "is_object (j_filter rr j)" using assms by (simp add: j_filter_def Let_def is_object_j_array)
  have "jget (j_filter rr j) [k] = jget j [k]" if "k \<noteq> ''items''" for k using that by (simp add: j_filter_def Let_def)
  then have t: "jtext_at (j_filter rr j) [''apiVersion''] = jtext_at j [''apiVersion'']" "jtext_at (j_filter rr j) [''kind''] = jtext_at j [''kind'']"
    by (simp_all add: jtext_at_def)
  from o obtain m where m: "j_filter rr j = JObj m" by (cases "j_filter rr j") (auto simp: is_object_def)
  show "jget (j_restored_list rr j) [''apiVersion''] = Some (JStr (rr_RestoreApiVersion rr (jtext_at j [''apiVersion''])))"
    "jget (j_restored_list rr j) [''kind''] = Some (JStr (rr_RestoreKind rr (jtext_at j [''kind''])))"
    using t by (simp_all add: j_restored_list_def Let_def m)
qed

context json_library
begin

lemma restore_list_yields:
  assumes "rules_ready rr" and "doc D x j" and "resource_ok j" and "has_array j [''items'']"
    and "list_all resource_ok (items_at j [''items''])"
  shows "yields D (RestoreResourcesList L rr x) (j_array [''items''] (\<lambda>v. Some (j_versions rr Restore v))
    (jset (jset j [''apiVersion''] (JStr (rr_RestoreApiVersion rr (jtext_at j [''apiVersion'']))))
      [''kind''] (JStr (rr_RestoreKind rr (jtext_at j [''kind''])))))"
proof -
  let ?h = "jset (jset j [''apiVersion''] (JStr (rr_RestoreApiVersion rr (jtext_at j [''apiVersion'']))))
      [''kind''] (JStr (rr_RestoreKind rr (jtext_at j [''kind''])))"
  have i: "jget ?h [''items''] = jget j [''items'']" by (simp add: jget_jset_forks)
  have "yields D (RestoreAPIVersionAndKind L rr x) ?h"
    unfolding RestoreAPIVersionAndKind_def by (rule two_fields_yields [OF assms(2,3)]) (use ready_text [OF assms(1)] in simp)
  moreover have "yields D (RewriteArray L y ''items'' (RestoreResource L rr)) (j_array [''items''] (\<lambda>v. Some (j_versions rr Restore v)) ?h)"
    if y: "doc D y ?h" for y
  proof -
    have "item_ok D (RestoreResource L rr z) v (Some (j_versions rr Restore v))" if "v \<in> set (items_at ?h [''items''])" "doc D z v" for v z
      using versions_yields [OF assms(1) that(2), of Restore] that(1) assms(5) place_cong(5) [OF i]
      by (intro item_ok_Some) (simp add: list_all_iff)
    then show ?thesis
      using RewriteArray_yields [OF y, of "''items''" "RestoreResource L rr" "\<lambda>v. Some (j_versions rr Restore v)"] assms(4) place_cong(1) [OF i]
      by (simp add: Root_def)
  qed
  ultimately show ?thesis unfolding RestoreResourcesList_def by (rule yields_bind)
qed

lemma metadata_list_yields:
  assumes "rules_ready rr" and "doc D x j" and "has_text j [''kind'']" and "HasSuffix (jtext_at j [''kind'']) ''List''"
    and "has_array j [''items'']" and "list_all (meta_ok rr action) (items_at j [''items''])"
  shows "yields D (RewriteResourceOrList2 L x (\<lambda>s. TransformObject L s ''metadata'' (\<lambda>m. RewriteMetadata L rr m action)))
    (j_array [''items''] (\<lambda>v. Some (j_object [''metadata''] (j_metadata rr action) v)) j)"
proof -
  have "item_ok D (TransformObject L y ''metadata'' (\<lambda>m. RewriteMetadata L rr m action)) v (Some (j_object [''metadata''] (j_metadata rr action) v))"
    if "v \<in> set (items_at j [''items''])" "doc D y v" for v y
    using metadata_step_yields [OF assms(1) that(2)] that(1) assms(6) by (intro item_ok_Some) (simp add: list_all_iff)
  then show ?thesis
    using RewriteResourceOrList2_yields [OF assms(2,3), of "\<lambda>s. TransformObject L s ''metadata'' (\<lambda>m. RewriteMetadata L rr m action)" "\<lambda>v. v"
      "\<lambda>v. Some (j_object [''metadata''] (j_metadata rr action) v)"] assms(4,5) by simp
qed

lemma list_payload_yields:
  assumes "rules_ready rr" and "doc D x j" and "resource_ok j" and "exclude_typed j" and "list_typed j"
    and "jtext_at j [''kind''] \<notin> set special_kinds" and "HasSuffix (jtext_at j [''kind'']) ''List''"
    and "known_list rr (rr_RestoreKind rr (jtext_at j [''kind'']))" and "\<not> excluded rr (jtext_at j [''kind'']) j"
    and "list_all (\<lambda>v. resource_ok v \<and> meta_ok rr Restore v) (items_at j [''items''])"
  shows "yields D (RewriteJSONPayload L ord rr x Restore) (j_restored_list rr j)"
proof -
  let ?k = "jtext_at j [''kind'']" and ?f = "j_filter rr j"
  let ?h = "jset (jset ?f [''apiVersion''] (JStr (rr_RestoreApiVersion rr (jtext_at ?f [''apiVersion'']))))
      [''kind''] (JStr (rr_RestoreKind rr (jtext_at ?f [''kind''])))"
  let ?v = "j_array [''items''] (\<lambda>v. Some (j_versions rr Restore v)) ?h"
  have t: "has_text j [''kind'']" "has_array j [''items'']" using assms(3,5,7) by (simp_all add: resource_ok_def list_typed_def)
  have f: "resource_ok ?f" "has_array ?f [''items'']" "jget ?f [''kind''] = jget j [''kind'']"
    using resource_ok_j_array [OF assms(3)] has_array_j_array [OF t(2)] assms(7) by (simp_all add: j_filter_def Let_def)
  have items: "set (items_at ?f [''items'']) \<subseteq> set (items_at j [''items''])"
    by (auto simp: j_filter_def Let_def items_at_j_array_filter map_filter_if)
  have h: "jget ?h [''items''] = jget ?f [''items'']" by (simp add: jget_jset_forks)
  obtain m where m: "?f = JObj m" using resource_ok_object [OF f(1)] by (cases ?f) (auto simp: is_object_def)
  have kv: "jget ?v [''kind''] = Some (JStr (rr_RestoreKind rr ?k))" using place_cong(7) [OF f(3)] by (simp add: m)
  have iv: "items_at ?v [''items''] = map (j_versions rr Restore) (items_at ?f [''items''])"
    by (simp add: items_at_j_array_filter map_filter_all place_cong(5) [OF h] del: j_versions.simps)
  have s1: "yields D (FilterExcludes L rr x Restore) ?f"
    by (rule FilterExcludes_yields(2) [OF assms(2,4,5) rewrite_by_kind_custom(2) [OF assms(6)] assms(9)])
  have s2: "yields D (rewrite_by_kind L ord rr ?k y Restore) ?v" if y: "doc D y ?f" for y
  proof -
    have "gjson_String L (gjson_GetBytes L y ''kind'') = ?k"
      using kind_of [OF y] place_cong(3,7) [OF f(3)] t(1) by simp
    then have "RewriteCustomResourceOrList L rr y Restore = RestoreResourcesList L rr y"
      using assms(8) by (auto simp: RewriteCustomResourceOrList_def known_list_def split: prod.splits)
    then show ?thesis
      using restore_list_yields [OF assms(1) y f(1,2)] items assms(10)
      by (auto simp: list_all_iff rewrite_by_kind_custom(1) [OF assms(6)])
  qed
  have mo: "list_all (meta_ok rr Restore) (items_at ?v [''items''])"
    using items assms(10) unfolding iv list_all_iff by (auto simp del: j_versions.simps intro: meta_ok_versions resource_ok_object)
  have s3: "yields D (RewriteResourceOrList2 L z (\<lambda>s. TransformObject L s ''metadata'' (\<lambda>m. RewriteMetadata L rr m Restore)))
      (j_restored_list rr j)" if z: "doc D z ?v" for z
    unfolding j_restored_list_def Let_def
    by (rule metadata_list_yields [OF assms(1) z])
      (use kv assms(8) mo has_array_j_array [OF place_cong(1) [OF h, THEN iffD2, OF f(2)]] in
        \<open>simp_all add: has_text_def jtext_at_def known_list_def del: j_versions.simps\<close>)
  show ?thesis
    unfolding RewriteJSONPayload_def Let_def kind_of [OF assms(2) t(1)] by (rule yields_bind [OF s1 yields_bind [OF s2 s3]])
qed

end

text \<open>
  Lists of custom resources: what the client gets for a list the server answers with is the list
  of the restored items in the order of the server, metadata included, without the items an exclude
  rule hides, under the restored version and kind of the list.
\<close>

theorem list_payload_restored:
  assumes "json_library L D V" and "rules_ready rr" and "doc D x j" and "resource_ok j" and "exclude_typed j" and "list_typed j"
    and "jtext_at j [''kind''] \<notin> set special_kinds" and "HasSuffix (jtext_at j [''kind'']) ''List''"
    and "known_list rr (rr_RestoreKind rr (jtext_at j [''kind'']))" and "\<not> excluded rr (jtext_at j [''kind'']) j"
    and "list_all (\<lambda>v. resource_ok v \<and> meta_ok rr Restore v) (items_at j [''items''])"
  shows "\<exists>i. yields D (RewriteJSONPayload L ord rr x Restore) i \<and>
    items_at i [''items''] = map (j_payload rr Restore)
      (filter (\<lambda>v. \<not> excluded rr (TrimSuffix (jtext_at j [''kind'']) ''List'') v) (items_at j [''items''])) \<and>
    jget i [''apiVersion''] = Some (JStr (rr_RestoreApiVersion rr (jtext_at j [''apiVersion'']))) \<and>
    jget i [''kind''] = Some (JStr (rr_RestoreKind rr (jtext_at j [''kind''])))"
  using json_library.list_payload_yields [OF assms] j_restored_list_items [OF resource_ok_object [OF assms(4)] assms(8)]
    j_restored_list_fields [OF resource_ok_object [OF assms(4)]] by blast

definition sample_item :: "string \<Rightarrow> rj" where
  "sample_item n = RObj [(''apiVersion'', RStr ''x.g.io/v1''), (''kind'', RStr ''PR''), (''metadata'', RObj [(''name'', RStr n)])]"

definition sample_resources :: rj where
  "sample_resources = RObj [(''apiVersion'', RStr ''x.g.io/v1''), (''kind'', RStr ''PRList''), (''items'', RArr [sample_item ''a'', sample_item ''b''])]"

lemma sample_resources_ok:
  defines "rr \<equiv> rr_Init sample_rules" and "j \<equiv> rj_abs sample_resources"
  shows "rj_ok sample_resources" "resource_ok j" "exclude_typed j" "list_typed j" "jtext_at j [''kind''] = ''PRList''" "jtext_at j [''apiVersion''] = ''x.g.io/v1''"
    "items_at j [''items''] = [rj_abs (sample_item ''a''), rj_abs (sample_item ''b'')]"
    "''PRList'' \<notin> set special_kinds" "HasSuffix ''PRList'' ''List''" "known_list rr (rr_RestoreKind rr ''PRList'')"
    "list_all (\<lambda>v. resource_ok v \<and> meta_ok rr Restore v) (items_at j [''items''])" "\<not> excluded rr ''PRList'' v" "\<not> excluded rr ''PR'' v"
    "rr_RestoreKind rr ''PRList'' = ''RList''" "rr_RestoreApiVersion rr ''x.g.io/v1'' = ''g.io/v1''" "TrimSuffix ''PRList'' ''List'' = ''PR''"
proof -
  show "rj_ok sample_resources" "''PRList'' \<notin> set special_kinds" "HasSuffix ''PRList'' ''List''" "known_list rr (rr_RestoreKind rr ''PRList'')"
    "rr_RestoreKind rr ''PRList'' = ''RList''" "rr_RestoreApiVersion rr ''x.g.io/v1'' = ''g.io/v1''" "TrimSuffix ''PRList'' ''List'' = ''PR''"
    unfolding rr_def by code_simp+
  show k: "jtext_at j [''kind''] = ''PRList''" "jtext_at j [''apiVersion''] = ''x.g.io/v1''"
    "items_at j [''items''] = [rj_abs (sample_item ''a''), rj_abs (sample_item ''b'')]"
    by (simp_all add: j_def sample_resources_def jtext_at_def items_at_def)
  show "resource_ok j" "exclude_typed j"
    by (simp_all add: j_def resource_ok_def exclude_typed_def has_text_def has_text_map_def has_array_def items_at_def sample_resources_def)
  show "list_typed j" unfolding list_typed_def k
    by (simp add: j_def has_array_def exclude_typed_def has_text_def has_text_map_def sample_resources_def sample_item_def)
  show "\<not> excluded rr ''PRList'' v" "\<not> excluded rr ''PR'' v" by (simp_all add: rr_def excluded_def sample_excludes excluded_by_def)
  show "list_all (\<lambda>v. resource_ok v \<and> meta_ok rr Restore v) (items_at j [''items''])"
    unfolding k by (simp add: resource_ok_def meta_ok_def metadata_ok_def map_ok_def no_clash_def members_at_def has_text_def has_text_map_def
      has_text_array_def has_array_def items_at_def sample_item_def)
qed

theorem list_payload_restored_witness:
  "\<exists>i. yields ref_D (RewriteJSONPayload ref_lib insertion_order (rr_Init sample_rules) (Some (print sample_resources)) Restore) i \<and>
    jget i [''apiVersion''] = Some (JStr ''g.io/v1'') \<and> jget i [''kind''] = Some (JStr ''RList'') \<and> length (items_at i [''items'']) = 2"
proof -
  note ok = sample_resources_ok
  from list_payload_restored [OF ref.json_library_axioms sample_rules_ready ref_doc [OF ok(1)] ok(2-4) _ _ _ _ ok(11), of insertion_order]
  show ?thesis unfolding ok(5-7) using ok(8-10,12,13) by (fastforce simp: ok(14-16))
qed

section \<open>Definitions the rules do not know\<close>

text \<open>A definition whose group is neither an original nor a renamed group of the rules.\<close>

definition unknown_crd :: "RewriteRules \<Rightarrow> json \<Rightarrow> bool" where
  "unknown_crd rr j \<longleftrightarrow> exclude_typed j \<and> jtext_at j [''kind''] = ''CustomResourceDefinition'' \<and>
     \<not> excluded rr ''CustomResourceDefinition'' j \<and>
     (case Cut (jtext_at j [''metadata'', ''name'']) (CHR ''.'') of (resource, grp, found) \<Rightarrow>
        found \<and> \<not> rr_HasGroup rr grp \<and> \<not> rr_IsRenamedGroup rr grp)"

lemma unknown_crd_nil:
  assumes "json_library L D V" and "doc D x j" and "unknown_crd rr j"
  shows "RewriteJSONPayload L ord rr x Restore = Inr None"
proof -
  from assms(3) obtain resource grp where u: "exclude_typed j" "jtext_at j [''kind''] = ''CustomResourceDefinition''"
    "\<not> excluded rr ''CustomResourceDefinition'' j" "Cut (jtext_at j [''metadata'', ''name'']) (CHR ''.'') = (resource, grp, True)"
    "\<not> rr_HasGroup rr grp" "\<not> rr_IsRenamedGroup rr grp" by (auto simp: unknown_crd_def split: prod.splits)
  have t: "has_text j [''kind'']" "has_text j (jpath ''metadata.name'')" using u(1) by (simp_all add: exclude_typed_def)
  note k = json_library.kind_of [OF assms(1,2) t(1), unfolded u(2)]
  have s: "\<not> HasSuffix ''CustomResourceDefinition'' ''List''" "isExcludableKind ''CustomResourceDefinition''" by code_simp+
  have f: "FilterExcludes L rr x Restore = Inr x"
    using json_library.ShouldExclude_iff [OF assms(1,2) u(1)] u(3) s k by (simp add: FilterExcludes_def)
  have "RestoreCRD L rr x = Inr None"
    using json_library.String_at [OF assms(1,2) _ t(2)] u(4-6) by (simp add: RestoreCRD_def)
  then have r: "rewrite_by_kind L ord rr ''CustomResourceDefinition'' x Restore = Inr None"
    by (simp add: rewrite_by_kind_def RewriteCRDOrList_def RewriteResourceOrList_def k)
  have e: "V (gjson_GetBytes L None p) = None" for p using json_library.GetBytes_empty [OF assms(1)] by simp
  have "gjson_String L (gjson_GetBytes L None ''kind'') = []" "\<not> gjson_IsObject L (gjson_GetBytes L None ''metadata'')"
    using json_library.String [OF assms(1)] json_library.IsObject [OF assms(1)] e by simp_all
  then show ?thesis
    unfolding RewriteJSONPayload_def Let_def k f res_bind.simps r
    by (simp add: RewriteResourceOrList2_def TransformObject_def HasSuffix_def)
qed

text \<open>
  A definition outside the rules has no restored payload: the rewriter answers with a nil payload
  and no error, and the metadata step keeps it nil, so the caller has nothing to send.
\<close>

theorem unknown_crd_no_payload:
  assumes "json_library L D V" and "doc D x j" and "unknown_crd rr j"
  shows "RewriteJSONPayload L ord rr x Restore = Inr None"
  by (rule unknown_crd_nil [OF assms])

definition other_crd :: rj where
  "other_crd = RObj [(''kind'', RStr ''CustomResourceDefinition''), (''metadata'', RObj [(''name'', RStr ''as.other.io'')])]"

lemma other_crd_unknown: "unknown_crd (rr_Init sample_rules) (rj_abs other_crd)" and other_crd_ok: "rj_ok other_crd"
proof -
  have c: "Cut ''as.other.io'' (CHR ''.'') = (''as'', ''other.io'', True)" "\<not> rr_HasGroup (rr_Init sample_rules) ''other.io''"
    "\<not> rr_IsRenamedGroup (rr_Init sample_rules) ''other.io''" by code_simp+
  show "unknown_crd (rr_Init sample_rules) (rj_abs other_crd)"
    using c by (simp add: unknown_crd_def exclude_typed_def has_text_def has_text_map_def jtext_at_def excluded_def sample_excludes excluded_by_def other_crd_def)
  show "rj_ok other_crd" by code_simp
qed

theorem unknown_crd_no_payload_witness:
  "RewriteJSONPayload ref_lib insertion_order (rr_Init sample_rules) (Some (print other_crd)) Restore = Inr None"
  by (rule unknown_crd_no_payload [OF ref.json_library_axioms ref_doc [OF other_crd_ok] other_crd_unknown])

end
