(* ===== verification/Metrics.thy ===== *)
theory Metrics
  imports Prelude
begin

text \<open>
  What the proxy measures: the values it hands down in the request context
  (\<^verbatim>\<open>pkg/labels/context_values.go\<close>), the metrics of one request (\<^verbatim>\<open>pkg/proxy/metrics.go\<close>) and the two
  providers of them (\<^verbatim>\<open>pkg/proxy/metrics_provider.go\<close>).

  A context is the list of its values, the newest first. A registry maps a series, a metric vector
  with its label values, to the number it holds; of a histogram this is the number of observations,
  since durations are read from a clock. A method of a nil interface, and label values that do not
  match the labels of the vector, and a counter that is to go down, panic: \<open>None\<close>.

  Shown: every metric of the proxy names as many label values as its vector has labels, so counting
  never panics; the action of the response is never recorded; an invalid JSON response is never
  counted; every metric of the provider that is to do nothing panics, except that one.
\<close>

section \<open>Numbers in decimal\<close>

definition digit_char :: "nat \<Rightarrow> char" where
  "digit_char d = char_of (48 + d)"

fun Itoa :: "nat \<Rightarrow> string" where
  "Itoa n = (if n < 10 then [digit_char n] else Itoa (n div 10) @ [digit_char (n mod 10)])"

declare Itoa.simps [simp del]

lemma Itoa_not_Nil [simp]: "Itoa n \<noteq> []"
  by (subst Itoa.simps) simp

section \<open>Values of the context\<close>

datatype context_key = nameKey | resourceKey | methodKey | watchKey | decisionKey | toTargetActionKey | fromTargetActionKey | statusKey

type_synonym ctxt = "(context_key \<times> string) list"

definition WithValue :: "ctxt \<Rightarrow> context_key \<Rightarrow> string \<Rightarrow> ctxt" where
  "WithValue ctx k v = (k, v) # ctx"

definition string_value :: "ctxt \<Rightarrow> context_key \<Rightarrow> string" where
  "string_value ctx k = (case map_of ctx k of Some v \<Rightarrow> v | None \<Rightarrow> [])"

definition ContextWithCommon :: "ctxt \<Rightarrow> string \<Rightarrow> string \<Rightarrow> string \<Rightarrow> string \<Rightarrow> string \<Rightarrow> string \<Rightarrow> ctxt" where
  "ContextWithCommon ctx name resource method watch toTargetAction fromTargetAction =
     (let ctx = WithValue ctx resourceKey resource;
          ctx = WithValue ctx methodKey method;
          ctx = WithValue ctx watchKey watch;
          ctx = WithValue ctx toTargetActionKey toTargetAction;
          ctx = WithValue ctx toTargetActionKey fromTargetAction
      in WithValue ctx nameKey name)"

definition ContextWithDecision :: "ctxt \<Rightarrow> string \<Rightarrow> ctxt" where
  "ContextWithDecision ctx decision = WithValue ctx decisionKey decision"

definition ContextWithStatus :: "ctxt \<Rightarrow> nat \<Rightarrow> ctxt" where
  "ContextWithStatus ctx status = WithValue ctx statusKey (Itoa status)"

definition NameFromContext :: "ctxt \<Rightarrow> string" where
  "NameFromContext ctx = string_value ctx nameKey"

definition ResourceFromContext :: "ctxt \<Rightarrow> string" where
  "ResourceFromContext ctx = string_value ctx resourceKey"

definition MethodFromContext :: "ctxt \<Rightarrow> string" where
  "MethodFromContext ctx = string_value ctx methodKey"

definition WatchFromContext :: "ctxt \<Rightarrow> string" where
  "WatchFromContext ctx = string_value ctx watchKey"

definition ToTargetActionFromContext :: "ctxt \<Rightarrow> string" where
  "ToTargetActionFromContext ctx = string_value ctx toTargetActionKey"

definition FromTargetActionFromContext :: "ctxt \<Rightarrow> string" where
  "FromTargetActionFromContext ctx = string_value ctx fromTargetActionKey"

definition DecisionFromContext :: "ctxt \<Rightarrow> string" where
  "DecisionFromContext ctx = string_value ctx decisionKey"

definition StatusFromContext :: "ctxt \<Rightarrow> string" where
  "StatusFromContext ctx = string_value ctx statusKey"

section \<open>Metric vectors and providers\<close>

datatype metric_vec =
    clientRequestsTotal | targetResponsesTotal | targetResponseInvalidJSONTotal | requestsHandledTotal
  | requestHandlingDurationSeconds | rewritesTotal | rewritesDurationSeconds
  | fromClientBytes | toTargetBytes | fromTargetBytes | toClientBytes

fun vec_labels :: "metric_vec \<Rightarrow> string list" where
  "vec_labels clientRequestsTotal = [''name'', ''resource'', ''method'', ''watch'', ''decision'']"
| "vec_labels targetResponsesTotal = [''name'', ''resource'', ''method'', ''watch'', ''decision'', ''status'', ''error'']"
| "vec_labels targetResponseInvalidJSONTotal = [''name'', ''resource'', ''method'', ''watch'', ''status'']"
| "vec_labels requestsHandledTotal = [''name'', ''resource'', ''method'', ''watch'', ''decision'', ''status'', ''error'']"
| "vec_labels requestHandlingDurationSeconds = [''name'', ''resource'', ''method'', ''watch'', ''decision'', ''status'']"
| "vec_labels rewritesTotal = [''name'', ''resource'', ''method'', ''watch'', ''side'', ''operation'', ''error'']"
| "vec_labels rewritesDurationSeconds = [''name'', ''resource'', ''method'', ''watch'', ''side'', ''operation'']"
| "vec_labels fromClientBytes = [''name'', ''resource'', ''method'', ''watch'', ''decision'']"
| "vec_labels toTargetBytes = [''name'', ''resource'', ''method'', ''watch'', ''decision'']"
| "vec_labels fromTargetBytes = [''name'', ''resource'', ''method'', ''watch'', ''decision'']"
| "vec_labels toClientBytes = [''name'', ''resource'', ''method'', ''watch'', ''decision'']"

text \<open>The eleven vectors \<^verbatim>\<open>RegisterMetrics\<close> registers, in its order.\<close>

definition RegisterMetrics :: "metric_vec list" where
  "RegisterMetrics =
     [clientRequestsTotal, targetResponsesTotal, targetResponseInvalidJSONTotal, requestsHandledTotal, requestHandlingDurationSeconds,
      fromClientBytes, toTargetBytes, fromTargetBytes, toClientBytes, rewritesTotal, rewritesDurationSeconds]"

type_synonym registry = "metric_vec \<times> string list \<Rightarrow> nat option"

datatype metric = WithLabelValues metric_vec "string list" | noopMetric

record MetricsProvider =
  NewClientRequestsTotal :: "string \<Rightarrow> string \<Rightarrow> string \<Rightarrow> string \<Rightarrow> string \<Rightarrow> metric"
  NewTargetResponsesTotal :: "string \<Rightarrow> string \<Rightarrow> string \<Rightarrow> string \<Rightarrow> string \<Rightarrow> string \<Rightarrow> string \<Rightarrow> metric"
  NewTargetResponseInvalidJSONTotal :: "string \<Rightarrow> string \<Rightarrow> string \<Rightarrow> string \<Rightarrow> string \<Rightarrow> metric"
  NewRequestsHandledTotal :: "string \<Rightarrow> string \<Rightarrow> string \<Rightarrow> string \<Rightarrow> string \<Rightarrow> string \<Rightarrow> string \<Rightarrow> metric"
  NewRequestsHandlingSeconds :: "string \<Rightarrow> string \<Rightarrow> string \<Rightarrow> string \<Rightarrow> string \<Rightarrow> string \<Rightarrow> metric"
  NewRewritesTotal :: "string \<Rightarrow> string \<Rightarrow> string \<Rightarrow> string \<Rightarrow> string \<Rightarrow> string \<Rightarrow> string \<Rightarrow> metric"
  NewRewritesDurationSeconds :: "string \<Rightarrow> string \<Rightarrow> string \<Rightarrow> string \<Rightarrow> string \<Rightarrow> string \<Rightarrow> metric"
  NewFromClientBytesTotal :: "string \<Rightarrow> string \<Rightarrow> string \<Rightarrow> string \<Rightarrow> string \<Rightarrow> metric"
  NewToTargetBytesTotal :: "string \<Rightarrow> string \<Rightarrow> string \<Rightarrow> string \<Rightarrow> string \<Rightarrow> metric"
  NewFromTargetBytesTotal :: "string \<Rightarrow> string \<Rightarrow> string \<Rightarrow> string \<Rightarrow> string \<Rightarrow> metric"
  NewToClientBytesTotal :: "string \<Rightarrow> string \<Rightarrow> string \<Rightarrow> string \<Rightarrow> string \<Rightarrow> metric"

definition proxyMetricsProvider :: MetricsProvider where
  "proxyMetricsProvider = \<lparr>
     NewClientRequestsTotal = (\<lambda>name resource method watch decision. WithLabelValues clientRequestsTotal [name, resource, method, watch, decision]),
     NewTargetResponsesTotal = (\<lambda>name resource method watch decision status err. WithLabelValues targetResponsesTotal [name, resource, method, watch, decision, status, err]),
     NewTargetResponseInvalidJSONTotal = (\<lambda>name resource method watch status. WithLabelValues targetResponseInvalidJSONTotal [name, resource, method, watch, status]),
     NewRequestsHandledTotal = (\<lambda>name resource method watch decision status err. WithLabelValues requestsHandledTotal [name, resource, method, watch, decision, status, err]),
     NewRequestsHandlingSeconds = (\<lambda>name resource method watch decision status. WithLabelValues requestHandlingDurationSeconds [name, resource, method, watch, decision, status]),
     NewRewritesTotal = (\<lambda>name resource method watch side operation err. WithLabelValues rewritesTotal [name, resource, method, watch, side, operation, err]),
     NewRewritesDurationSeconds = (\<lambda>name resource method watch side operation. WithLabelValues rewritesDurationSeconds [name, resource, method, watch, side, operation]),
     NewFromClientBytesTotal = (\<lambda>name resource method watch decision. WithLabelValues fromClientBytes [name, resource, method, watch, decision]),
     NewToTargetBytesTotal = (\<lambda>name resource method watch decision. WithLabelValues toTargetBytes [name, resource, method, watch, decision]),
     NewFromTargetBytesTotal = (\<lambda>name resource method watch decision. WithLabelValues fromTargetBytes [name, resource, method, watch, decision]),
     NewToClientBytesTotal = (\<lambda>name resource method watch decision. WithLabelValues toClientBytes [name, resource, method, watch, decision]) \<rparr>"

definition noopMetricsProvider :: MetricsProvider where
  "noopMetricsProvider = \<lparr>
     NewClientRequestsTotal = (\<lambda>name resource method watch decision. noopMetric),
     NewTargetResponsesTotal = (\<lambda>name resource method watch decision status err. noopMetric),
     NewTargetResponseInvalidJSONTotal = (\<lambda>name resource method watch status. noopMetric),
     NewRequestsHandledTotal = (\<lambda>name resource method watch decision status err. noopMetric),
     NewRequestsHandlingSeconds = (\<lambda>name resource method watch decision status. noopMetric),
     NewRewritesTotal = (\<lambda>name resource method watch side operation err. noopMetric),
     NewRewritesDurationSeconds = (\<lambda>name resource method watch side operation. noopMetric),
     NewFromClientBytesTotal = (\<lambda>name resource method watch decision. noopMetric),
     NewToTargetBytesTotal = (\<lambda>name resource method watch decision. noopMetric),
     NewFromTargetBytesTotal = (\<lambda>name resource method watch decision. noopMetric),
     NewToClientBytesTotal = (\<lambda>name resource method watch decision. noopMetric) \<rparr>"

definition NewMetricsProvider :: MetricsProvider where
  "NewMetricsProvider = proxyMetricsProvider"

definition NoopMetricsProvider :: MetricsProvider where
  "NoopMetricsProvider = noopMetricsProvider"

text \<open>What the proxy does with a metric. \<open>Touch\<close>: it only asks the provider for it.\<close>

datatype metric_op = Touch metric | Inc metric | Add metric int | Observe metric

fun add_to :: "metric \<Rightarrow> nat \<Rightarrow> registry \<Rightarrow> registry option" where
  "add_to (WithLabelValues vec vals) n reg =
     (if length vals \<noteq> length (vec_labels vec) then None
      else Some (reg((vec, vals) \<mapsto> (case reg (vec, vals) of None \<Rightarrow> n | Some k \<Rightarrow> k + n))))"
| "add_to noopMetric n reg = None"

fun run_op :: "metric_op \<Rightarrow> registry \<Rightarrow> registry option" where
  "run_op (Touch noopMetric) reg = Some reg"
| "run_op (Touch m) reg = add_to m 0 reg"
| "run_op (Inc m) reg = add_to m 1 reg"
| "run_op (Add m n) reg = (if n < 0 then None else add_to m (nat n) reg)"
| "run_op (Observe m) reg = add_to m 1 reg"

fun run_ops :: "metric_op list \<Rightarrow> registry \<Rightarrow> registry option" where
  "run_ops [] reg = Some reg"
| "run_ops (op # ops) reg = (case run_op op reg of None \<Rightarrow> None | Some reg \<Rightarrow> run_ops ops reg)"

section \<open>The metrics of one request\<close>

record ProxyMetrics =
  pm_provider :: MetricsProvider
  pm_name :: string
  pm_resource :: string
  pm_method :: string
  pm_watch :: string
  pm_decision :: string
  pm_toTargetAction :: string
  pm_fromTargetAction :: string
  pm_status :: string

definition NewProxyMetrics :: "ctxt \<Rightarrow> MetricsProvider \<Rightarrow> ProxyMetrics" where
  "NewProxyMetrics ctx provider =
     \<lparr> pm_provider = provider, pm_name = NameFromContext ctx, pm_resource = ResourceFromContext ctx, pm_method = MethodFromContext ctx,
       pm_watch = WatchFromContext ctx, pm_decision = DecisionFromContext ctx, pm_toTargetAction = ToTargetActionFromContext ctx,
       pm_fromTargetAction = FromTargetActionFromContext ctx, pm_status = StatusFromContext ctx \<rparr>"

definition watchRequest :: string where "watchRequest = ''1''"
definition regularRequest :: string where "regularRequest = ''0''"
definition decisionRewrite :: string where "decisionRewrite = ''rewrite''"
definition decisionPass :: string where "decisionPass = ''pass''"
definition targetSide :: string where "targetSide = ''target''"
definition clientSide :: string where "clientSide = ''client''"
definition errorOccurred :: string where "errorOccurred = ''1''"
definition noError :: string where "noError = ''0''"

definition WatchLabel :: "bool \<Rightarrow> string" where
  "WatchLabel isWatch = (if isWatch then watchRequest else regularRequest)"

definition GotClientRequest :: "ProxyMetrics \<Rightarrow> metric_op" where
  "GotClientRequest p = Inc (NewClientRequestsTotal (pm_provider p) (pm_name p) (pm_resource p) (pm_method p) (pm_watch p) (pm_decision p))"

definition TargetResponseSuccess :: "ProxyMetrics \<Rightarrow> string \<Rightarrow> metric_op" where
  "TargetResponseSuccess p decision = Inc (NewTargetResponsesTotal (pm_provider p) (pm_name p) (pm_resource p) (pm_method p) (pm_watch p) decision (pm_status p) noError)"

definition TargetResponseError :: "ProxyMetrics \<Rightarrow> metric_op" where
  "TargetResponseError p = Inc (NewTargetResponsesTotal (pm_provider p) (pm_name p) (pm_resource p) (pm_method p) (pm_watch p) [] (pm_status p) errorOccurred)"

definition TargetResponseInvalidJSON :: "ProxyMetrics \<Rightarrow> nat \<Rightarrow> metric_op" where
  "TargetResponseInvalidJSON p status = Touch (NewTargetResponseInvalidJSONTotal (pm_provider p) (pm_name p) (pm_resource p) (pm_method p) (pm_watch p) (Itoa status))"

definition RequestHandleSuccess :: "ProxyMetrics \<Rightarrow> metric_op" where
  "RequestHandleSuccess p = Inc (NewRequestsHandledTotal (pm_provider p) (pm_name p) (pm_resource p) (pm_method p) (pm_watch p) (pm_decision p) (pm_status p) noError)"

definition RequestHandleError :: "ProxyMetrics \<Rightarrow> metric_op" where
  "RequestHandleError p = Inc (NewRequestsHandledTotal (pm_provider p) (pm_name p) (pm_resource p) (pm_method p) (pm_watch p) (pm_decision p) (pm_status p) errorOccurred)"

definition RequestDuration :: "ProxyMetrics \<Rightarrow> metric_op" where
  "RequestDuration p = Observe (NewRequestsHandlingSeconds (pm_provider p) (pm_name p) (pm_resource p) (pm_method p) (pm_watch p) (pm_decision p) (pm_status p))"

definition TargetResponseRewriteError :: "ProxyMetrics \<Rightarrow> metric_op" where
  "TargetResponseRewriteError p = Inc (NewRewritesTotal (pm_provider p) (pm_name p) (pm_resource p) (pm_method p) (pm_watch p) targetSide (pm_fromTargetAction p) errorOccurred)"

definition TargetResponseRewriteSuccess :: "ProxyMetrics \<Rightarrow> metric_op" where
  "TargetResponseRewriteSuccess p = Inc (NewRewritesTotal (pm_provider p) (pm_name p) (pm_resource p) (pm_method p) (pm_watch p) targetSide (pm_fromTargetAction p) noError)"

definition ClientRequestRewriteError :: "ProxyMetrics \<Rightarrow> metric_op" where
  "ClientRequestRewriteError p = Inc (NewRewritesTotal (pm_provider p) (pm_name p) (pm_resource p) (pm_method p) (pm_watch p) clientSide (pm_toTargetAction p) errorOccurred)"

definition ClientRequestRewriteSuccess :: "ProxyMetrics \<Rightarrow> metric_op" where
  "ClientRequestRewriteSuccess p = Inc (NewRewritesTotal (pm_provider p) (pm_name p) (pm_resource p) (pm_method p) (pm_watch p) clientSide (pm_toTargetAction p) noError)"

definition ClientRequestRewriteDuration :: "ProxyMetrics \<Rightarrow> metric_op" where
  "ClientRequestRewriteDuration p = Observe (NewRewritesDurationSeconds (pm_provider p) (pm_name p) (pm_resource p) (pm_method p) (pm_watch p) clientSide (pm_toTargetAction p))"

definition TargetResponseRewriteDuration :: "ProxyMetrics \<Rightarrow> metric_op" where
  "TargetResponseRewriteDuration p = Observe (NewRewritesDurationSeconds (pm_provider p) (pm_name p) (pm_resource p) (pm_method p) (pm_watch p) targetSide (pm_fromTargetAction p))"

definition FromClientBytesAdd :: "ProxyMetrics \<Rightarrow> string \<Rightarrow> int \<Rightarrow> metric_op" where
  "FromClientBytesAdd p decision count = Add (NewFromClientBytesTotal (pm_provider p) (pm_name p) (pm_resource p) (pm_method p) (pm_watch p) decision) count"

definition ToTargetBytesAdd :: "ProxyMetrics \<Rightarrow> string \<Rightarrow> int \<Rightarrow> metric_op" where
  "ToTargetBytesAdd p decision count = Add (NewToTargetBytesTotal (pm_provider p) (pm_name p) (pm_resource p) (pm_method p) (pm_watch p) decision) count"

definition FromTargetBytesAdd :: "ProxyMetrics \<Rightarrow> int \<Rightarrow> metric_op" where
  "FromTargetBytesAdd p count = Add (NewFromTargetBytesTotal (pm_provider p) (pm_name p) (pm_resource p) (pm_method p) (pm_watch p) (pm_decision p)) count"

definition ToClientBytesAdd :: "ProxyMetrics \<Rightarrow> int \<Rightarrow> metric_op" where
  "ToClientBytesAdd p count = Add (NewToClientBytesTotal (pm_provider p) (pm_name p) (pm_resource p) (pm_method p) (pm_watch p) (pm_decision p)) count"

lemmas metric_defs = GotClientRequest_def TargetResponseSuccess_def TargetResponseError_def TargetResponseInvalidJSON_def RequestHandleSuccess_def RequestHandleError_def RequestDuration_def TargetResponseRewriteError_def TargetResponseRewriteSuccess_def ClientRequestRewriteError_def ClientRequestRewriteSuccess_def ClientRequestRewriteDuration_def TargetResponseRewriteDuration_def FromClientBytesAdd_def ToTargetBytesAdd_def FromTargetBytesAdd_def ToClientBytesAdd_def

section \<open>Counting\<close>

definition proxy_ops :: "ProxyMetrics \<Rightarrow> metric_op set" where
  "proxy_ops p = {GotClientRequest p, TargetResponseError p, RequestHandleSuccess p, RequestHandleError p, RequestDuration p,
     TargetResponseRewriteError p, TargetResponseRewriteSuccess p, ClientRequestRewriteError p, ClientRequestRewriteSuccess p,
     ClientRequestRewriteDuration p, TargetResponseRewriteDuration p} \<union> range (TargetResponseSuccess p) \<union> range (TargetResponseInvalidJSON p) \<union>
     (\<Union>d. FromClientBytesAdd p d ` {0..}) \<union> (\<Union>d. ToTargetBytesAdd p d ` {0..}) \<union> FromTargetBytesAdd p ` {0..} \<union> ToClientBytesAdd p ` {0..}"

definition owned_op :: "MetricsProvider \<Rightarrow> metric_op \<Rightarrow> bool" where
  "owned_op prov op \<longleftrightarrow> (\<exists>p. pm_provider p = prov \<and> op \<in> proxy_ops p)"

definition series_value :: "registry \<Rightarrow> metric_vec \<times> string list \<Rightarrow> nat" where
  "series_value reg s = (case reg s of None \<Rightarrow> 0 | Some n \<Rightarrow> n)"

lemma series_value_add:
  "add_to m n reg = Some reg' \<Longrightarrow> series_value reg' s = series_value reg s + (if m = WithLabelValues (fst s) (snd s) then n else 0)"
  by (cases m; cases s) (auto simp: series_value_def split: if_splits option.splits)

lemma run_op_mono: "run_op op reg = Some reg' \<Longrightarrow> series_value reg s \<le> series_value reg' s"
proof (cases op)
  case (Touch m)
  then show "run_op op reg = Some reg' \<Longrightarrow> series_value reg s \<le> series_value reg' s"
    by (cases m) (auto simp: series_value_add simp del: add_to.simps)
qed (auto simp: series_value_add split: if_splits)

text \<open>What the proxy relies on: counting never panics, whatever the request.\<close>

locale metrics_provider =
  fixes prov :: MetricsProvider
  assumes op_total: "pm_provider p = prov \<Longrightarrow> op \<in> proxy_ops p \<Longrightarrow> \<exists>reg'. run_op op reg = Some reg'"
begin

lemma run_ops_total: "list_all (owned_op prov) ops \<Longrightarrow> \<exists>reg'. run_ops ops reg = Some reg' \<and> (\<forall>s. series_value reg s \<le> series_value reg' s)"
proof (induction ops arbitrary: reg)
  case (Cons op ops)
  then obtain r where r: "run_op op reg = Some r" using op_total [of _ op reg] by (fastforce simp: owned_op_def)
  from Cons obtain r' where r': "run_ops ops r = Some r'" "\<And>s. series_value r s \<le> series_value r' s" by fastforce
  have "series_value reg s \<le> series_value r' s" for s by (rule order_trans [OF run_op_mono [OF r] r'(2)])
  with r r'(1) show ?case by simp
qed simp

end

interpretation default_metrics: metrics_provider proxyMetricsProvider
  by unfold_locales (auto simp: proxy_ops_def metric_defs proxyMetricsProvider_def)

text \<open>
  The metrics of a request never panic: a run of any metric operations of the proxy that add no
  negative number, with the provider it creates by default, succeeds on every registry, and no
  counter ever goes down.
\<close>

theorem metrics_never_panic:
  assumes "list_all (owned_op NewMetricsProvider) ops"
  shows "\<exists>reg'. run_ops ops reg = Some reg' \<and> (\<forall>s. series_value reg s \<le> series_value reg' s)"
  using default_metrics.run_ops_total [of ops reg] assms by (simp only: NewMetricsProvider_def)

theorem metrics_never_panic_witness:
  "\<exists>reg'. run_ops [GotClientRequest (NewProxyMetrics [] NewMetricsProvider), RequestHandleSuccess (NewProxyMetrics [] NewMetricsProvider)] Map.empty = Some reg' \<and>
    (\<forall>s. series_value Map.empty s \<le> series_value reg' s)"
proof (rule metrics_never_panic)
  let ?p = "NewProxyMetrics [] NewMetricsProvider"
  have "pm_provider ?p = NewMetricsProvider" "{GotClientRequest ?p, RequestHandleSuccess ?p} \<subseteq> proxy_ops ?p"
    by (simp_all add: proxy_ops_def) (simp add: NewProxyMetrics_def)
  then show "list_all (owned_op NewMetricsProvider) [GotClientRequest ?p, RequestHandleSuccess ?p]" unfolding owned_op_def by auto
qed

text \<open>
  Three slips of the metrics. The context keeps the action of the response under the key of the
  action of the request, so the first is always empty and the second wrong. An invalid JSON response
  leaves every counter as it is. The provider that is to do nothing panics at every operation
  except that one.
\<close>

theorem metrics_slips:
  "pm_fromTargetAction (NewProxyMetrics (ContextWithCommon [] n r m w a b) prov) = [] \<and>
   pm_toTargetAction (NewProxyMetrics (ContextWithCommon [] n r m w a b) prov) = b \<and>
   (\<exists>reg'. run_op (TargetResponseInvalidJSON (NewProxyMetrics ctx NewMetricsProvider) st) reg = Some reg' \<and> series_value reg' = series_value reg) \<and>
   (\<forall>op \<in> proxy_ops (NewProxyMetrics ctx NoopMetricsProvider).
      run_op op reg = (if op \<in> range (TargetResponseInvalidJSON (NewProxyMetrics ctx NoopMetricsProvider)) then Some reg else None))"
proof (intro conjI ballI)
  show "pm_fromTargetAction (NewProxyMetrics (ContextWithCommon [] n r m w a b) prov) = []"
    "pm_toTargetAction (NewProxyMetrics (ContextWithCommon [] n r m w a b) prov) = b"
    by (simp_all add: NewProxyMetrics_def ContextWithCommon_def WithValue_def FromTargetActionFromContext_def ToTargetActionFromContext_def string_value_def)
  let ?op = "TargetResponseInvalidJSON (NewProxyMetrics ctx NewMetricsProvider) st"
  show "\<exists>reg'. run_op ?op reg = Some reg' \<and> series_value reg' = series_value reg"
    by (auto simp: metric_defs NewProxyMetrics_def NewMetricsProvider_def proxyMetricsProvider_def series_value_def split: option.split)
next
  fix op
  assume "op \<in> proxy_ops (NewProxyMetrics ctx NoopMetricsProvider)"
  then show "run_op op reg = (if op \<in> range (TargetResponseInvalidJSON (NewProxyMetrics ctx NoopMetricsProvider)) then Some reg else None)"
    by (auto simp: proxy_ops_def metric_defs NewProxyMetrics_def NoopMetricsProvider_def noopMetricsProvider_def)
qed

theorem metrics_slips_witness:
  "run_op (GotClientRequest (NewProxyMetrics [] NoopMetricsProvider)) Map.empty = None \<and>
   pm_toTargetAction (NewProxyMetrics (ContextWithCommon [] ''proxy'' ''pods'' ''GET'' ''0'' ''rename'' ''restore'') NewMetricsProvider) = ''restore''"
proof -
  let ?p = "NewProxyMetrics [] NoopMetricsProvider"
  have "GotClientRequest ?p \<in> proxy_ops ?p" "GotClientRequest ?p \<notin> range (TargetResponseInvalidJSON ?p)"
    by (simp add: proxy_ops_def) (auto simp: metric_defs)
  with metrics_slips [of "''proxy''" "''pods''" "''GET''" "''0''" "''rename''" "''restore''" NewMetricsProvider "[]" 0 Map.empty] show ?thesis by auto
qed

end
