(* ===== verification/Http.thy ===== *)
theory Http
  imports Metrics Endpoint "HOL-Library.AList" "HOL-Library.Word"
begin

text \<open>
  What the proxy uses of Go's \<^verbatim>\<open>net/http\<close> and \<^verbatim>\<open>io\<close>, and its own helpers around them: the counting
  reader (\<^verbatim>\<open>pkg/proxy/bytes_counter.go\<close>) and \<^verbatim>\<open>copyHeader\<close>, \<^verbatim>\<open>encodingAwareReaderWrap\<close> and
  \<^verbatim>\<open>immediateWriter\<close> of \<^verbatim>\<open>pkg/proxy/handler.go\<close>.

  Header names are in canonical form, as \<^verbatim>\<open>net/http\<close> delivers them. A body is the list of chunks its
  reads deliver and the error that ends it, if any. The answer under construction keeps the head
  that was sent with the first byte, so that later changes of the header do not reach the client.
  The decompressors of \<^verbatim>\<open>compress/gzip\<close> and \<^verbatim>\<open>compress/flate\<close> are parameters.

  Shown: the counter holds the number of bytes read as long as it is below \<open>2 ^ 63\<close> and wraps around
  there; copied headers never replace one that is set.
\<close>

section \<open>Texts of errors\<close>

fun error_text :: "error \<Rightarrow> string" where
  "error_text SkipItem = ''remove item from the result''"
| "error_text (Errorf msg) = msg"
| "error_text (Wrapf msg err) = msg @ '': '' @ error_text err"

section \<open>Headers\<close>

type_synonym header = "(string \<times> string list) list"

definition header_Values :: "header \<Rightarrow> string \<Rightarrow> string list" where
  "header_Values h k = (case map_of h k of None \<Rightarrow> [] | Some vs \<Rightarrow> vs)"

definition header_Get :: "header \<Rightarrow> string \<Rightarrow> string" where
  "header_Get h k = (case header_Values h k of [] \<Rightarrow> [] | v # _ \<Rightarrow> v)"

definition header_Set :: "header \<Rightarrow> string \<Rightarrow> string \<Rightarrow> header" where
  "header_Set h k v = AList.update k [v] h"

definition header_Add :: "header \<Rightarrow> string \<Rightarrow> string \<Rightarrow> header" where
  "header_Add h k v = AList.update k (header_Values h k @ [v]) h"

definition header_Del :: "header \<Rightarrow> string \<Rightarrow> header" where
  "header_Del h k = AList.delete k h"

definition copyHeader :: "header \<Rightarrow> header \<Rightarrow> header" where
  "copyHeader dst src =
     foldl (\<lambda>dst (header, values). if length (header_Values dst header) > 0 then dst else foldl (\<lambda>dst value. header_Add dst header value) dst values) dst src"

lemma header_Values_Set: "header_Values (header_Set h k v) k' = (if k' = k then [v] else header_Values h k')"
  by (simp add: header_Values_def header_Set_def update_conv')

lemma header_Values_Add: "header_Values (header_Add h k v) k' = (if k' = k then header_Values h k @ [v] else header_Values h k')"
  by (simp add: header_Values_def header_Add_def update_conv')

lemma header_Values_Del: "header_Values (header_Del h k) k' = (if k' = k then [] else header_Values h k')"
  by (simp add: header_Values_def header_Del_def delete_conv')

lemmas header_Values_simps [simp] = header_Values_Set header_Values_Add header_Values_Del

lemma foldl_header_Add:
  "header_Values (foldl (\<lambda>dst value. header_Add dst k value) dst vs) k' = header_Values dst k' @ (if k' = k then vs else [])"
  by (induction vs arbitrary: dst) auto

lemma header_Values_copy:
  "distinct (map fst src) \<Longrightarrow>
   header_Values (copyHeader dst src) k = (if header_Values dst k \<noteq> [] then header_Values dst k else header_Values src k)"
proof (induction src arbitrary: dst)
  case (Cons x src)
  obtain h vs where x: "x = (h, vs)" by (cases x)
  let ?d = "if length (header_Values dst h) > 0 then dst else foldl (\<lambda>dst value. header_Add dst h value) dst vs"
  have "copyHeader dst (x # src) = copyHeader ?d src" by (simp add: copyHeader_def x)
  moreover have "header_Values ?d k = (if k = h \<and> header_Values dst h = [] then vs else header_Values dst k)"
    by (auto simp: foldl_header_Add)
  moreover have "header_Values src h = []" using Cons.prems x by (simp add: header_Values_def) (metis map_of_eq_None_iff option.simps(4) set_map)
  ultimately show ?case using Cons by (auto simp: x header_Values_def)
qed (simp add: copyHeader_def header_Values_def)

section \<open>The counting reader\<close>

record bytesCounter =
  counter :: "64 word"

definition BytesCounterReaderWrap :: bytesCounter where
  "BytesCounterReaderWrap = \<lparr> counter = 0 \<rparr>"

definition BytesCounterWriterWrap :: bytesCounter where
  "BytesCounterWriterWrap = \<lparr> counter = 0 \<rparr>"

definition bc_Read :: "bytesCounter \<Rightarrow> nat \<times> error option \<Rightarrow> bytesCounter \<times> (nat \<times> error option)" where
  "bc_Read r = (\<lambda>(l, err). (r\<lparr> counter := counter r + word_of_nat l \<rparr>, (l, err)))"

definition bc_Write :: "bytesCounter \<Rightarrow> nat \<times> error option \<Rightarrow> bytesCounter \<times> (nat \<times> error option)" where
  "bc_Write r = (\<lambda>(l, err). (r\<lparr> counter := counter r + word_of_nat l \<rparr>, (l, err)))"

definition bc_Close :: "bytesCounter \<Rightarrow> error option" where
  "bc_Close r = None"

definition bc_Reset :: "bytesCounter \<Rightarrow> bytesCounter" where
  "bc_Reset r = r\<lparr> counter := 0 \<rparr>"

definition bc_Count :: "bytesCounter \<Rightarrow> int" where
  "bc_Count r = sint (counter r)"

text \<open>Any reader: the counter, or something else.\<close>

datatype wrapped = Counting bytesCounter | Other

fun CounterReset :: "wrapped \<Rightarrow> wrapped" where
  "CounterReset (Counting r) = Counting (bc_Reset r)"
| "CounterReset Other = Other"

fun CounterValue :: "wrapped \<Rightarrow> int" where
  "CounterValue (Counting r) = bc_Count r"
| "CounterValue Other = 0"

definition bc_reads :: "nat list \<Rightarrow> bytesCounter \<Rightarrow> bytesCounter" where
  "bc_reads ls r = foldl (\<lambda>r l. fst (bc_Read r (l, None))) r ls"

lemma counter_reads: "counter (bc_reads ls r) = counter r + word_of_nat (sum_list ls)"
  by (induction ls arbitrary: r) (simp_all add: bc_reads_def bc_Read_def)

lemma counter_value: "sum_list ls < 2 ^ 63 \<Longrightarrow> bc_Count (bc_reads ls (bc_Reset r)) = int (sum_list ls)"
  using sint_sbintrunc' [of "int (sum_list ls)", where 'a = 64]
  by (simp add: bc_Count_def counter_reads bc_Reset_def signed_take_bit_eq_take_bit_shift take_bit_eq_mod)

text \<open>
  The byte counter: after any reads it holds their total as a signed 64-bit number, which is the
  total itself below \<open>2 ^ 63\<close> and, from there on, the total wrapped around.
\<close>

theorem counter_total:
  "CounterValue (Counting (bc_reads ls (bc_Reset r))) = (int (sum_list ls) + 2 ^ 63) mod 2 ^ 64 - 2 ^ 63 \<and>
   (sum_list ls < 2 ^ 63 \<longrightarrow> CounterValue (Counting (bc_reads ls (bc_Reset r))) = int (sum_list ls))"
proof -
  have "bc_Count (bc_reads ls (bc_Reset r)) = sint (word_of_nat (sum_list ls) :: 64 word)"
    by (simp add: bc_Count_def counter_reads bc_Reset_def)
  also have "\<dots> = signed_take_bit 63 (int (sum_list ls))"
    using sint_sbintrunc' [of "int (sum_list ls)", where 'a = 64] by simp
  finally show ?thesis by (simp add: signed_take_bit_eq_take_bit_shift take_bit_eq_mod)
qed

theorem counter_total_witness: "CounterValue (Counting (bc_reads [3, 4] (bc_Reset \<lparr> counter = 9 \<rparr>))) = 7"
  using counter_total [of "[3, 4]" "\<lparr> counter = 9 \<rparr>"] by simp

section \<open>Bodies\<close>

datatype body = Body "string list" "error option"

fun ReadAll :: "body \<Rightarrow> string res" where
  "ReadAll (Body cs None) = Inr (concat cs)"
| "ReadAll (Body cs (Some e)) = Inl e"

definition NewReader :: "string \<Rightarrow> body" where
  "NewReader s = Body (if s = [] then [] else [s]) None"

fun body_size :: "body \<Rightarrow> nat" where
  "body_size (Body cs e) = sum_list (map length cs)"

text \<open>A body whose reads have been counted from the start to the end of what was delivered.\<close>

definition count_body :: "body \<Rightarrow> wrapped" where
  "count_body b = (case b of Body cs e \<Rightarrow> Counting (bc_reads (map length cs) BytesCounterReaderWrap))"

lemma ReadAll_NewReader [simp]: "ReadAll (NewReader s) = Inr s"
  by (simp add: NewReader_def)

text \<open>
  A decompressor: what the decoded reader delivers, and what is left unread of the encoded body once
  the decoded one has been read to its end.
\<close>

record codec =
  gzip_NewReader :: "body \<Rightarrow> (body \<times> body) res"
  flate_NewReader :: "body \<Rightarrow> body \<times> body"

definition encodingAwareReaderWrap :: "codec \<Rightarrow> body \<Rightarrow> string \<Rightarrow> (body \<times> body) res" where
  "encodingAwareReaderWrap C bodyReader encoding =
     (if encoding = ''gzip'' then
        (case gzip_NewReader C bodyReader of
          Inl err \<Rightarrow> Inl (Wrapf ''errorf making gzip reader'' err)
        | Inr reader \<Rightarrow> Inr reader)
      else if encoding = ''deflate'' then Inr (flate_NewReader C bodyReader)
      else Inr (bodyReader, Body [] None))"

section \<open>Requests and responses\<close>

record HttpURL = URL +
  url_Scheme :: string
  url_Host :: string

record http_request =
  req_Method :: string
  req_URL :: "HttpURL option"
  req_RequestURI :: string
  req_Header :: header
  req_Body :: "body option"
  req_ContentLength :: int

record http_response =
  resp_StatusCode :: nat
  resp_Header :: header
  resp_Body :: body
  resp_ContentLength :: int

text \<open>The answer under construction. \<open>rw_broken\<close>: the client is gone and writes fail.\<close>

record ResponseWriter =
  rw_header :: header
  rw_head :: "(nat \<times> header) option"
  rw_body :: string
  rw_flushed :: nat
  rw_broken :: bool

definition WriteHeader :: "ResponseWriter \<Rightarrow> nat \<Rightarrow> ResponseWriter" where
  "WriteHeader w code = (if rw_head w = None then w\<lparr> rw_head := Some (code, rw_header w) \<rparr> else w)"

definition write_failed :: error where
  "write_failed = Errorf ''write: connection reset''"

definition rw_Write :: "ResponseWriter \<Rightarrow> string \<Rightarrow> ResponseWriter \<times> (nat \<times> error option)" where
  "rw_Write w p =
     (let w = WriteHeader w 200 in
      if rw_broken w then (w, (0, Some write_failed)) else (w\<lparr> rw_body := rw_body w @ p \<rparr>, (length p, None)))"

definition rw_Flush :: "ResponseWriter \<Rightarrow> ResponseWriter" where
  "rw_Flush w = (let w = WriteHeader w 200 in w\<lparr> rw_flushed := length (rw_body w) \<rparr>)"

definition http_Error :: "ResponseWriter \<Rightarrow> string \<Rightarrow> nat \<Rightarrow> ResponseWriter" where
  "http_Error w msg code =
     (let h = header_Del (rw_header w) ''Content-Length'';
          h = header_Set h ''Content-Type'' ''text/plain; charset=utf-8'';
          h = header_Set h ''X-Content-Type-Options'' ''nosniff''
      in fst (rw_Write (WriteHeader (w\<lparr> rw_header := h \<rparr>) code) (msg @ [CHR 0x0A])))"

definition immediateWriter_Write :: "ResponseWriter \<Rightarrow> string \<Rightarrow> ResponseWriter \<times> (nat \<times> error option)" where
  "immediateWriter_Write w p = (case rw_Write w p of (w, n) \<Rightarrow> (rw_Flush w, n))"

text \<open>\<^verbatim>\<open>io.Copy\<close> from a counted body: the error, if any, and the lengths of the reads.\<close>

fun copy_loop :: "ResponseWriter \<Rightarrow> string list \<Rightarrow> error option \<Rightarrow> nat list \<Rightarrow> ResponseWriter \<times> error option \<times> nat list" where
  "copy_loop w [] e ls = (w, e, ls)"
| "copy_loop w (c # cs) e ls =
     (if c = [] then copy_loop w cs e (ls @ [0])
      else (case immediateWriter_Write w c of
        (w, (n, Some err)) \<Rightarrow> (w, Some err, ls @ [length c])
      | (w, (n, None)) \<Rightarrow> copy_loop w cs e (ls @ [length c])))"

definition Copy :: "ResponseWriter \<Rightarrow> body \<Rightarrow> ResponseWriter \<times> error option \<times> wrapped" where
  "Copy w b = (case b of Body cs e \<Rightarrow> (case copy_loop w cs e [] of (w, err, ls) \<Rightarrow> (w, err, Counting (bc_reads ls BytesCounterReaderWrap))))"

definition fresh_writer :: "header \<Rightarrow> ResponseWriter" where
  "fresh_writer h = \<lparr> rw_header = h, rw_head = None, rw_body = [], rw_flushed = 0, rw_broken = False \<rparr>"

lemma count_body_value: "body_size b < 2 ^ 63 \<Longrightarrow> CounterValue (count_body b) = int (body_size b)"
proof -
  assume "body_size b < 2 ^ 63"
  moreover have "BytesCounterReaderWrap = bc_Reset BytesCounterReaderWrap" by (simp add: BytesCounterReaderWrap_def bc_Reset_def)
  ultimately show ?thesis
    using counter_value [of _ BytesCounterReaderWrap] by (cases b) (simp add: count_body_def)
qed

lemma WriteHeader_sent: "rw_head w = Some h \<Longrightarrow> WriteHeader w c = w"
  by (simp add: WriteHeader_def)

lemma copy_loop_Nil: "concat cs = [] \<Longrightarrow> copy_loop w cs e ls = (w, e, ls @ map length cs)"
  by (induction cs arbitrary: ls) simp_all

lemma copy_loop_ok:
  assumes "\<not> rw_broken w" and "rw_head w = Some h"
  shows "\<exists>w'. copy_loop w cs e ls = (w', e, ls @ map length cs) \<and> rw_head w' = Some h \<and> rw_body w' = rw_body w @ concat cs \<and>
    rw_header w' = rw_header w \<and> \<not> rw_broken w' \<and> (concat cs \<noteq> [] \<longrightarrow> rw_flushed w' = length (rw_body w'))"
  using assms
proof (induction cs arbitrary: w ls)
  case (Cons c cs)
  show ?case
  proof (cases "c = []")
    case True
    then show ?thesis using Cons.IH [OF Cons.prems, of "ls @ [0]"] by simp
  next
    case False
    let ?w = "w\<lparr> rw_body := rw_body w @ c, rw_flushed := length (rw_body w @ c) \<rparr>"
    have i: "immediateWriter_Write w c = (?w, (length c, None))"
      using Cons.prems by (simp add: immediateWriter_Write_def rw_Write_def rw_Flush_def WriteHeader_sent)
    obtain w' where w': "copy_loop ?w cs e (ls @ [length c]) = (w', e, ls @ length c # map length cs)" "rw_head w' = Some h"
      "rw_body w' = rw_body w @ c @ concat cs" "rw_header w' = rw_header w" "\<not> rw_broken w'"
      "concat cs \<noteq> [] \<longrightarrow> rw_flushed w' = length (rw_body w')"
      using Cons.IH [of ?w "ls @ [length c]"] Cons.prems by auto
    have "rw_flushed w' = length (rw_body w')" if "concat cs = []"
      using w'(1,3) that copy_loop_Nil [OF that, of ?w e "ls @ [length c]"] by simp
    with w' False i show ?thesis by (intro exI [of _ w']) auto
  qed
qed simp

end
