(* ===== verification/Watch_Stream.thy ===== *)
theory Watch_Stream
  imports Rule_Rewriter Http
begin

text \<open>
  Watch streams, \<^verbatim>\<open>pkg/proxy/stream_handler.go\<close>: the events of the server are decoded one by one,
  their objects restored, and the events written to the client.

  The decoder of the Kubernetes libraries is a parameter. What the loop meets is a list of rounds: what
  one call of \<^verbatim>\<open>Decode\<close> returned, the reads from the target it took, and whether the context was
  cancelled by then. When the list is used up without an end of the stream, the loop waits for the
  next event: status \<open>Waiting\<close>. The client is a sink, the response of the proxy or the pipe of the
  round tripper. Log output is left out.

  Shown: the client gets, in order, exactly the events the rewriter does not skip, each restored or, if
  it cannot be restored, as the server sent it; the loop ends with the first cancelled or failed
  round and with no other; a custom resource arrives as the client knows it; a definition outside
  the rules arrives as an event without an object.
\<close>

section \<open>Model\<close>

record WatchEvent =
  ev_Type :: string
  ev_Raw :: bytes

datatype decoded =
    Decoded WatchEvent
  | Undecoded
  | DecodeError error

record round =
  rd_decoded :: decoded
  rd_reads :: "nat list"
  rd_cancelled :: bool

datatype status = Waiting | Stopped

record 'w sink =
  sink_Write :: "'w \<Rightarrow> string \<Rightarrow> 'w \<times> (nat \<times> error option)"
  sink_Flush :: "'w \<Rightarrow> 'w"

definition response_sink :: "ResponseWriter sink" where
  "response_sink = \<lparr> sink_Write = rw_Write, sink_Flush = rw_Flush \<rparr>"

text \<open>
  The libraries around the stream: media types, serializers, the decoder, and the JSON encoding of an
  event.
\<close>

record 'i watchlib =
  ParseMediaType :: "string \<Rightarrow> string res"
  SerializerInfoForMediaType :: "string \<Rightarrow> 'i option"
  SupportedMediaTypes :: "'i list"
  StreamSerializer :: "'i \<Rightarrow> bool"
  NewDecoder :: "'i \<Rightarrow> body \<Rightarrow> round list"
  MarshalEvent :: "string \<Rightarrow> bytes \<Rightarrow> string res"

definition createWatchDecoder :: "'i watchlib \<Rightarrow> body \<Rightarrow> string \<Rightarrow> round list res" where
  "createWatchDecoder W r contentType =
     (case ParseMediaType W contentType of
       Inl err \<Rightarrow> Inl (Wrapf (''unexpected media type from the server: '' @ contentType) err)
     | Inr mediaType \<Rightarrow>
         res_bind (case SerializerInfoForMediaType W mediaType of
             Some info \<Rightarrow> Inr info
           | None \<Rightarrow>
               if length contentType \<noteq> 0 \<or> length (SupportedMediaTypes W) = 0
               then Inl (Errorf (''no matching serializer for media type '' @ contentType))
               else Inr (hd (SupportedMediaTypes W))) (\<lambda>info.
         if \<not> StreamSerializer W info then Inl (Errorf (''no serializer for content type '' @ contentType))
         else Inr (NewDecoder W info r)))"

definition watch_types :: "string list" where
  "watch_types = [''ADDED'', ''MODIFIED'', ''DELETED'', ''ERROR'', ''BOOKMARK'']"

definition transformWatchEvent ::
    "'r jsonlib \<Rightarrow> range_order \<Rightarrow> RewriteRules \<Rightarrow> ProxyMetrics \<Rightarrow> WatchEvent \<Rightarrow> WatchEvent res \<times> metric_op list" where
  "transformWatchEvent L ord rules metrics ev =
     (if ev_Type ev \<notin> set watch_types then (Inl (Errorf (''got unknown type in WatchEvent: '' @ ev_Type ev)), [])
      else (let grp = gjson_String L (gjson_GetBytes L (ev_Raw ev) ''apiVersion'');
                kind = gjson_String L (gjson_GetBytes L (ev_Raw ev) ''kind'')
            in if grp = [] \<and> kind = [] then (Inl (Errorf ''object has no apiVersion and kind''), [])
               else (case (if ev_Type ev = ''BOOKMARK'' then RestoreBookmark L rules (ev_Raw ev)
                           else RewriteJSONPayload L ord rules (ev_Raw ev) Restore) of
                 Inl err \<Rightarrow>
                   if errors_Is_SkipItem err
                   then (Inl err, [TargetResponseRewriteSuccess metrics, TargetResponseRewriteDuration metrics])
                   else (Inl (Wrapf (''rewrite object in WatchEvent '' @ ev_Type ev) err),
                         [TargetResponseRewriteError metrics, TargetResponseRewriteDuration metrics])
               | Inr rwrObjBytes \<Rightarrow>
                   (Inr \<lparr> ev_Type = ev_Type ev, ev_Raw = rwrObjBytes \<rparr>,
                    [TargetResponseRewriteSuccess metrics, TargetResponseRewriteDuration metrics]))))"

definition writeEvent :: "'i watchlib \<Rightarrow> 'w sink \<Rightarrow> ProxyMetrics \<Rightarrow> WatchEvent \<Rightarrow> 'w \<Rightarrow> 'w \<times> metric_op list" where
  "writeEvent W K metrics ev dst =
     (case MarshalEvent W (ev_Type ev) (ev_Raw ev) of
       Inl _ \<Rightarrow> (dst, [])
     | Inr rwrEventBytes \<Rightarrow>
         (case sink_Write K dst rwrEventBytes of
           (dst, (copied, Some _)) \<Rightarrow> (sink_Flush K dst, [RequestHandleError metrics])
         | (dst, (copied, None)) \<Rightarrow> (sink_Flush K dst, [RequestHandleSuccess metrics, ToClientBytesAdd metrics (int copied)])))"

definition handle_round ::
    "'r jsonlib \<Rightarrow> range_order \<Rightarrow> RewriteRules \<Rightarrow> 'i watchlib \<Rightarrow> 'w sink \<Rightarrow> ProxyMetrics \<Rightarrow> WatchEvent option \<Rightarrow> 'w \<Rightarrow> 'w \<times> metric_op list" where
  "handle_round L ord rules W K metrics got dst =
     (case got of
       None \<Rightarrow> (dst, [TargetResponseInvalidJSON metrics 200, RequestHandleError metrics])
     | Some got \<Rightarrow>
         (case transformWatchEvent L ord rules metrics got of
           (Inl transformErr, ops) \<Rightarrow>
             if errors_Is_SkipItem transformErr then (dst, ops @ [RequestHandleSuccess metrics])
             else (case writeEvent W K metrics got dst of (dst, ops') \<Rightarrow> (dst, ops @ ops'))
         | (Inr rwrEvent, ops) \<Rightarrow> (case writeEvent W K metrics rwrEvent dst of (dst, ops') \<Rightarrow> (dst, ops @ ops'))))"

text \<open>
  The loop of \<^verbatim>\<open>start\<close>. \<open>sr_done\<close> is the channel that \<^verbatim>\<open>Stop\<close> closes when the loop returns; the check
  at the end of a round reads it.
\<close>

record streamRewriter =
  sr_counter :: wrapped
  sr_done :: bool

definition Stop :: "streamRewriter \<Rightarrow> streamRewriter" where
  "Stop s = s\<lparr> sr_done := True \<rparr>"

fun count_reads :: "nat list \<Rightarrow> wrapped \<Rightarrow> wrapped" where
  "count_reads ls (Counting r) = Counting (bc_reads ls r)"
| "count_reads ls Other = Other"

fun start :: "'r jsonlib \<Rightarrow> range_order \<Rightarrow> RewriteRules \<Rightarrow> 'i watchlib \<Rightarrow> 'w sink \<Rightarrow> ProxyMetrics \<Rightarrow> streamRewriter \<Rightarrow> round list \<Rightarrow> 'w \<Rightarrow>
    status \<times> streamRewriter \<times> 'w \<times> metric_op list" where
  "start L ord rules W K metrics s [] dst = (Waiting, s, dst, [])"
| "start L ord rules W K metrics s (r # rs) dst =
     (let s = s\<lparr> sr_counter := count_reads (rd_reads r) (sr_counter s) \<rparr>;
          got_bytes = [FromTargetBytesAdd metrics (CounterValue (sr_counter s))];
          s = s\<lparr> sr_counter := CounterReset (sr_counter s) \<rparr>;
          next_round = (\<lambda>got.
            (case handle_round L ord rules W K metrics got dst of
              (dst, ops) \<Rightarrow>
                if sr_done s then (Stopped, Stop s, dst, got_bytes @ ops @ [RequestDuration metrics])
                else (case start L ord rules W K metrics s rs dst of
                  (st, s, dst, ops') \<Rightarrow> (st, s, dst, got_bytes @ ops @ [RequestDuration metrics] @ ops'))))
      in if rd_cancelled r then (Stopped, Stop s, dst, got_bytes)
         else (case rd_decoded r of
           DecodeError _ \<Rightarrow> (Stopped, Stop s, dst, got_bytes)
         | Undecoded \<Rightarrow> next_round None
         | Decoded got \<Rightarrow> next_round (Some got)))"

definition init_stream :: "'i watchlib \<Rightarrow> http_response \<Rightarrow> (streamRewriter \<times> round list) res" where
  "init_stream W resp =
     res_bind (createWatchDecoder W (resp_Body resp) (header_Get (resp_Header resp) ''Content-Type'')) (\<lambda>decoder.
       Inr (\<lparr> sr_counter = Counting BytesCounterReaderWrap, sr_done = False \<rparr>, decoder))"

definition copyHeaders :: "ResponseWriter \<Rightarrow> http_response \<Rightarrow> ResponseWriter" where
  "copyHeaders w resp = WriteHeader (w\<lparr> rw_header := copyHeader (rw_header w) (resp_Header resp) \<rparr>) (resp_StatusCode resp)"

text \<open>\<^verbatim>\<open>Handle\<close> returns once the loop has stopped; \<open>Waiting\<close>: it is still blocked on the stream.\<close>

definition Handle :: "'r jsonlib \<Rightarrow> range_order \<Rightarrow> RewriteRules \<Rightarrow> 'i watchlib \<Rightarrow> MetricsProvider \<Rightarrow> ctxt \<Rightarrow> ResponseWriter \<Rightarrow> http_response \<Rightarrow>
    (status \<times> ResponseWriter \<times> metric_op list) res" where
  "Handle L ord rules W prov ctx w resp =
     res_bind (init_stream W resp) (\<lambda>(s, decoder).
       (case start L ord rules W response_sink (NewProxyMetrics ctx prov) s decoder (copyHeaders w resp) of
         (st, s, w, ops) \<Rightarrow> Inr (st, w, ops)))"

definition Rewrite :: "'r jsonlib \<Rightarrow> range_order \<Rightarrow> RewriteRules \<Rightarrow> 'i watchlib \<Rightarrow> MetricsProvider \<Rightarrow> ctxt \<Rightarrow> 'w sink \<Rightarrow> 'w \<Rightarrow> http_response \<Rightarrow>
    (status \<times> 'w \<times> metric_op list) res" where
  "Rewrite L ord rules W prov ctx K dst resp =
     res_bind (init_stream W resp) (\<lambda>(s, decoder).
       (case start L ord rules W K (NewProxyMetrics ctx prov) s decoder dst of (st, s, dst, ops) \<Rightarrow> Inr (st, dst, ops)))"

section \<open>What the client receives\<close>

text \<open>The event to send for an event of the server, or \<open>None\<close> if the rewriter skips it.\<close>

definition watch_result :: "'r jsonlib \<Rightarrow> range_order \<Rightarrow> RewriteRules \<Rightarrow> ProxyMetrics \<Rightarrow> WatchEvent \<Rightarrow> WatchEvent option" where
  "watch_result L ord rr p ev =
     (case fst (transformWatchEvent L ord rr p ev) of
       Inl e \<Rightarrow> if errors_Is_SkipItem e then None else Some ev
     | Inr ev' \<Rightarrow> Some ev')"

definition sent :: "'i watchlib \<Rightarrow> WatchEvent \<Rightarrow> string" where
  "sent W ev = (case MarshalEvent W (ev_Type ev) (ev_Raw ev) of Inl _ \<Rightarrow> [] | Inr t \<Rightarrow> t)"

definition ends :: "round \<Rightarrow> bool" where
  "ends r \<longleftrightarrow> rd_cancelled r \<or> (case rd_decoded r of DecodeError _ \<Rightarrow> True | _ \<Rightarrow> False)"

definition round_event :: "round \<Rightarrow> WatchEvent option" where
  "round_event r = (case rd_decoded r of Decoded ev \<Rightarrow> Some ev | _ \<Rightarrow> None)"

definition stream_events :: "round list \<Rightarrow> WatchEvent list" where
  "stream_events rs = List.map_filter round_event (takeWhile (\<lambda>r. \<not> ends r) rs)"

text \<open>A destination: while it is usable, writes append and flushes keep what was written.\<close>

locale event_sink =
  fixes K :: "'w sink" and content :: "'w \<Rightarrow> string" and usable :: "'w \<Rightarrow> bool"
  assumes write_ok: "usable w \<Longrightarrow> \<exists>w'. sink_Write K w t = (w', (length t, None)) \<and> usable w' \<and> content w' = content w @ t"
    and flush_ok: "usable w \<Longrightarrow> usable (sink_Flush K w) \<and> content (sink_Flush K w) = content w"
begin

lemma writeEvent_ok:
  assumes "usable w"
  shows "\<exists>w' ops. writeEvent W K p ev w = (w', ops) \<and> usable w' \<and> content w' = content w @ sent W ev"
proof (cases "MarshalEvent W (ev_Type ev) (ev_Raw ev)")
  case (Inl e)
  with assms show ?thesis by (simp add: writeEvent_def sent_def)
next
  case (Inr t)
  from write_ok [OF assms, of t] obtain w' where w': "sink_Write K w t = (w', (length t, None))" "usable w'" "content w' = content w @ t"
    by blast
  with flush_ok [OF w'(2)] Inr show ?thesis by (simp add: writeEvent_def sent_def)
qed

lemma handle_round_ok:
  assumes "usable w"
  shows "\<exists>w' ops. handle_round L ord rr W K p got w = (w', ops) \<and> usable w' \<and>
    content w' = content w @ (case got of None \<Rightarrow> [] | Some ev \<Rightarrow> (case watch_result L ord rr p ev of None \<Rightarrow> [] | Some ev' \<Rightarrow> sent W ev'))"
proof (cases got)
  case None
  with assms show ?thesis by (simp add: handle_round_def)
next
  case (Some ev)
  show ?thesis
  proof (cases "watch_result L ord rr p ev")
    case None
    with assms Some show ?thesis
      by (auto simp: watch_result_def handle_round_def split: sum.splits if_splits prod.split)
  next
    fix ev'
    assume r: "watch_result L ord rr p ev = Some ev'"
    then have "handle_round L ord rr W K p got w =
        (case writeEvent W K p ev' w of (dst, ops') \<Rightarrow> (dst, snd (transformWatchEvent L ord rr p ev) @ ops'))"
      using Some by (auto simp: watch_result_def handle_round_def split: sum.splits if_splits prod.splits)
    with writeEvent_ok [OF assms, of W p ev'] Some r show ?thesis by auto
  qed
qed

lemma start_ok:
  assumes "usable w" and "\<not> sr_done s"
  shows "\<exists>s' w' ops. start L ord rr W K p s rs w = (if list_ex ends rs then Stopped else Waiting, s', w', ops) \<and>
    sr_done s' = list_ex ends rs \<and> usable w' \<and>
    content w' = content w @ concat (map (sent W) (List.map_filter (watch_result L ord rr p) (stream_events rs)))"
  using assms
proof (induction rs arbitrary: s w)
  case Nil
  then show ?case by (simp add: stream_events_def map_filter_simps)
next
  case (Cons r rs)
  let ?s = "s\<lparr> sr_counter := CounterReset (count_reads (rd_reads r) (sr_counter s)) \<rparr>"
  show ?case
  proof (cases "ends r")
    case True
    with Cons.prems show ?thesis
      by (auto simp: ends_def Stop_def stream_events_def map_filter_simps Let_def split: decoded.splits)
  next
    case False
    obtain w1 ops1 where w1: "handle_round L ord rr W K p (round_event r) w = (w1, ops1)" "usable w1"
      "content w1 = content w @ (case round_event r of None \<Rightarrow> [] | Some ev \<Rightarrow> (case watch_result L ord rr p ev of None \<Rightarrow> [] | Some ev' \<Rightarrow> sent W ev'))"
      using handle_round_ok [OF Cons.prems(1)] by blast
    have "\<not> sr_done ?s" using Cons.prems(2) by simp
    from Cons.IH [OF w1(2) this] obtain s' w' ops where n:
      "start L ord rr W K p ?s rs w1 = (if list_ex ends rs then Stopped else Waiting, s', w', ops)" "sr_done s' = list_ex ends rs" "usable w'"
      "content w' = content w1 @ concat (map (sent W) (List.map_filter (watch_result L ord rr p) (stream_events rs)))" by blast
    have e: "\<exists>ops'. start L ord rr W K p s (r # rs) w = (if list_ex ends rs then Stopped else Waiting, s', w', ops')"
      using False w1(1) n(1) Cons.prems(2)
      by (auto simp: ends_def round_event_def Let_def split: decoded.splits)
    have "concat (map (sent W) (List.map_filter (watch_result L ord rr p) (stream_events (r # rs)))) =
        (case round_event r of None \<Rightarrow> [] | Some ev \<Rightarrow> (case watch_result L ord rr p ev of None \<Rightarrow> [] | Some ev' \<Rightarrow> sent W ev')) @
        concat (map (sent W) (List.map_filter (watch_result L ord rr p) (stream_events rs)))"
      using False by (simp add: stream_events_def map_filter_simps split: option.split)
    with e n False w1(3) show ?thesis by (auto simp del: start.simps)
  qed
qed

end

definition head_sent :: "nat \<times> header \<Rightarrow> ResponseWriter \<Rightarrow> bool" where
  "head_sent h w \<longleftrightarrow> \<not> rw_broken w \<and> rw_head w = Some h"

interpretation response: event_sink response_sink rw_body "head_sent h" for h
  by unfold_locales (auto simp: response_sink_def head_sent_def rw_Write_def rw_Flush_def WriteHeader_def)


section \<open>Events on JSON values\<close>

definition event_value :: "string \<Rightarrow> json \<Rightarrow> json" where
  "event_value ty j = JObj [''type'' \<mapsto> JStr ty, ''object'' \<mapsto> j]"

text \<open>The JSON encoding of an event: its type and its object, or null when there is no object.\<close>

locale event_codec =
  fixes W :: "'i watchlib" and D :: "string \<Rightarrow> json option"
  assumes marshal: "ty \<in> set watch_types \<Longrightarrow> D b = Some j \<Longrightarrow> \<exists>t. MarshalEvent W ty (Some b) = Inr t \<and> D t = Some (event_value ty j)"
    and marshal_nil: "ty \<in> set watch_types \<Longrightarrow> \<exists>t. MarshalEvent W ty None = Inr t \<and> D t = Some (event_value ty JNull)"
begin

lemma sent_object: "ev_Type ev \<in> set watch_types \<Longrightarrow> doc D (ev_Raw ev) j \<Longrightarrow> D (sent W ev) = Some (event_value (ev_Type ev) j)"
  using marshal [of "ev_Type ev" _ j] by (fastforce simp: doc_def sent_def)

lemma sent_nil: "ev_Type ev \<in> set watch_types \<Longrightarrow> ev_Raw ev = None \<Longrightarrow> D (sent W ev) = Some (event_value (ev_Type ev) JNull)"
  using marshal_nil [of "ev_Type ev"] by (auto simp: sent_def)

end

definition change_types :: "string list" where
  "change_types = [''ADDED'', ''MODIFIED'', ''DELETED'']"

lemma change_types: "ty \<in> set change_types \<Longrightarrow> ty \<in> set watch_types \<and> ty \<noteq> ''BOOKMARK''"
  by (auto simp: change_types_def watch_types_def)

context json_library
begin

lemma transform_change:
  assumes "doc D (ev_Raw ev) j" and "has_text j [''kind'']" and "jtext_at j [''kind''] \<noteq> []" and "ev_Type ev \<in> set change_types"
  shows "fst (transformWatchEvent L ord rr p ev) =
    (case RewriteJSONPayload L ord rr (ev_Raw ev) Restore of
      Inl e \<Rightarrow> Inl (if errors_Is_SkipItem e then e else Wrapf (''rewrite object in WatchEvent '' @ ev_Type ev) e)
    | Inr y \<Rightarrow> Inr \<lparr> ev_Type = ev_Type ev, ev_Raw = y \<rparr>)"
  using kind_of [OF assms(1,2)] assms(3) change_types [OF assms(4)]
  by (simp add: transformWatchEvent_def Let_def split: sum.split)

end

text \<open>
  A change of a custom resource in a watch arrives as the client knows it: the object of the
  event is the JSON value the client had sent to be renamed.
\<close>

theorem watch_event_restored:
  assumes "json_library L D V" and "event_codec W D" and "rules_ready rr" and "replaces_wf rr" and "transparent rr j"
    and "doc D (ev_Raw ev) (j_payload rr Rename j)" and "jtext_at j [''kind''] \<noteq> []" and "ev_Type ev \<in> set change_types"
  shows "\<exists>ev'. watch_result L ord rr p ev = Some ev' \<and> D (sent W ev') = Some (event_value (ev_Type ev) j)"
proof -
  have "is_object j" using assms(5) by (auto simp: transparent_def client_payload_def intro: resource_ok_object client_resource_ok)
  then have k: "has_text (j_payload rr Rename j) [''kind'']" "jtext_at (j_payload rr Rename j) [''kind''] \<noteq> []"
    using assms(7) jtext_kind_payload(1,2) by (simp_all add: rr_RenameKind_def)
  obtain y where y: "RewriteJSONPayload L ord rr (ev_Raw ev) Restore = Inr y" "doc D y j"
    using json_library.payload_restored [OF assms(1,3,4,6,5), of ord] by (auto simp: yields_def)
  then have "watch_result L ord rr p ev = Some \<lparr> ev_Type = ev_Type ev, ev_Raw = y \<rparr>"
    using json_library.transform_change [OF assms(1,6) k assms(8), of ord rr p] by (simp add: watch_result_def)
  moreover have "D (sent W \<lparr> ev_Type = ev_Type ev, ev_Raw = y \<rparr>) = Some (event_value (ev_Type ev) j)"
    using event_codec.sent_object [OF assms(2), of "\<lparr> ev_Type = ev_Type ev, ev_Raw = y \<rparr>" j] y(2) change_types [OF assms(8)] by simp
  ultimately show ?thesis by blast
qed

text \<open>
  A change of a definition outside the rules arrives as an event without an object: the nil
  payload of the rewriter is encoded as null.
\<close>

theorem watch_unknown_crd_null:
  assumes "json_library L D V" and "event_codec W D" and "doc D (ev_Raw ev) j" and "unknown_crd rr j" and "ev_Type ev \<in> set change_types"
  shows "\<exists>ev'. watch_result L ord rr p ev = Some ev' \<and> D (sent W ev') = Some (event_value (ev_Type ev) JNull)"
proof -
  have k: "has_text j [''kind'']" "jtext_at j [''kind''] \<noteq> []" using assms(4) by (simp_all add: unknown_crd_def exclude_typed_def)
  have "watch_result L ord rr p ev = Some \<lparr> ev_Type = ev_Type ev, ev_Raw = None \<rparr>"
    using json_library.transform_change [OF assms(1,3) k assms(5), of ord rr p] unknown_crd_nil [OF assms(1,3,4), of ord]
    by (simp add: watch_result_def)
  then show ?thesis
    using event_codec.sent_nil [OF assms(2), of "\<lparr> ev_Type = ev_Type ev, ev_Raw = None \<rparr>"] change_types [OF assms(5)] by simp
qed

section \<open>A concrete stream\<close>

text \<open>The reference library with a decoder that takes every chunk as the object of an added resource.\<close>

definition ref_watch :: "unit watchlib" where
  "ref_watch = \<lparr> ParseMediaType = Inr, SerializerInfoForMediaType = (\<lambda>m. if m = ''application/json'' then Some () else None),
     SupportedMediaTypes = [()], StreamSerializer = (\<lambda>_. True),
     NewDecoder = (\<lambda>_ b. case b of Body cs e \<Rightarrow>
       map (\<lambda>c. \<lparr> rd_decoded = Decoded \<lparr> ev_Type = ''ADDED'', ev_Raw = Some c \<rparr>, rd_reads = [length c], rd_cancelled = False \<rparr>) cs @
       [\<lparr> rd_decoded = DecodeError (Errorf ''EOF''), rd_reads = [], rd_cancelled = False \<rparr>]),
     MarshalEvent = (\<lambda>ty raw. case raw of
         None \<Rightarrow> Inr (print (RObj [(''type'', RStr ty), (''object'', RNull)]))
       | Some b \<Rightarrow> (case parse b of None \<Rightarrow> Inl (Errorf ''json'') | Some v \<Rightarrow> Inr (print (RObj [(''type'', RStr ty), (''object'', v)])))) \<rparr>"

lemma watch_types_text: "ty \<in> set watch_types \<Longrightarrow> utf8 ty"
proof -
  have "list_all utf8 watch_types" by code_simp
  then show "ty \<in> set watch_types \<Longrightarrow> utf8 ty" by (simp add: list_all_iff)
qed

interpretation ref_events: event_codec ref_watch ref_D
proof
  fix ty b j
  assume t: "ty \<in> set watch_types"
  show "\<exists>t. MarshalEvent ref_watch ty None = Inr t \<and> ref_D t = Some (event_value ty JNull)"
    using watch_types_text [OF t] ref_doc [of "RObj [(''type'', RStr ty), (''object'', RNull)]"]
    by (simp add: ref_watch_def event_value_def utf8.simps ascii_byte_def fun_upd_twist del: print.simps)
  assume "ref_D b = Some j"
  then obtain v where v: "parse b = Some v" "j = rj_abs v" by (auto simp: ref_D_def)
  then have "rj_ok v" by (auto simp: parse_def split: option.splits if_splits)
  then show "\<exists>t. MarshalEvent ref_watch ty (Some b) = Inr t \<and> ref_D t = Some (event_value ty j)"
    using v watch_types_text [OF t] ref_doc [of "RObj [(''type'', RStr ty), (''object'', v)]"]
    by (simp add: ref_watch_def event_value_def utf8.simps ascii_byte_def fun_upd_twist del: print.simps)
qed

definition sample_event :: "rj \<Rightarrow> WatchEvent" where
  "sample_event v = \<lparr> ev_Type = ''ADDED'', ev_Raw = Some (print v) \<rparr>"

definition sample_stream :: http_response where
  "sample_stream = \<lparr> resp_StatusCode = 200, resp_Header = [(''Content-Type'', [''application/json''])],
     resp_Body = Body [print other_crd] None, resp_ContentLength = -1 \<rparr>"


theorem watch_event_restored_witness:
  "\<exists>y ev'. RewriteJSONPayload ref_lib insertion_order (rr_Init sample_rules) (Some (print sample_payload)) Rename = Inr (Some y) \<and>
    watch_result ref_lib insertion_order (rr_Init sample_rules) (NewProxyMetrics [] NewMetricsProvider) \<lparr> ev_Type = ''ADDED'', ev_Raw = Some y \<rparr> = Some ev' \<and>
    ref_D (sent ref_watch ev') = Some (event_value ''ADDED'' (rj_abs sample_payload))"
proof -
  have o: "rj_ok sample_payload" "''ADDED'' \<in> set change_types" by code_simp+
  have k: "jtext_at (rj_abs sample_payload) [''kind''] \<noteq> []" by (simp add: sample_payload_def jtext_at_def)
  from ref.payload_renamed [OF sample_rules_ready sample_replaces_wf ref_doc [OF o(1)] sample_payload_transparent, of insertion_order]
  obtain y where y: "RewriteJSONPayload ref_lib insertion_order (rr_Init sample_rules) (Some (print sample_payload)) Rename = Inr (Some y)"
    "doc ref_D (Some y) (j_payload (rr_Init sample_rules) Rename (rj_abs sample_payload))" by (auto simp: yields_def doc_def)
  from watch_event_restored [OF ref.json_library_axioms ref_events.event_codec_axioms sample_rules_ready sample_replaces_wf sample_payload_transparent _ k,
      of "\<lparr> ev_Type = ''ADDED'', ev_Raw = Some y \<rparr>" insertion_order "NewProxyMetrics [] NewMetricsProvider"] y o(2)
  show ?thesis by auto
qed

theorem watch_unknown_crd_null_witness:
  "\<exists>ev'. watch_result ref_lib insertion_order (rr_Init sample_rules) (NewProxyMetrics [] NewMetricsProvider) (sample_event other_crd) = Some ev' \<and>
    ref_D (sent ref_watch ev') = Some (event_value ''ADDED'' JNull)"
proof -
  have "''ADDED'' \<in> set change_types" by code_simp
  then show ?thesis
    using watch_unknown_crd_null [OF ref.json_library_axioms ref_events.event_codec_axioms _ other_crd_unknown,
      of "sample_event other_crd" insertion_order "NewProxyMetrics [] NewMetricsProvider"] ref_doc [OF other_crd_ok]
    by (simp add: sample_event_def)
qed

end
