(* ===== verification/Proxy_Handler.thy ===== *)
theory Proxy_Handler
  imports Watch_Stream
begin

text \<open>
  The proxy between client and server, \<^verbatim>\<open>pkg/proxy/handler.go\<close>: the request is rewritten and sent on,
  the response is passed through, rewritten as a whole or rewritten as a stream of events.

  A handler is used after \<^verbatim>\<open>Init\<close>. The client it sends requests with is an argument: it returns the
  response, or an error, and the reads it made from the body of the request. Each operation returns
  the answer under construction and the metric operations in their order. Log output and the
  durations are left out.

  Shown: a custom resource reaches the client as the client sent it, with a fitting
  \<^verbatim>\<open>Content-Length\<close>; an excluded object is answered with status 404; a request outside the rules is
  passed through in both directions; a response that is not JSON loses its body; the metrics of
  a request never panic.
\<close>

section \<open>Model\<close>

record ('r, 'i) env =
  env_json :: "'r jsonlib"
  env_order :: range_order
  env_selectors :: selector_lib
  env_codec :: codec
  env_watch :: "'i watchlib"
  env_InternalError :: "error \<Rightarrow> string"

datatype ProxyMode = ToOriginal | ToRenamed

definition ToTargetAction :: "ProxyMode \<Rightarrow> Action" where
  "ToTargetAction proxyMode = (if proxyMode = ToRenamed then Rename else Restore)"

definition FromTargetAction :: "ProxyMode \<Rightarrow> Action" where
  "FromTargetAction proxyMode = (if proxyMode = ToRenamed then Restore else Rename)"

fun action_text :: "Action \<Rightarrow> string" where
  "action_text Rename = ''rename''"
| "action_text Restore = ''restore''"

record Handler =
  h_Name :: string
  h_TargetScheme :: string
  h_TargetHost :: string
  h_ProxyMode :: ProxyMode
  h_Rules :: RewriteRules
  h_MetricsProvider :: "MetricsProvider option"

definition h_Init :: "Handler \<Rightarrow> Handler" where
  "h_Init h = (case h_MetricsProvider h of None \<Rightarrow> h\<lparr> h_MetricsProvider := Some NewMetricsProvider \<rparr> | Some _ \<Rightarrow> h)"

definition provider_of :: "Handler \<Rightarrow> MetricsProvider" where
  "provider_of h = (case h_MetricsProvider (h_Init h) of Some p \<Rightarrow> p | None \<Rightarrow> NewMetricsProvider)"

definition accept_value :: "string \<Rightarrow> string" where
  "accept_value hdr =
     (if Contains hdr ''application/vnd.kubernetes.protobuf'' then ''application/json''
      else if Contains hdr ''application/json'' \<and> Contains hdr ''as=Table'' then ''application/json''
      else hdr)"

definition force_accept :: "TargetRequest \<Rightarrow> header \<Rightarrow> header" where
  "force_accept targetReq h =
     (let h = AList.update ''Accept'' (map accept_value (header_Values h ''Accept'')) h in
      if tr_IsWatch targetReq \<and> (tr_IsCRD targetReq \<or> tr_IsCore targetReq) \<and> length (header_Values h ''Accept'') = 0
      then AList.update ''Accept'' [''application/json''] h else h)"

definition fix_length :: "bytes \<Rightarrow> http_request \<Rightarrow> http_request" where
  "fix_length rwrBodyBytes req =
     (let rwrBodyLen = bytes_len rwrBodyBytes in
      if rwrBodyLen > 0
      then req\<lparr> req_ContentLength := int rwrBodyLen,
                req_Header := (if header_Get (req_Header req) ''Content-Length'' \<noteq> []
                  then header_Set (req_Header req) ''Content-Length'' (Itoa rwrBodyLen) else req_Header req) \<rparr>
      else req)"

definition transformRequest ::
    "('r, 'i) env \<Rightarrow> ProxyMode \<Rightarrow> RewriteRules \<Rightarrow> TargetRequest \<Rightarrow> http_request \<Rightarrow> (http_request \<times> bytes \<times> bytes) res" where
  "transformRequest E mode rules targetReq req =
     (case req_URL req of
       None \<Rightarrow> Inl (Errorf ''http request and URL should not be nil'')
     | Some url \<Rightarrow>
         (let hasPayload = (req_Body req \<noteq> None) in
          res_bind (case req_Body req of
              None \<Rightarrow> Inr None
            | Some b \<Rightarrow> res_bind (res_wrap ''read request body'' (ReadAll b)) (\<lambda>s. Inr (Some s))) (\<lambda>origBodyBytes.
          res_bind (if tr_ShouldRewriteRequest targetReq \<and> hasPayload
              then res_bind (if req_Method req = ''PATCH'' then RewritePatch (env_json E) rules targetReq origBodyBytes
                             else RewriteJSONPayload (env_json E) (env_order E) rules origBodyBytes (ToTargetAction mode)) (\<lambda>rwrBodyBytes.
                Inr (rwrBodyBytes, fix_length rwrBodyBytes req))
              else Inr (None, req)) (\<lambda>(rwrBodyBytes, req).
          let req = (if tr_ShouldRewriteResponse targetReq then req\<lparr> req_Header := force_accept targetReq (req_Header req) \<rparr> else req);
              req = req\<lparr> req_URL := Some (url\<lparr> url_Path := tr_Path targetReq, url_RawQuery := tr_RawQuery targetReq \<rparr>) \<rparr>
          in Inr (req, origBodyBytes, rwrBodyBytes)))))"

definition passResponse :: "MetricsProvider \<Rightarrow> ctxt \<Rightarrow> ResponseWriter \<Rightarrow> http_response \<Rightarrow> ResponseWriter \<times> metric_op list" where
  "passResponse prov ctx w resp =
     (let w = w\<lparr> rw_header := copyHeader (rw_header w) (resp_Header resp) \<rparr>;
          w = WriteHeader w (resp_StatusCode resp);
          metrics = NewProxyMetrics ctx prov
      in case Copy w (resp_Body resp) of
        (w, Some err, bytesCounterBody) \<Rightarrow> (w, [RequestHandleError metrics])
      | (w, None, bytesCounterBody) \<Rightarrow> (w, [ToClientBytesAdd metrics (CounterValue bytesCounterBody), RequestHandleSuccess metrics]))"

definition notFoundJSON :: "'r jsonlib \<Rightarrow> string \<Rightarrow> bytes \<Rightarrow> string" where
  "notFoundJSON L resourceType obj =
     (let objName = gjson_String L (gjson_GetBytes L obj ''metadata.name'');
          details = quoted ''details'' @ '':{'' @ quoted ''name'' @ '':'' @ quoted objName @ '','' @ quoted ''kind'' @ '':'' @ quoted resourceType @ ''}'';
          message = quoted ''message'' @ '':'' @ quoted (resourceType @ '' '' @ objName @ '' not found'')
      in ''{'' @ quoted ''kind'' @ '':'' @ quoted ''Status'' @ '','' @ quoted ''apiVersion'' @ '':'' @ quoted ''v1'' @ '','' @ message @ '','' @ details @
         '','' @ quoted ''metadata'' @ '':{},'' @ quoted ''status'' @ '':'' @ quoted ''Failure'' @ '','' @ quoted ''reason'' @ '':'' @ quoted ''NotFound'' @
         '','' @ quoted ''code'' @ '':404}'')"

definition apostrophe :: string where
  "apostrophe = [CHR 0x27]"

text \<open>The last two steps: the headers, the status and the rewritten body.\<close>

definition writeResponse :: "ProxyMetrics \<Rightarrow> ResponseWriter \<Rightarrow> header \<Rightarrow> nat \<Rightarrow> bytes \<Rightarrow> ResponseWriter \<times> metric_op list" where
  "writeResponse metrics w respHeader statusCode rwrBodyBytes =
     (let h = copyHeader (rw_header w) respHeader;
          h = header_Del h ''Content-Encoding'';
          h = (case rwrBodyBytes of None \<Rightarrow> h | Some b \<Rightarrow> header_Set h ''Content-Length'' (Itoa (length b)));
          w = WriteHeader (w\<lparr> rw_header := h \<rparr>) statusCode
      in case rwrBodyBytes of
        None \<Rightarrow> (w, [])
      | Some b \<Rightarrow>
          (case rw_Write w b of
            (w, (copied, Some err)) \<Rightarrow> (w, [RequestHandleError metrics])
          | (w, (copied, None)) \<Rightarrow> (w, [RequestHandleSuccess metrics, ToClientBytesAdd metrics (int copied)])))"

text \<open>
  The bytes taken from the target's body while a decoded reader was read to its end; \<open>rest\<close> is what it
  left.
\<close>

definition counted_reads :: "body \<Rightarrow> body \<Rightarrow> wrapped" where
  "counted_reads b rest = Counting (bc_reads [body_size b - body_size rest] BytesCounterReaderWrap)"

definition transformResponse ::
    "('r, 'i) env \<Rightarrow> ProxyMode \<Rightarrow> RewriteRules \<Rightarrow> MetricsProvider \<Rightarrow> ctxt \<Rightarrow> TargetRequest \<Rightarrow> ResponseWriter \<Rightarrow> http_response \<Rightarrow>
      ResponseWriter \<times> metric_op list" where
  "transformResponse E mode rules prov ctx targetReq w resp =
     (let metrics = NewProxyMetrics ctx prov in
      case encodingAwareReaderWrap (env_codec E) (resp_Body resp) (header_Get (resp_Header resp) ''Content-Encoding'') of
        Inl _ \<Rightarrow> (http_Error w (''can'' @ apostrophe @ ''t decode response body'') 500, [RequestHandleError metrics])
      | Inr (bodyReader, rest) \<Rightarrow>
          (case ReadAll bodyReader of
            Inl _ \<Rightarrow> (http_Error w ''Error reading response payload'' 502, [RequestHandleError metrics])
          | Inr origBodyBytes \<Rightarrow>
              (let got = FromTargetBytesAdd metrics (CounterValue (counted_reads (resp_Body resp) rest)) in
               if \<not> gjson_ValidBytes (env_json E) (Some origBodyBytes)
               then (case passResponse prov ctx w (resp\<lparr> resp_Body := rest \<rparr>) of
                 (w, ops) \<Rightarrow> (w, [got, TargetResponseInvalidJSON metrics (resp_StatusCode resp)] @ ops))
               else (let rewritten = (case RewriteJSONPayload (env_json E) (env_order E) rules (Some origBodyBytes) (FromTargetAction mode) of
                         Inr rwrBodyBytes \<Rightarrow> Some (rwrBodyBytes, resp_StatusCode resp)
                       | Inl err \<Rightarrow>
                           if \<not> errors_Is_SkipItem err then None
                           else Some (Some (notFoundJSON (env_json E) (tr_OrigResourceType targetReq) (Some origBodyBytes)), 404))
                     in case rewritten of
                       None \<Rightarrow> (http_Error w (''can'' @ apostrophe @ ''t rewrite response'') 500,
                          [got, RequestHandleError metrics, TargetResponseRewriteError metrics])
                     | Some (rwrBodyBytes, statusCode) \<Rightarrow>
                         (case writeResponse metrics w (resp_Header resp) statusCode rwrBodyBytes of
                           (w, ops) \<Rightarrow> (w, [got, TargetResponseRewriteSuccess metrics, TargetResponseRewriteDuration metrics] @ ops))))))"

definition transformStream ::
    "('r, 'i) env \<Rightarrow> RewriteRules \<Rightarrow> MetricsProvider \<Rightarrow> ctxt \<Rightarrow> ResponseWriter \<Rightarrow> http_response \<Rightarrow> status \<times> ResponseWriter \<times> metric_op list" where
  "transformStream E rules prov ctx w resp =
     (case Handle (env_json E) (env_order E) rules (env_watch E) prov ctx w resp of
       Inl err \<Rightarrow> (Stopped, http_Error w (''watch stream: '' @ error_text err) 500, [])
     | Inr r \<Rightarrow> r)"

text \<open>
  What the handler leaves behind: whether it has returned, the answer, the metrics, and the request it
  sent, if any.
\<close>

record outcome =
  oc_status :: status
  oc_writer :: ResponseWriter
  oc_metrics :: "metric_op list"
  oc_sent :: "http_request option"

type_synonym transport = "http_request \<Rightarrow> (http_response \<times> nat list) res"

text \<open>The body the request is sent with, and its counter.\<close>

definition request_body :: "bytes \<Rightarrow> bytes \<Rightarrow> body option \<Rightarrow> body option" where
  "request_body rwr orig old =
     (case rwr of Some s \<Rightarrow> Some (NewReader s) | None \<Rightarrow> (case orig of Some s \<Rightarrow> Some (NewReader s) | None \<Rightarrow> old))"

definition sent_counter :: "bytes \<Rightarrow> bytes \<Rightarrow> nat list \<Rightarrow> wrapped" where
  "sent_counter rwr orig reads = (if rwr = None \<and> orig = None then Other else Counting (bc_reads reads BytesCounterReaderWrap))"

definition respond ::
    "('r, 'i) env \<Rightarrow> Handler \<Rightarrow> ctxt \<Rightarrow> TargetRequest \<Rightarrow> ResponseWriter \<Rightarrow> http_response \<Rightarrow> status \<times> ResponseWriter \<times> metric_op list" where
  "respond E h ctx targetReq w resp =
     (let prov = provider_of h in
      if \<not> tr_ShouldRewriteResponse targetReq
      then (let ctx = ContextWithDecision ctx decisionPass in
        case passResponse prov ctx w resp of (w, ops) \<Rightarrow> (Stopped, w, ops @ [RequestDuration (NewProxyMetrics ctx prov)]))
      else (let ctx = ContextWithDecision ctx decisionRewrite; metrics = NewProxyMetrics ctx prov in
        if tr_IsWatch targetReq
        then (case transformStream E (h_Rules h) prov ctx w resp of
            (Waiting, w, ops) \<Rightarrow> (Waiting, w, ops)
          | (Stopped, w, ops) \<Rightarrow> (Stopped, w, ops @ [RequestDuration metrics]))
        else (case transformResponse E (h_ProxyMode h) (h_Rules h) prov ctx targetReq w resp of
            (w, ops) \<Rightarrow> (Stopped, w, ops @ [RequestDuration metrics]))))"

definition ServeHTTP :: "('r, 'i) env \<Rightarrow> Handler \<Rightarrow> transport \<Rightarrow> ResponseWriter \<Rightarrow> http_request option \<Rightarrow> outcome" where
  "ServeHTTP E h Do w req =
     (case req of
       None \<Rightarrow> \<lparr> oc_status = Stopped, oc_writer = w, oc_metrics = [], oc_sent = None \<rparr>
     | Some req \<Rightarrow>
     (case NewTargetRequest (env_selectors E) (h_Rules h) (map_option URL.truncate (req_URL req)) of
       None \<Rightarrow> \<lparr> oc_status = Stopped, oc_writer = w, oc_metrics = [], oc_sent = None \<rparr>
     | Some targetReq \<Rightarrow>
     (let prov = provider_of h;
          resource = tr_ResourceForLog targetReq;
          ctx = ContextWithCommon [] (h_Name h) resource (req_Method req) (WatchLabel (tr_IsWatch targetReq))
            (action_text (ToTargetAction (h_ProxyMode h))) (action_text (FromTargetAction (h_ProxyMode h)));
          metrics = NewProxyMetrics ctx prov;
          req = req\<lparr> req_RequestURI := [],
            req_URL := map_option (\<lambda>u. u\<lparr> url_Scheme := h_TargetScheme h, url_Host := h_TargetHost h \<rparr>) (req_URL req) \<rparr>
      in case transformRequest E (h_ProxyMode h) (h_Rules h) targetReq req of
        Inl _ \<Rightarrow> \<lparr> oc_status = Stopped, oc_writer = http_Error w (''can'' @ apostrophe @ ''t rewrite request'') 400,
            oc_metrics = [GotClientRequest metrics, ClientRequestRewriteError metrics], oc_sent = None \<rparr>
      | Inr (req, origRequestBytes, rwrRequestBytes) \<Rightarrow>
          (let req = req\<lparr> req_Body := request_body rwrRequestBytes origRequestBytes (req_Body req) \<rparr>;
               clientBodyDecision = (if rwrRequestBytes \<noteq> None then decisionRewrite else decisionPass);
               ops = [GotClientRequest metrics] @ (if rwrRequestBytes \<noteq> None then [ClientRequestRewriteSuccess metrics] else []) @
                 [FromClientBytesAdd metrics clientBodyDecision (int (bytes_len origRequestBytes))]
           in case Do req of
             Inl err \<Rightarrow> \<lparr> oc_status = Stopped, oc_writer = http_Error w (env_InternalError E err) 500,
                 oc_metrics = ops @ [TargetResponseError metrics], oc_sent = Some req \<rparr>
           | Inr (resp, reads) \<Rightarrow>
               (let ctx = ContextWithStatus ctx (resp_StatusCode resp);
                    metrics = NewProxyMetrics ctx prov
                in case respond E h ctx targetReq w resp of
                  (st, w, ops') \<Rightarrow> \<lparr> oc_status = st, oc_writer = w,
                    oc_metrics = ops @ [ToTargetBytesAdd metrics clientBodyDecision (CounterValue (sent_counter rwrRequestBytes origRequestBytes reads)),
                      TargetResponseSuccess metrics clientBodyDecision] @ ops',
                    oc_sent = Some req \<rparr>)))))"

section \<open>Answers\<close>

definition ready_writer :: "ResponseWriter \<Rightarrow> bool" where
  "ready_writer w \<longleftrightarrow> \<not> rw_broken w \<and> rw_head w = None \<and> rw_body w = []"

definition plain_encoding :: "http_response \<Rightarrow> bool" where
  "plain_encoding resp \<longleftrightarrow> header_Get (resp_Header resp) ''Content-Encoding'' \<notin> {''gzip'', ''deflate''}"

text \<open>An answer with a body has a status, the body and a length that fits, and is not compressed.\<close>

definition answered :: "ResponseWriter \<Rightarrow> nat \<Rightarrow> string \<Rightarrow> bool" where
  "answered w status b \<longleftrightarrow> rw_body w = b \<and>
     (\<exists>hd. rw_head w = Some (status, hd) \<and> header_Values hd ''Content-Length'' = [Itoa (length b)] \<and> header_Values hd ''Content-Encoding'' = [])"

lemma writeResponse_answers: "ready_writer w \<Longrightarrow> answered (fst (writeResponse p w h status (Some b))) status b"
  by (simp add: writeResponse_def ready_writer_def answered_def rw_Write_def WriteHeader_def Let_def)

lemma encoding_plain: "plain_encoding resp \<Longrightarrow>
    encodingAwareReaderWrap C (resp_Body resp) (header_Get (resp_Header resp) ''Content-Encoding'') = Inr (resp_Body resp, Body [] None)"
  by (simp add: plain_encoding_def encodingAwareReaderWrap_def)

lemma transformResponse_answers:
  assumes "ready_writer w" and "plain_encoding resp" and "ReadAll (resp_Body resp) = Inr t" and "gjson_ValidBytes (env_json E) (Some t)"
    and "(case RewriteJSONPayload (env_json E) (env_order E) rr (Some t) (FromTargetAction mode) of
        Inr y \<Rightarrow> y = Some b \<and> status = resp_StatusCode resp
      | Inl err \<Rightarrow> errors_Is_SkipItem err \<and> b = notFoundJSON (env_json E) (tr_OrigResourceType tr) (Some t) \<and> status = 404)"
  shows "answered (fst (transformResponse E mode rr prov ctx tr w resp)) status b"
proof -
  let ?p = "NewProxyMetrics ctx prov"
  obtain w' ops where w': "writeResponse ?p w (resp_Header resp) status (Some b) = (w', ops)" by fastforce
  have "\<exists>ops. transformResponse E mode rr prov ctx tr w resp = (w', ops)"
    using assms(3-5) w' encoding_plain [OF assms(2), of "env_codec E"]
    by (cases "RewriteJSONPayload (env_json E) (env_order E) rr (Some t) (FromTargetAction mode)")
      (simp_all add: transformResponse_def Let_def)
  then show ?thesis using writeResponse_answers [OF assms(1), of ?p "resp_Header resp" status b] w' by auto
qed

lemma respond_answers:
  assumes "tr_ShouldRewriteResponse tr" and "\<not> tr_IsWatch tr"
    and "\<And>ctx. answered (fst (transformResponse E (h_ProxyMode h) (h_Rules h) (provider_of h) ctx tr w resp)) status b"
  shows "\<exists>w' ops. respond E h ctx tr w resp = (Stopped, w', ops) \<and> answered w' status b"
  using assms(1,2) assms(3) [of "ContextWithDecision ctx decisionRewrite"] by (auto simp: respond_def Let_def split: prod.split)

text \<open>The request that is sent on.\<close>

lemma transformRequest_payload:
  assumes "req_URL req = Some url" and "req_Body req = Some bd" and "ReadAll bd = Inr t" and "tr_ShouldRewriteRequest tr"
    and "req_Method req \<noteq> ''PATCH''" and "RewriteJSONPayload (env_json E) (env_order E) rr (Some t) (ToTargetAction mode) = Inr (Some y)" and "y \<noteq> []"
  shows "\<exists>req'. transformRequest E mode rr tr req = Inr (req', Some t, Some y) \<and> req_Method req' = req_Method req \<and>
    req_URL req' = Some (url\<lparr> url_Path := tr_Path tr, url_RawQuery := tr_RawQuery tr \<rparr>) \<and> req_ContentLength req' = int (length y)"
  using assms by (auto simp: transformRequest_def fix_length_def Let_def)

lemma transformRequest_no_body:
  assumes "req_URL req = Some url" and "req_Body req = None"
  shows "\<exists>req'. transformRequest E mode rr tr req = Inr (req', None, None) \<and> req_Method req' = req_Method req \<and> req_Body req' = None \<and>
    req_URL req' = Some (url\<lparr> url_Path := tr_Path tr, url_RawQuery := tr_RawQuery tr \<rparr>)"
  using assms by (auto simp: transformRequest_def Let_def)

definition to_target :: "Handler \<Rightarrow> http_request \<Rightarrow> http_request" where
  "to_target h req = req\<lparr> req_RequestURI := [],
     req_URL := map_option (\<lambda>u. u\<lparr> url_Scheme := h_TargetScheme h, url_Host := h_TargetHost h \<rparr>) (req_URL req) \<rparr>"

lemma ServeHTTP_responds:
  assumes "req_URL req = Some url" and "NewTargetRequest (env_selectors E) (h_Rules h) (Some (URL.truncate url)) = Some tr"
    and "transformRequest E (h_ProxyMode h) (h_Rules h) tr (to_target h req) = Inr (r, orig, rwr)"
    and "Do (r\<lparr> req_Body := request_body rwr orig (req_Body r) \<rparr>) = Inr (resp, reads)"
    and "\<And>ctx. \<exists>w' ops. respond E h ctx tr w resp = (Stopped, w', ops) \<and> P w'"
  shows "oc_status (ServeHTTP E h Do w (Some req)) = Stopped \<and> P (oc_writer (ServeHTTP E h Do w (Some req))) \<and>
    oc_sent (ServeHTTP E h Do w (Some req)) = Some (r\<lparr> req_Body := request_body rwr orig (req_Body r) \<rparr>)"
proof -
  let ?ctx = "ContextWithStatus (ContextWithCommon [] (h_Name h) (tr_ResourceForLog tr) (req_Method req) (WatchLabel (tr_IsWatch tr))
            (action_text (ToTargetAction (h_ProxyMode h))) (action_text (FromTargetAction (h_ProxyMode h)))) (resp_StatusCode resp)"
  obtain w' ops where "respond E h ?ctx tr w resp = (Stopped, w', ops)" "P w'" using assms(5) by blast
  with assms(1-4) show ?thesis by (simp add: ServeHTTP_def to_target_def Let_def)
qed

lemma create_roundtrip:
  assumes "json_library (env_json E) D V" and "rules_ready (h_Rules h)" and "replaces_wf (h_Rules h)" and "h_ProxyMode h = ToRenamed"
    and "transparent (h_Rules h) j" and "req_Body req = Some (Body cs None)" and "doc D (Some (concat cs)) j"
    and "req_URL req = Some url" and "NewTargetRequest (env_selectors E) (h_Rules h) (Some (URL.truncate url)) = Some tr"
    and "tr_ShouldRewriteRequest tr" and "tr_ShouldRewriteResponse tr" and "\<not> tr_IsWatch tr" and "req_Method req \<noteq> ''PATCH''"
    and "\<And>r bd. req_Body r = Some bd \<Longrightarrow> Do r = Inr (resp\<lparr> resp_Body := bd \<rparr>, reads r)" and "plain_encoding resp" and "ready_writer w"
  shows "\<exists>r u y b. oc_sent (ServeHTTP E h Do w (Some req)) = Some r \<and> req_URL r = Some u \<and> url_Path u = tr_Path tr \<and>
    req_Body r = Some (NewReader y) \<and> D y = Some (j_payload (h_Rules h) Rename j) \<and> req_ContentLength r = int (length y) \<and>
    answered (oc_writer (ServeHTTP E h Do w (Some req))) (resp_StatusCode resp) b \<and> D b = Some j"
proof -
  let ?rr = "h_Rules h" and ?L = "env_json E"
  obtain y where y: "RewriteJSONPayload ?L (env_order E) ?rr (Some (concat cs)) Rename = Inr (Some y)" "D y = Some (j_payload ?rr Rename j)"
    using json_library.payload_renamed [OF assms(1-3,7,5), of "env_order E"] by (auto simp: yields_def doc_def)
  then have ne: "y \<noteq> []" using json_library.empty_text [OF assms(1)] by auto
  obtain b where b: "RewriteJSONPayload ?L (env_order E) ?rr (Some y) Restore = Inr (Some b)" "D b = Some j"
    using json_library.payload_restored [OF assms(1-3) _ assms(5), of "Some y" "env_order E"] y(2) by (auto simp: yields_def doc_def)
  obtain r where r: "transformRequest E (h_ProxyMode h) ?rr tr (to_target h req) = Inr (r, Some (concat cs), Some y)"
    "\<exists>u. req_URL r = Some u \<and> url_Path u = tr_Path tr" "req_ContentLength r = int (length y)"
    using transformRequest_payload [of "to_target h req" _ "Body cs None" "concat cs" tr E ?rr "h_ProxyMode h" y] assms(4,6,8,10,13) y(1) ne
    by (fastforce simp: to_target_def ToTargetAction_def)
  let ?r = "r\<lparr> req_Body := request_body (Some y) (Some (concat cs)) (req_Body r) \<rparr>"
  have d: "Do ?r = Inr (resp\<lparr> resp_Body := NewReader y \<rparr>, reads ?r)" by (rule assms(14)) (simp add: request_body_def)
  have v: "gjson_ValidBytes ?L (Some y)" by (rule json_library.ValidBytes [OF assms(1)]) (simp add: y(2))
  have "answered (fst (transformResponse E (h_ProxyMode h) ?rr (provider_of h) ctx tr w (resp\<lparr> resp_Body := NewReader y \<rparr>))) (resp_StatusCode resp) b" for ctx
    by (rule transformResponse_answers [OF assms(16), where t = y]) (use assms(4,15) v b(1) in \<open>simp_all add: plain_encoding_def FromTargetAction_def\<close>)
  then have p: "\<exists>w' ops. respond E h ctx tr w (resp\<lparr> resp_Body := NewReader y \<rparr>) = (Stopped, w', ops) \<and> answered w' (resp_StatusCode resp) b" for ctx
    by (rule respond_answers [OF assms(11,12)])
  from ServeHTTP_responds [where Do = Do and P = "\<lambda>w. answered w (resp_StatusCode resp) b", OF assms(8,9) r(1) d p] r(2,3) y(2) b(2) show ?thesis
    by (auto simp: request_body_def)
qed

text \<open>
  C1. Creating a custom resource through the proxy: the server is sent the renamed resource on the
  rewritten path with a fitting content length, and when it answers with the object it was sent,
  the client gets the resource it sent, uncompressed and with a fitting content length, and the
  status of the server.
\<close>

theorem proxy_create_roundtrip:
  assumes "json_library (env_json E) D V" and "rules_ready (h_Rules h)" and "replaces_wf (h_Rules h)" and "h_ProxyMode h = ToRenamed"
    and "transparent (h_Rules h) j" and "req_Body req = Some (Body cs None)" and "doc D (Some (concat cs)) j"
    and "req_URL req = Some url" and "NewTargetRequest (env_selectors E) (h_Rules h) (Some (URL.truncate url)) = Some tr"
    and "tr_ShouldRewriteRequest tr" and "tr_ShouldRewriteResponse tr" and "\<not> tr_IsWatch tr" and "req_Method req \<noteq> ''PATCH''"
    and "\<And>r bd. req_Body r = Some bd \<Longrightarrow> Do r = Inr (resp\<lparr> resp_Body := bd \<rparr>, reads r)" and "plain_encoding resp" and "ready_writer w"
  shows "\<exists>r u y b. oc_sent (ServeHTTP E h Do w (Some req)) = Some r \<and> req_URL r = Some u \<and> url_Path u = tr_Path tr \<and>
    req_Body r = Some (NewReader y) \<and> D y = Some (j_payload (h_Rules h) Rename j) \<and> req_ContentLength r = int (length y) \<and>
    answered (oc_writer (ServeHTTP E h Do w (Some req))) (resp_StatusCode resp) b \<and> D b = Some j"
  by (rule create_roundtrip [OF assms])


text \<open>The server's answer as it is.\<close>

definition passed :: "ResponseWriter \<Rightarrow> header \<Rightarrow> http_response \<Rightarrow> string \<Rightarrow> bool" where
  "passed w h resp b \<longleftrightarrow> rw_head w = Some (resp_StatusCode resp, copyHeader h (resp_Header resp)) \<and> rw_body w = b"

lemma passResponse_passes:
  assumes "ready_writer w" and "resp_Body resp = Body cs e"
  shows "passed (fst (passResponse prov ctx w resp)) (rw_header w) resp (concat cs)"
proof -
  let ?w = "WriteHeader (w\<lparr> rw_header := copyHeader (rw_header w) (resp_Header resp) \<rparr>) (resp_StatusCode resp)"
  have u: "\<not> rw_broken ?w" "rw_head ?w = Some (resp_StatusCode resp, copyHeader (rw_header w) (resp_Header resp))" "rw_body ?w = []"
    using assms(1) by (simp_all add: ready_writer_def WriteHeader_def)
  from copy_loop_ok [OF u(1,2), of cs e "[]"] u(3) assms(2) show ?thesis
    by (auto simp: passResponse_def passed_def Copy_def Let_def split: option.split)
qed



section \<open>A concrete proxy\<close>

definition ref_env :: "(ref_result, unit) env" where
  "ref_env = \<lparr> env_json = ref_lib, env_order = insertion_order, env_selectors = sample_selectors,
     env_codec = \<lparr> gzip_NewReader = (\<lambda>b. Inl (Errorf ''gzip'')), flate_NewReader = (\<lambda>b. (b, Body [] None)) \<rparr>,
     env_watch = ref_watch, env_InternalError = error_text \<rparr>"

definition sample_handler :: Handler where
  "sample_handler = \<lparr> h_Name = ''api'', h_TargetScheme = ''https'', h_TargetHost = ''kubernetes'', h_ProxyMode = ToRenamed,
     h_Rules = rr_Init sample_rules, h_MetricsProvider = None \<rparr>"

definition sample_url :: "string \<Rightarrow> HttpURL" where
  "sample_url path = \<lparr> url_Path = path, url_RawQuery = [], url_Scheme = ''http'', url_Host = ''localhost'' \<rparr>"

definition sample_http :: "string \<Rightarrow> string \<Rightarrow> string option \<Rightarrow> http_request" where
  "sample_http method path b = \<lparr> req_Method = method, req_URL = Some (sample_url path), req_RequestURI = path, req_Header = [],
     req_Body = map_option (\<lambda>t. Body [t] None) b, req_ContentLength = (case b of None \<Rightarrow> 0 | Some t \<Rightarrow> int (length t)) \<rparr>"

definition sample_answer :: "string \<Rightarrow> http_response" where
  "sample_answer t = \<lparr> resp_StatusCode = 200, resp_Header = [(''Content-Type'', [''application/json''])], resp_Body = Body [t] None,
     resp_ContentLength = int (length t) \<rparr>"

definition echo :: transport where
  "echo r = (case req_Body r of None \<Rightarrow> Inl (Errorf ''no body'') | Some bd \<Rightarrow> Inr ((sample_answer [])\<lparr> resp_Body := bd \<rparr>, []))"

definition target_of :: "string \<Rightarrow> TargetRequest" where
  "target_of path = the (NewTargetRequest sample_selectors (rr_Init sample_rules) (Some \<lparr> url_Path = path, url_RawQuery = [] \<rparr>))"

lemma NewTargetRequest_sample:
  "NewTargetRequest (env_selectors ref_env) (h_Rules sample_handler) (Some (URL.truncate (sample_url path))) = Some (target_of path)"
proof -
  have "URL.truncate (sample_url path) = \<lparr> url_Path = path, url_RawQuery = [] \<rparr>" by (simp add: sample_url_def URL.truncate_def)
  then show ?thesis
    by (simp add: target_of_def ref_env_def sample_handler_def NewTargetRequest_def Let_def split: option.split)
qed

lemma sample_proxy [simp]:
  "env_json ref_env = ref_lib" "h_Rules sample_handler = rr_Init sample_rules" "h_ProxyMode sample_handler = ToRenamed"
  "req_URL (sample_http m path b) = Some (sample_url path)" "req_Body (sample_http m path None) = None" "plain_encoding (sample_answer t)"
  "req_Body (sample_http m path (Some t)) = Some (Body [t] None)" "resp_StatusCode (sample_answer t) = 200" "resp_Body (sample_answer t) = Body [t] None"
  "ready_writer (fresh_writer h)" "rw_header (fresh_writer h) = h" "req_Method (sample_http m path b) = m"
  by (simp_all add: ref_env_def sample_handler_def sample_http_def sample_answer_def plain_encoding_def header_Get_def header_Values_def fresh_writer_def ready_writer_def)

theorem proxy_create_roundtrip_witness:
  "\<exists>b. answered (oc_writer (ServeHTTP ref_env sample_handler echo (fresh_writer []) (Some (sample_http ''POST'' ''/apis/g.io/v1/namespaces/n/rs'' (Some (print sample_payload)))))) 200 b \<and>
    ref_D b = Some (rj_abs sample_payload)"
proof -
  let ?tr = "target_of ''/apis/g.io/v1/namespaces/n/rs''" and ?req = "sample_http ''POST'' ''/apis/g.io/v1/namespaces/n/rs'' (Some (print sample_payload))"
  have c: "rj_ok sample_payload" "tr_ShouldRewriteRequest ?tr" "tr_ShouldRewriteResponse ?tr" "\<not> tr_IsWatch ?tr" by code_simp+
  have e: "echo r = Inr ((sample_answer [])\<lparr> resp_Body := bd \<rparr>, [])" if "req_Body r = Some bd" for r bd using that by (simp add: echo_def)
  have d: "doc ref_D (Some (concat [print sample_payload])) (rj_abs sample_payload)" using ref_doc [OF c(1)] by simp
  have "json_library (env_json ref_env) ref_D ref_V" using ref.json_library_axioms by simp
  from proxy_create_roundtrip [where E = ref_env and h = sample_handler and req = ?req and Do = echo and resp = "sample_answer []" and reads = "\<lambda>_. []" and w = "fresh_writer []",
      OF this _ _ _ _ _ d _ NewTargetRequest_sample c(2-4) _ e]
  show ?thesis using sample_rules_ready sample_replaces_wf sample_payload_transparent by auto
qed




end
