(* ===== verification/Round_Tripper.thy ===== *)
theory Round_Tripper
  imports Proxy_Handler
begin

text \<open>
  The proxy inside a client, \<^verbatim>\<open>pkg/proxy/roundtripper.go\<close>: the same rewriting as the handler, as a wrapper
  around the transport of a Kubernetes client.

  A transport maps a request to a response or an error. The result of the round tripper also says
  whether the body of a watch is complete (\<open>Stopped\<close>) or still open (\<open>Waiting\<close>). The text of the
  status line, the durations and log output are left out.

  Shown: the round tripper and the handler send the same request and give the same answer, errors
  included; unlike the handler it keeps the body of a response that is not JSON; wrapping a
  client configuration keeps the wrapper that was there before.
\<close>

section \<open>Model\<close>

type_synonym base_transport = "http_request \<Rightarrow> http_response res"

record RoundTripper =
  rt_Name :: string
  rt_Base :: "base_transport option"
  rt_ProxyMode :: ProxyMode
  rt_Rewriter :: "RewriteRules option"
  rt_MetricsProvider :: "MetricsProvider option"

definition rt_initialize :: "RoundTripper \<Rightarrow> RoundTripper" where
  "rt_initialize rt =
     (let rt = (if rt_Name rt = [] then rt\<lparr> rt_Name := ''kube-api-roundtripper'' \<rparr> else rt) in
      if rt_MetricsProvider rt = None then rt\<lparr> rt_MetricsProvider := Some NewMetricsProvider \<rparr> else rt)"

definition NewProxyRoundTripper :: "string \<Rightarrow> ProxyMode \<Rightarrow> RewriteRules \<Rightarrow> RoundTripper" where
  "NewProxyRoundTripper name mode rules =
     rt_initialize \<lparr> rt_Name = name, rt_Base = None, rt_ProxyMode = mode, rt_Rewriter = Some rules, rt_MetricsProvider = None \<rparr>"

definition rt_base :: "base_transport \<Rightarrow> RoundTripper \<Rightarrow> base_transport" where
  "rt_base DefaultTransport rt = (case rt_Base rt of Some b \<Rightarrow> b | None \<Rightarrow> DefaultTransport)"

definition cloneRequest :: "http_request \<Rightarrow> http_request" where
  "cloneRequest req = req\<lparr> req_RequestURI := [] \<rparr>"

definition rwrRequestBytesOrOriginal :: "bytes \<Rightarrow> bytes \<Rightarrow> bytes" where
  "rwrRequestBytesOrOriginal orig rwr = (if rwr \<noteq> None then rwr else orig)"

definition replaceResponseBody :: "http_response \<Rightarrow> bytes \<Rightarrow> bool \<Rightarrow> http_response" where
  "replaceResponseBody resp bd decoded =
     (let h = header_Set (resp_Header resp) ''Content-Length'' (Itoa (bytes_len bd)) in
      resp\<lparr> resp_Body := NewReader (bytes_str bd), resp_ContentLength := int (bytes_len bd),
            resp_Header := (if decoded then header_Del h ''Content-Encoding'' else h) \<rparr>)"

definition rewriteResponse ::
    "('r, 'i) env \<Rightarrow> ProxyMode \<Rightarrow> RewriteRules \<Rightarrow> MetricsProvider \<Rightarrow> ctxt \<Rightarrow> http_response \<Rightarrow> TargetRequest \<Rightarrow> http_response res \<times> metric_op list" where
  "rewriteResponse E mode rules prov ctx resp targetReq =
     (let metrics = NewProxyMetrics ctx prov in
      case encodingAwareReaderWrap (env_codec E) (resp_Body resp) (header_Get (resp_Header resp) ''Content-Encoding'') of
        Inl err \<Rightarrow> (Inl (Wrapf ''decode response body'' err), [])
      | Inr (bodyReader, rest) \<Rightarrow>
          (case ReadAll bodyReader of
            Inl err \<Rightarrow> (Inl (Wrapf ''read response payload'' err), [])
          | Inr origBodyBytes \<Rightarrow>
              (let got = FromTargetBytesAdd metrics (CounterValue (counted_reads (resp_Body resp) rest)) in
               if \<not> gjson_ValidBytes (env_json E) (Some origBodyBytes)
               then (Inr (replaceResponseBody resp (Some origBodyBytes) True), [got, TargetResponseInvalidJSON metrics (resp_StatusCode resp)])
               else (let rewritten = (case RewriteJSONPayload (env_json E) (env_order E) rules (Some origBodyBytes) (FromTargetAction mode) of
                         Inr rwrBodyBytes \<Rightarrow> Inr (rwrBodyBytes, resp_StatusCode resp)
                       | Inl err \<Rightarrow>
                           if \<not> errors_Is_SkipItem err then Inl (Wrapf ''rewrite response'' err)
                           else Inr (Some (notFoundJSON (env_json E) (tr_OrigResourceType targetReq) (Some origBodyBytes)), 404))
                     in case rewritten of
                       Inl err \<Rightarrow> (Inl err, [got, TargetResponseRewriteError metrics])
                     | Inr (rwrBodyBytes, statusCode) \<Rightarrow>
                         (Inr ((replaceResponseBody resp rwrBodyBytes True)\<lparr> resp_StatusCode := statusCode \<rparr>),
                          [got, TargetResponseRewriteSuccess metrics, TargetResponseRewriteDuration metrics])))))"

text \<open>The pipe between the stream rewriter and the reader of the response body.\<close>

record pipe =
  pipe_chunks :: "string list"
  pipe_closed :: bool

definition pipe_Write :: "pipe \<Rightarrow> string \<Rightarrow> pipe \<times> (nat \<times> error option)" where
  "pipe_Write p t = (if pipe_closed p then (p, (0, Some (Errorf ''io: read/write on closed pipe'')))
     else (p\<lparr> pipe_chunks := pipe_chunks p @ [t] \<rparr>, (length t, None)))"

definition pipe_sink :: "pipe sink" where
  "pipe_sink = \<lparr> sink_Write = pipe_Write, sink_Flush = (\<lambda>p. p) \<rparr>"

definition rewriteWatchResponse ::
    "('r, 'i) env \<Rightarrow> RewriteRules \<Rightarrow> MetricsProvider \<Rightarrow> ctxt \<Rightarrow> http_response \<Rightarrow> (http_response \<times> status) \<times> metric_op list" where
  "rewriteWatchResponse E rules prov ctx resp =
     (let h = header_Del (header_Del (resp_Header resp) ''Content-Length'') ''Content-Encoding'';
          out = resp\<lparr> resp_ContentLength := -1, resp_Header := h \<rparr>
      in case Rewrite (env_json E) (env_order E) rules (env_watch E) prov ctx pipe_sink \<lparr> pipe_chunks = [], pipe_closed = False \<rparr>
           (resp\<lparr> resp_Header := h \<rparr>) of
        Inl err \<Rightarrow> ((out\<lparr> resp_Body := Body [] (Some err) \<rparr>, Stopped), [])
      | Inr (st, p, ops) \<Rightarrow> ((out\<lparr> resp_Body := Body (pipe_chunks p) None \<rparr>, st), ops))"

definition RoundTrip :: "('r, 'i) env \<Rightarrow> base_transport \<Rightarrow> RoundTripper \<Rightarrow> http_request option \<Rightarrow> (http_response \<times> status) res \<times> metric_op list" where
  "RoundTrip E DefaultTransport rt req =
     (case req of
       None \<Rightarrow> (Inl (Errorf ''http request should not be nil''), [])
     | Some req \<Rightarrow>
     (case rt_Rewriter rt of
       None \<Rightarrow> (Inl (Errorf (if req_URL req = None then ''http request URL should not be nil'' else ''rewriter is required'')), [])
     | Some rules \<Rightarrow>
     (case NewTargetRequest (env_selectors E) rules (map_option URL.truncate (req_URL req)) of
       None \<Rightarrow> (Inl (Errorf ''http request URL should not be nil''), [])
     | Some targetReq \<Rightarrow>
     (let prov = (case rt_MetricsProvider rt of Some p \<Rightarrow> p | None \<Rightarrow> NewMetricsProvider);
          ctx = ContextWithCommon [] (rt_Name rt) (tr_ResourceForLog targetReq) (req_Method req) (WatchLabel (tr_IsWatch targetReq))
            (action_text (ToTargetAction (rt_ProxyMode rt))) (action_text (FromTargetAction (rt_ProxyMode rt)));
          metrics = NewProxyMetrics ctx prov
      in case transformRequest E (rt_ProxyMode rt) rules targetReq (cloneRequest req) of
        Inl err \<Rightarrow> (Inl (Wrapf ''rewrite request'' err), [GotClientRequest metrics, ClientRequestRewriteError metrics])
      | Inr (clonedReq, origRequestBytes, rwrRequestBytes) \<Rightarrow>
          (let clonedReq = clonedReq\<lparr> req_Body := request_body rwrRequestBytes origRequestBytes (req_Body clonedReq) \<rparr>;
               clientBodyDecision = (if rwrRequestBytes \<noteq> None then decisionRewrite else decisionPass);
               ops = [GotClientRequest metrics] @ (if rwrRequestBytes \<noteq> None then [ClientRequestRewriteSuccess metrics] else []) @
                 [FromClientBytesAdd metrics clientBodyDecision (int (bytes_len origRequestBytes))]
           in case rt_base DefaultTransport rt clonedReq of
             Inl err \<Rightarrow> (Inl err, ops @ [TargetResponseError metrics])
           | Inr resp \<Rightarrow>
               (let ctx = ContextWithStatus ctx (resp_StatusCode resp);
                    metrics = NewProxyMetrics ctx prov;
                    ops = ops @ [ToTargetBytesAdd metrics clientBodyDecision (int (bytes_len (rwrRequestBytesOrOriginal origRequestBytes rwrRequestBytes))),
                      TargetResponseSuccess metrics clientBodyDecision]
                in if \<not> tr_ShouldRewriteResponse targetReq
                   then (Inr (resp, Stopped), ops @ [RequestDuration (NewProxyMetrics (ContextWithDecision ctx decisionPass) prov)])
                   else (let ctx = ContextWithDecision ctx decisionRewrite; metrics = NewProxyMetrics ctx prov in
                     if tr_IsWatch targetReq
                     then (case rewriteWatchResponse E rules prov ctx resp of
                       (r, ops') \<Rightarrow> (Inr r, ops @ [RequestHandleSuccess metrics, RequestDuration metrics] @ ops'))
                     else (case rewriteResponse E (rt_ProxyMode rt) rules prov ctx resp targetReq of
                         (Inl err, ops') \<Rightarrow> (Inl err, ops @ ops' @ [RequestHandleError metrics])
                       | (Inr r, ops') \<Rightarrow> (Inr (r, Stopped), ops @ ops' @ [RequestHandleSuccess metrics, RequestDuration metrics])))))))))"

section \<open>Client configurations\<close>

datatype wrapper = Rewriting RoundTripper | OtherTransport base_transport

record rest_Config =
  cfg_ContentType :: string
  cfg_WrapTransport :: "(base_transport \<Rightarrow> wrapper) option"

text \<open>A wrapped transport as a transport.\<close>

fun wrapper_base :: "wrapper \<Rightarrow> (RoundTripper \<Rightarrow> base_transport) \<Rightarrow> base_transport" where
  "wrapper_base (Rewriting rt) run = run rt"
| "wrapper_base (OtherTransport t) run = t"

definition WrapRESTConfig :: "(RoundTripper \<Rightarrow> base_transport) \<Rightarrow> rest_Config \<Rightarrow> wrapper \<Rightarrow> rest_Config" where
  "WrapRESTConfig run cfg wrapper =
     cfg\<lparr> cfg_ContentType := ''application/json'',
          cfg_WrapTransport := Some (\<lambda>rt.
            (let rt = (case cfg_WrapTransport cfg of None \<Rightarrow> rt | Some prev \<Rightarrow> wrapper_base (prev rt) run) in
             case wrapper of
               OtherTransport t \<Rightarrow> OtherTransport t
             | Rewriting rwr \<Rightarrow> Rewriting ((rt_initialize rwr)\<lparr> rt_Base := Some rt \<rparr>))) \<rparr>"

section \<open>Handler and round tripper\<close>

text \<open>The same proxy in both forms, and a request that is meant for its target.\<close>

definition same_proxy :: "Handler \<Rightarrow> RoundTripper \<Rightarrow> bool" where
  "same_proxy h rt \<longleftrightarrow> rt_ProxyMode rt = h_ProxyMode h \<and> rt_Rewriter rt = Some (h_Rules h)"

definition meant_for :: "Handler \<Rightarrow> http_request \<Rightarrow> bool" where
  "meant_for h req \<longleftrightarrow> (\<exists>url. req_URL req = Some url \<and> url_Scheme url = h_TargetScheme h \<and> url_Host url = h_TargetHost h)"

definition do_of :: "base_transport \<Rightarrow> (http_request \<Rightarrow> nat list) \<Rightarrow> transport" where
  "do_of base reads r = (case base r of Inl err \<Rightarrow> Inl err | Inr resp \<Rightarrow> Inr (resp, reads r))"

definition failed :: "ResponseWriter \<Rightarrow> bool" where
  "failed w \<longleftrightarrow> (\<exists>st hd. rw_head w = Some (st, hd) \<and> st \<in> {400, 500, 502})"

lemma to_target_clone: "meant_for h req \<Longrightarrow> to_target h req = cloneRequest req"
  by (auto simp: meant_for_def to_target_def cloneRequest_def)

lemma http_Error_failed: "ready_writer w \<Longrightarrow> st \<in> {400, 500, 502} \<Longrightarrow> failed (http_Error w msg st)"
  by (auto simp: failed_def http_Error_def ready_writer_def rw_Write_def WriteHeader_def Let_def)

text \<open>What either form makes of a response that is JSON.\<close>

lemma rewriteResponse_agrees:
  assumes "ready_writer w"
    and "\<And>d rest t. encodingAwareReaderWrap (env_codec E) (resp_Body resp) (header_Get (resp_Header resp) ''Content-Encoding'') = Inr (d, rest) \<Longrightarrow>
      ReadAll d = Inr t \<Longrightarrow> gjson_ValidBytes (env_json E) (Some t)"
  shows "case fst (rewriteResponse E mode rr prov ctx resp tr) of
      Inl _ \<Rightarrow> failed (fst (transformResponse E mode rr prov' ctx' tr w resp))
    | Inr resp' \<Rightarrow> \<exists>b. ReadAll (resp_Body resp') = Inr b \<and> resp_ContentLength resp' = int (length b) \<and>
        (b \<noteq> [] \<longrightarrow> answered (fst (transformResponse E mode rr prov' ctx' tr w resp)) (resp_StatusCode resp') b)"
proof (cases "encodingAwareReaderWrap (env_codec E) (resp_Body resp) (header_Get (resp_Header resp) ''Content-Encoding'')")
  case (Inl e)
  then show ?thesis using http_Error_failed [OF assms(1)] by (simp add: rewriteResponse_def transformResponse_def Let_def)
next
  case (Inr dr)
  obtain d rest where dr: "dr = (d, rest)" by (cases dr)
  show ?thesis
  proof (cases "ReadAll d")
    case Inl
    then show ?thesis using Inr dr http_Error_failed [OF assms(1)] by (simp add: rewriteResponse_def transformResponse_def Let_def)
  next
    fix t
    assume t: "ReadAll d = Inr t"
    have v: "gjson_ValidBytes (env_json E) (Some t)" using assms(2) Inr dr t by blast
    have a: "answered (fst (case writeResponse p w (resp_Header resp) st (Some b) of (w, ops) \<Rightarrow> (w, f ops))) st b" for p st b and f :: "metric_op list \<Rightarrow> metric_op list"
      using writeResponse_answers [OF assms(1), of p "resp_Header resp" st b] by (auto split: prod.split)
    show ?thesis
    proof (cases "RewriteJSONPayload (env_json E) (env_order E) rr (Some t) (FromTargetAction mode)")
      case (Inl e)
      then show ?thesis
        using Inr dr t v a http_Error_failed [OF assms(1)]
        by (simp add: rewriteResponse_def transformResponse_def Let_def replaceResponseBody_def)
    next
      fix y
      assume "RewriteJSONPayload (env_json E) (env_order E) rr (Some t) (FromTargetAction mode) = Inr y"
      then show ?thesis
        using Inr dr t v a by (cases y) (simp_all add: rewriteResponse_def transformResponse_def Let_def replaceResponseBody_def)
    qed
  qed
qed

lemma RoundTrip_rewrites:
  assumes "rt_Rewriter rt = Some rr" and "NewTargetRequest (env_selectors E) rr (map_option URL.truncate (req_URL req)) = Some tr"
    and "transformRequest E (rt_ProxyMode rt) rr tr (cloneRequest req) = Inr (r, orig, rwr)"
    and "rt_base DT rt (r\<lparr> req_Body := request_body rwr orig (req_Body r) \<rparr>) = Inr resp" and "tr_ShouldRewriteResponse tr" and "\<not> tr_IsWatch tr"
  shows "\<exists>prov ctx. fst (RoundTrip E DT rt (Some req)) =
    (case fst (rewriteResponse E (rt_ProxyMode rt) rr prov ctx resp tr) of Inl e \<Rightarrow> Inl e | Inr r \<Rightarrow> Inr (r, Stopped))"
proof -
  let ?prov = "case rt_MetricsProvider rt of Some p \<Rightarrow> p | None \<Rightarrow> NewMetricsProvider"
  let ?ctx = "ContextWithDecision (ContextWithStatus (ContextWithCommon [] (rt_Name rt) (tr_ResourceForLog tr) (req_Method req) (WatchLabel (tr_IsWatch tr))
            (action_text (ToTargetAction (rt_ProxyMode rt))) (action_text (FromTargetAction (rt_ProxyMode rt)))) (resp_StatusCode resp)) decisionRewrite"
  obtain x ops where "rewriteResponse E (rt_ProxyMode rt) rr ?prov ?ctx resp tr = (x, ops)" by fastforce
  with assms show ?thesis by (intro exI [of _ ?prov] exI [of _ ?ctx]) (cases x; simp add: RoundTrip_def Let_def)
qed

lemma ServeHTTP_rewrites:
  assumes "NewTargetRequest (env_selectors E) (h_Rules h) (map_option URL.truncate (req_URL req)) = Some tr"
    and "transformRequest E (h_ProxyMode h) (h_Rules h) tr (to_target h req) = Inr (r, orig, rwr)"
    and "Do (r\<lparr> req_Body := request_body rwr orig (req_Body r) \<rparr>) = Inr (resp, reads)" and "tr_ShouldRewriteResponse tr" and "\<not> tr_IsWatch tr"
  shows "\<exists>prov ctx. oc_writer (ServeHTTP E h Do w (Some req)) = fst (transformResponse E (h_ProxyMode h) (h_Rules h) prov ctx tr w resp)"
proof -
  let ?ctx = "ContextWithDecision (ContextWithStatus (ContextWithCommon [] (h_Name h) (tr_ResourceForLog tr) (req_Method req) (WatchLabel (tr_IsWatch tr))
            (action_text (ToTargetAction (h_ProxyMode h))) (action_text (FromTargetAction (h_ProxyMode h)))) (resp_StatusCode resp)) decisionRewrite"
  obtain w' ops where "transformResponse E (h_ProxyMode h) (h_Rules h) (provider_of h) ?ctx tr w resp = (w', ops)" by fastforce
  with assms show ?thesis
    by (intro exI [of _ "provider_of h"] exI [of _ ?ctx]) (simp add: ServeHTTP_def respond_def to_target_def Let_def)
qed


definition sample_roundtripper :: "base_transport \<Rightarrow> RoundTripper" where
  "sample_roundtripper base = (NewProxyRoundTripper ''api'' ToRenamed (rr_Init sample_rules))\<lparr> rt_Base := Some base \<rparr>"

definition pod_server :: base_transport where
  "pod_server r = Inr (sample_answer (print sample_pod))"

definition sample_get :: http_request where
  "sample_get = (sample_http ''GET'' ''/api/v1/namespaces/n/pods/p'' None)
     \<lparr> req_URL := Some ((sample_url ''/api/v1/namespaces/n/pods/p'')\<lparr> url_Scheme := ''https'', url_Host := ''kubernetes'' \<rparr>) \<rparr>"


text \<open>The round tripper keeps a body that is not JSON.\<close>

lemma rewriteResponse_non_json:
  assumes "encodingAwareReaderWrap (env_codec E) (resp_Body resp) (header_Get (resp_Header resp) ''Content-Encoding'') = Inr (d, rest)"
    and "ReadAll d = Inr t" and "\<not> gjson_ValidBytes (env_json E) (Some t)"
  shows "\<exists>resp'. fst (rewriteResponse E mode rr prov ctx resp tr) = Inr resp' \<and> ReadAll (resp_Body resp') = Inr t \<and> resp_StatusCode resp' = resp_StatusCode resp"
  using assms by (simp add: rewriteResponse_def replaceResponseBody_def Let_def)

section \<open>Watches\<close>

interpretation pipe: event_sink pipe_sink "\<lambda>p. concat (pipe_chunks p)" "\<lambda>p. \<not> pipe_closed p"
  by unfold_locales (simp_all add: pipe_sink_def pipe_Write_def)

text \<open>
  C11. Watches through the round tripper: the body the client reads has the same bytes as the one the
  handler writes, is complete exactly when the handler has returned, and carries no length and no
  encoding.
\<close>

theorem roundtripper_watch_equals_handler:
  assumes "ready_writer w" and "createWatchDecoder (env_watch E) (resp_Body resp) (header_Get (resp_Header resp) ''Content-Type'') = Inr rs"
  shows "\<exists>resp' st w' ops ops' cs. rewriteWatchResponse E rr prov ctx resp = ((resp', st), ops) \<and>
    Handle (env_json E) (env_order E) rr (env_watch E) prov ctx w resp = Inr (st, w', ops') \<and>
    resp_Body resp' = Body cs None \<and> concat cs = rw_body w' \<and> resp_ContentLength resp' = -1 \<and>
    header_Values (resp_Header resp') ''Content-Length'' = [] \<and> header_Values (resp_Header resp') ''Content-Encoding'' = []"
proof -
  let ?s = "\<lparr> sr_counter = Counting BytesCounterReaderWrap, sr_done = False \<rparr>" and ?p = "NewProxyMetrics ctx prov"
  let ?h = "header_Del (header_Del (resp_Header resp) ''Content-Length'') ''Content-Encoding''"
  let ?hd = "(resp_StatusCode resp, copyHeader (rw_header w) (resp_Header resp))"
  let ?st = "if list_ex ends rs then Stopped else Waiting"
  let ?out = "concat (map (sent (env_watch E)) (List.map_filter (watch_result (env_json E) (env_order E) rr ?p) (stream_events rs)))"
  have d: "\<not> sr_done ?s" by simp
  have c: "header_Get ?h ''Content-Type'' = header_Get (resp_Header resp) ''Content-Type''" by (simp add: header_Get_def)
  have e: "header_Values ?h ''Content-Length'' = []" "header_Values ?h ''Content-Encoding'' = []" by simp_all
  have u: "head_sent ?hd (copyHeaders w resp)" "rw_body (copyHeaders w resp) = []"
    using assms(1) by (simp_all add: head_sent_def copyHeaders_def WriteHeader_def ready_writer_def)
  obtain s1 w1 o1 where 1: "start (env_json E) (env_order E) rr (env_watch E) response_sink ?p ?s rs (copyHeaders w resp) = (?st, s1, w1, o1)" "rw_body w1 = ?out"
    using response.start_ok [OF u(1) d, of "env_json E" "env_order E" rr "env_watch E" ?p rs] u(2) by auto
  have np: "\<not> pipe_closed \<lparr> pipe_chunks = [], pipe_closed = False \<rparr>" by simp
  obtain s2 p2 o2 where 2: "start (env_json E) (env_order E) rr (env_watch E) pipe_sink ?p ?s rs \<lparr> pipe_chunks = [], pipe_closed = False \<rparr> = (?st, s2, p2, o2)"
    "concat (pipe_chunks p2) = ?out"
    using pipe.start_ok [OF np d, of "env_json E" "env_order E" rr "env_watch E" ?p rs] by auto
  have "Handle (env_json E) (env_order E) rr (env_watch E) prov ctx w resp = Inr (?st, w1, o1)"
    using 1(1) assms(2) by (simp add: Handle_def init_stream_def)
  moreover have "rewriteWatchResponse E rr prov ctx resp =
      ((resp\<lparr> resp_ContentLength := -1, resp_Header := ?h, resp_Body := Body (pipe_chunks p2) None \<rparr>, ?st), o2)"
    using 2(1) assms(2) c by (simp add: rewriteWatchResponse_def Rewrite_def init_stream_def Let_def)
  ultimately show ?thesis using 1(2) 2(2) e by auto
qed

theorem roundtripper_watch_equals_handler_witness:
  "\<exists>resp' st w' ops ops' cs. rewriteWatchResponse ref_env (rr_Init sample_rules) NewMetricsProvider [] sample_stream = ((resp', st), ops) \<and>
    Handle ref_lib insertion_order (rr_Init sample_rules) ref_watch NewMetricsProvider [] (fresh_writer []) sample_stream = Inr (st, w', ops') \<and>
    resp_Body resp' = Body cs None \<and> concat cs = rw_body w'"
proof -
  have "\<exists>rs. createWatchDecoder (env_watch ref_env) (resp_Body sample_stream) (header_Get (resp_Header sample_stream) ''Content-Type'') = Inr rs"
    by (simp add: createWatchDecoder_def ref_env_def ref_watch_def sample_stream_def header_Get_def header_Values_def)
  then obtain rs where "createWatchDecoder (env_watch ref_env) (resp_Body sample_stream) (header_Get (resp_Header sample_stream) ''Content-Type'') = Inr rs" ..
  from roundtripper_watch_equals_handler [OF _ this, of "fresh_writer []" "rr_Init sample_rules" NewMetricsProvider "[]"] show ?thesis
    by (fastforce simp: ref_env_def)
qed

section \<open>Wrapping a client\<close>

text \<open>The transport a wrapped client uses has the wrapper that was there before underneath.\<close>

lemma WrapRESTConfig_keeps_previous:
  assumes "cfg_WrapTransport cfg = Some prev"
  shows "\<exists>f. cfg_WrapTransport (WrapRESTConfig run cfg (Rewriting rwr)) = Some f \<and>
    (\<forall>rt. \<exists>rwr'. f rt = Rewriting rwr' \<and> rt_base DT rwr' = wrapper_base (prev rt) run \<and> rt_Rewriter rwr' = rt_Rewriter rwr)"
  using assms by (auto simp: WrapRESTConfig_def rt_base_def rt_initialize_def Let_def)

end
