(* ===== verification/Proxy_Metrics.thy ===== *)
theory Proxy_Metrics
  imports Proxy_Handler
begin

text \<open>
  The metrics along a whole request. Every operation the handler and the stream loop record belongs to
  the provider of the handler and adds no negative number, as long as the bodies are shorter than
  \<open>2 ^ 63\<close> bytes: the counter of a body is a signed 64-bit number.
\<close>

definition small :: "nat \<Rightarrow> bool" where
  "small n \<longleftrightarrow> n < 2 ^ 63"

text \<open>A decompressor never leaves more of a body than there was.\<close>

definition codec_shrinks :: "codec \<Rightarrow> bool" where
  "codec_shrinks C \<longleftrightarrow> (\<forall>b d r. gzip_NewReader C b = Inr (d, r) \<longrightarrow> body_size r \<le> body_size b) \<and> (\<forall>b. body_size (snd (flate_NewReader C b)) \<le> body_size b)"

lemma owned_op_simps [simp]:
  fixes ctx prov
  defines "p \<equiv> NewProxyMetrics ctx prov"
  shows "owned_op prov (GotClientRequest p)" "owned_op prov (TargetResponseError p)" "owned_op prov (RequestHandleSuccess p)"
    "owned_op prov (RequestHandleError p)" "owned_op prov (RequestDuration p)" "owned_op prov (TargetResponseRewriteError p)"
    "owned_op prov (TargetResponseRewriteSuccess p)" "owned_op prov (ClientRequestRewriteError p)" "owned_op prov (ClientRequestRewriteSuccess p)"
    "owned_op prov (TargetResponseRewriteDuration p)" "owned_op prov (TargetResponseSuccess p d)" "owned_op prov (TargetResponseInvalidJSON p st)"
    "0 \<le> n \<Longrightarrow> owned_op prov (FromClientBytesAdd p d n)" "0 \<le> n \<Longrightarrow> owned_op prov (ToTargetBytesAdd p d n)"
    "0 \<le> n \<Longrightarrow> owned_op prov (FromTargetBytesAdd p n)" "0 \<le> n \<Longrightarrow> owned_op prov (ToClientBytesAdd p n)"
proof -
  have o: "owned_op prov op" if "op \<in> proxy_ops p" for op
    using that by (auto simp: owned_op_def p_def NewProxyMetrics_def intro!: exI [of _ p])
  show "owned_op prov (GotClientRequest p)" "owned_op prov (TargetResponseError p)" "owned_op prov (RequestHandleSuccess p)"
    "owned_op prov (RequestHandleError p)" "owned_op prov (RequestDuration p)" "owned_op prov (TargetResponseRewriteError p)"
    "owned_op prov (TargetResponseRewriteSuccess p)" "owned_op prov (ClientRequestRewriteError p)" "owned_op prov (ClientRequestRewriteSuccess p)"
    "owned_op prov (TargetResponseRewriteDuration p)" "owned_op prov (TargetResponseSuccess p d)" "owned_op prov (TargetResponseInvalidJSON p st)"
    "0 \<le> n \<Longrightarrow> owned_op prov (FromClientBytesAdd p d n)" "0 \<le> n \<Longrightarrow> owned_op prov (ToTargetBytesAdd p d n)"
    "0 \<le> n \<Longrightarrow> owned_op prov (FromTargetBytesAdd p n)" "0 \<le> n \<Longrightarrow> owned_op prov (ToClientBytesAdd p n)"
    by (rule o; auto simp: proxy_ops_def)+
qed

lemma count_nonneg: "small (sum_list ls) \<Longrightarrow> 0 \<le> CounterValue (Counting (bc_reads ls BytesCounterReaderWrap))"
  using counter_value [of ls BytesCounterReaderWrap] by (simp add: small_def BytesCounterReaderWrap_def bc_Reset_def)

lemma copy_loop_reads: "copy_loop w cs e ls = (w', err, ls') \<Longrightarrow> sum_list ls' \<le> sum_list ls + sum_list (map length cs)"
proof (induction w cs e ls arbitrary: w' rule: copy_loop.induct)
  case (2 w c cs e ls)
  then show ?case by (fastforce split: if_splits prod.splits option.splits)
qed simp

lemma passResponse_owned: "small (body_size (resp_Body resp)) \<Longrightarrow> list_all (owned_op prov) (snd (passResponse prov ctx w resp))"
proof -
  assume s: "small (body_size (resp_Body resp))"
  obtain cs e where b: "resp_Body resp = Body cs e" by (cases "resp_Body resp")
  let ?w = "WriteHeader (w\<lparr> rw_header := copyHeader (rw_header w) (resp_Header resp) \<rparr>) (resp_StatusCode resp)"
  obtain w' err ls where c: "copy_loop ?w cs e [] = (w', err, ls)" by (cases "copy_loop ?w cs e []")
  from copy_loop_reads [OF c] s b have "0 \<le> CounterValue (Counting (bc_reads ls BytesCounterReaderWrap))"
    by (intro count_nonneg) (simp add: small_def)
  with c b show ?thesis by (auto simp: passResponse_def Copy_def Let_def split: option.split)
qed

lemma writeResponse_owned: "list_all (owned_op prov) (snd (writeResponse (NewProxyMetrics ctx prov) w h st b))"
  by (auto simp: writeResponse_def Let_def split: option.split prod.split)

lemma transformResponse_owned:
  assumes "codec_shrinks (env_codec E)" and "small (body_size (resp_Body resp))"
  shows "list_all (owned_op prov) (snd (transformResponse E mode rr prov ctx tr w resp))"
proof (cases "encodingAwareReaderWrap (env_codec E) (resp_Body resp) (header_Get (resp_Header resp) ''Content-Encoding'')")
  case (Inl e)
  then show ?thesis by (simp add: transformResponse_def Let_def)
next
  case (Inr dr)
  obtain d rest where dr: "dr = (d, rest)" by (cases dr)
  have r: "body_size rest \<le> body_size (resp_Body resp)"
    using assms(1) Inr dr unfolding codec_shrinks_def encodingAwareReaderWrap_def
    by (auto split: if_splits sum.splits dest: spec [of _ "resp_Body resp"])
  then have s: "small (body_size rest)" "0 \<le> CounterValue (counted_reads (resp_Body resp) rest)"
    using assms(2) count_nonneg [of "[body_size (resp_Body resp) - body_size rest]"] by (simp_all add: small_def counted_reads_def)
  then show ?thesis
    using Inr dr passResponse_owned [of "resp\<lparr> resp_Body := rest \<rparr>" prov ctx w] writeResponse_owned [of prov ctx w "resp_Header resp"]
    by (auto simp: transformResponse_def Let_def split: sum.split prod.split option.split) (metis snd_conv)+
qed

section \<open>Streams\<close>

lemma writeEvent_owned: "list_all (owned_op prov) (snd (writeEvent W K (NewProxyMetrics ctx prov) ev w))"
  by (auto simp: writeEvent_def split: sum.split prod.split option.split)

lemma handle_round_owned: "list_all (owned_op prov) (snd (handle_round L ord rr W K (NewProxyMetrics ctx prov) got w))"
proof (cases got)
  case (Some ev)
  have "list_all (owned_op prov) (snd (transformWatchEvent L ord rr (NewProxyMetrics ctx prov) ev))"
    by (auto simp: transformWatchEvent_def Let_def split: sum.split)
  then show ?thesis
    using Some writeEvent_owned [of prov W K ctx]
    by (auto simp: handle_round_def split: sum.split prod.split) (metis snd_conv)+
qed (simp add: handle_round_def)

definition rounds_small :: "round list \<Rightarrow> bool" where
  "rounds_small rs \<longleftrightarrow> list_all (\<lambda>r. small (sum_list (rd_reads r))) rs"

lemma start_owned:
  assumes "rounds_small rs" and "sr_counter s = Counting BytesCounterReaderWrap"
  shows "list_all (owned_op prov) (snd (snd (snd (start L ord rr W K (NewProxyMetrics ctx prov) s rs w))))"
  using assms
proof (induction rs arbitrary: s w)
  case (Cons r rs)
  let ?p = "NewProxyMetrics ctx prov" and ?s = "s\<lparr> sr_counter := Counting BytesCounterReaderWrap \<rparr>"
  have c: "0 \<le> CounterValue (Counting (bc_reads (rd_reads r) BytesCounterReaderWrap))"
    using Cons.prems(1) by (intro count_nonneg) (simp add: rounds_small_def)
  have z: "CounterReset (Counting (bc_reads ls BytesCounterReaderWrap)) = Counting BytesCounterReaderWrap" for ls
    by (simp add: bc_Reset_def BytesCounterReaderWrap_def)
  have h: "handle_round L ord rr W K ?p got w = (w', ops) \<Longrightarrow> list_all (owned_op prov) ops" for got w' ops
    using handle_round_owned [of prov L ord rr W K ctx got w] by simp
  have i: "start L ord rr W K ?p ?s rs w' = (st, s', w'', ops) \<Longrightarrow> list_all (owned_op prov) ops" for w' st s' w'' ops
    using Cons.IH [of ?s w'] Cons.prems(1) by (simp add: rounds_small_def)
  show ?case
    using Cons.prems(2) c by (auto simp: Let_def z split: decoded.split prod.split dest: h i simp del: CounterValue.simps CounterReset.simps)
qed simp

section \<open>The whole request\<close>

definition stream_small :: "('r, 'i) env \<Rightarrow> http_response \<Rightarrow> bool" where
  "stream_small E resp \<longleftrightarrow>
     (case createWatchDecoder (env_watch E) (resp_Body resp) (header_Get (resp_Header resp) ''Content-Type'') of Inl _ \<Rightarrow> True | Inr rs \<Rightarrow> rounds_small rs)"

lemma transformStream_owned:
  assumes "stream_small E resp"
  shows "list_all (owned_op prov) (snd (snd (transformStream E rr prov ctx w resp)))"
proof (cases "createWatchDecoder (env_watch E) (resp_Body resp) (header_Get (resp_Header resp) ''Content-Type'')")
  case (Inr rs)
  let ?s = "\<lparr> sr_counter = Counting BytesCounterReaderWrap, sr_done = False \<rparr>"
  have "list_all (owned_op prov) (snd (snd (snd (start (env_json E) (env_order E) rr (env_watch E) response_sink (NewProxyMetrics ctx prov) ?s rs (copyHeaders w resp)))))"
    by (rule start_owned) (use assms Inr in \<open>simp_all add: stream_small_def\<close>)
  then show ?thesis using Inr by (auto simp: transformStream_def Handle_def init_stream_def split: prod.split)
qed (simp add: transformStream_def Handle_def init_stream_def)

lemma respond_owned:
  assumes "codec_shrinks (env_codec E)" and "small (body_size (resp_Body resp))" and "stream_small E resp"
  shows "list_all (owned_op (provider_of h)) (snd (snd (respond E h ctx tr w resp)))"
  using passResponse_owned [OF assms(2)] transformResponse_owned [OF assms(1,2)] transformStream_owned [OF assms(3)]
  by (auto simp: respond_def Let_def split: prod.split status.split) (metis snd_conv)+

lemma ServeHTTP_owned:
  assumes "codec_shrinks (env_codec E)"
    and "\<And>r resp reads. Do r = Inr (resp, reads) \<Longrightarrow> small (sum_list reads) \<and> small (body_size (resp_Body resp)) \<and> stream_small E resp"
  shows "list_all (owned_op (provider_of h)) (oc_metrics (ServeHTTP E h Do w req))"
proof -
  have c: "0 \<le> CounterValue (sent_counter rwr orig reads)" if "small (sum_list reads)" for rwr orig reads
    using count_nonneg [OF that] by (simp add: sent_counter_def)
  have r: "respond E h ctx tr w resp = (st, w', ops) \<Longrightarrow> Do q = Inr (resp, reads) \<Longrightarrow> list_all (owned_op (provider_of h)) ops" for ctx tr resp st w' ops q reads
    using respond_owned [OF assms(1), of resp h ctx tr w] assms(2) [of q resp reads] by simp
  show ?thesis
    using c assms(2) by (auto simp: ServeHTTP_def Let_def split: option.split sum.split prod.split dest: r)
qed

text \<open>
  Counting never breaks a request: whatever the request, the answer and the stream, as long as the
  bodies are shorter than \<open>2 ^ 63\<close> bytes, all metric operations of the handler succeed on every
  registry with the provider it creates by default, and no counter goes down.
\<close>

theorem handler_metrics_total:
  assumes "codec_shrinks (env_codec E)" and "h_MetricsProvider h = None"
    and "\<And>r resp reads. Do r = Inr (resp, reads) \<Longrightarrow> small (sum_list reads) \<and> small (body_size (resp_Body resp)) \<and> stream_small E resp"
  shows "\<exists>reg'. run_ops (oc_metrics (ServeHTTP E h Do w req)) reg = Some reg' \<and> (\<forall>s. series_value reg s \<le> series_value reg' s)"
proof -
  have "provider_of h = proxyMetricsProvider" using assms(2) by (simp add: provider_of_def h_Init_def NewMetricsProvider_def)
  then show ?thesis
    using default_metrics.run_ops_total [of "oc_metrics (ServeHTTP E h Do w req)" reg] ServeHTTP_owned [of E Do h w req] assms(1,3) by simp
qed

theorem handler_metrics_total_witness:
  "\<exists>reg'. run_ops (oc_metrics (ServeHTTP ref_env sample_handler (\<lambda>_. Inr (sample_answer ''{}'', [])) (fresh_writer [])
     (Some (sample_http ''GET'' ''/api/v1/namespaces/n/pods/p'' None)))) Map.empty = Some reg' \<and> (\<forall>s. series_value Map.empty s \<le> series_value reg' s)"
proof (rule handler_metrics_total)
  show "codec_shrinks (env_codec ref_env)" by (simp add: ref_env_def codec_shrinks_def)
  show "h_MetricsProvider sample_handler = None" by (simp add: sample_handler_def)
  fix r resp reads
  assume "(Inr (sample_answer ''{}'', []) :: (http_response \<times> nat list) res) = Inr (resp, reads)"
  then have "resp = sample_answer ''{}''" "reads = []" by simp_all
  then show "small (sum_list reads) \<and> small (body_size (resp_Body resp)) \<and> stream_small ref_env resp"
    by (simp add: small_def stream_small_def createWatchDecoder_def ref_env_def ref_watch_def sample_answer_def header_Get_def header_Values_def rounds_small_def)
qed

end
