(* ===== verification/Concurrent_Requests.thy ===== *)
theory Concurrent_Requests
  imports Proxy_Metrics
begin

text \<open>
  Requests at the same time. \<^verbatim>\<open>net/http\<close> serves every request in a goroutine of its own; the rules and the
  handler are only read, so that what the requests share is the registry of the metrics, whose
  operations are atomic. A step takes the next metric operation of one of the requests in flight.

  Shown: no interleaving of any requests makes an operation panic, every run ends, and in the end every
  series holds what it held before and the contributions of all requests, whatever the order.
\<close>

section \<open>The contribution of an operation\<close>

fun op_value :: "metric_op \<Rightarrow> metric_vec \<times> string list \<Rightarrow> nat" where
  "op_value (Touch m) s = 0"
| "op_value (Inc m) s = (if m = WithLabelValues (fst s) (snd s) then 1 else 0)"
| "op_value (Add m n) s = (if m = WithLabelValues (fst s) (snd s) then nat n else 0)"
| "op_value (Observe m) s = (if m = WithLabelValues (fst s) (snd s) then 1 else 0)"

definition ops_value :: "metric_op list \<Rightarrow> metric_vec \<times> string list \<Rightarrow> nat" where
  "ops_value ops s = sum_list (map (\<lambda>op. op_value op s) ops)"

lemma ops_value_simps [simp]: "ops_value [] s = 0" "ops_value (op # ops) s = op_value op s + ops_value ops s"
  by (simp_all add: ops_value_def)

lemma run_op_value: "run_op op reg = Some reg' \<Longrightarrow> series_value reg' s = series_value reg s + op_value op s"
proof (cases op)
  case (Touch m)
  then show "run_op op reg = Some reg' \<Longrightarrow> ?thesis" by (cases m) (auto simp: series_value_add simp del: add_to.simps)
qed (auto simp: series_value_add simp del: add_to.simps split: if_splits)

section \<open>Requests in flight\<close>

type_synonym in_flight = "metric_op list list \<times> registry option"

inductive serves :: "in_flight \<Rightarrow> in_flight \<Rightarrow> bool" where
  next_op: "i < length qs \<Longrightarrow> qs ! i = op # ops \<Longrightarrow> serves (qs, Some reg) (qs[i := ops], run_op op reg)"

definition pending_value :: "metric_op list list \<Rightarrow> metric_vec \<times> string list \<Rightarrow> nat" where
  "pending_value qs s = sum_list (map (\<lambda>ops. ops_value ops s) qs)"

definition pending_ops :: "metric_op list list \<Rightarrow> nat" where
  "pending_ops qs = sum_list (map length qs)"

lemma sum_list_map_update:
  fixes f :: "'a \<Rightarrow> nat"
  assumes "i < length xs" and "f (xs ! i) = n + f y"
  shows "sum_list (map f xs) = n + sum_list (map f (xs[i := y]))"
  using assms by (induction xs arbitrary: i) (auto split: nat.split simp: nth_Cons)

lemma pending_step:
  assumes "i < length qs" and "qs ! i = op # ops"
  shows "pending_value qs s = op_value op s + pending_value (qs[i := ops]) s" and "pending_ops qs = Suc (pending_ops (qs[i := ops]))"
  using sum_list_map_update [OF assms(1), of "\<lambda>ops. ops_value ops s" "op_value op s" ops] sum_list_map_update [OF assms(1), of length 1 ops] assms(2)
  by (simp_all add: pending_value_def pending_ops_def)

text \<open>What holds after every step: no panic, and what is counted and what is pending add up.\<close>

definition flight_inv :: "MetricsProvider \<Rightarrow> in_flight \<Rightarrow> in_flight \<Rightarrow> bool" where
  "flight_inv prov = (\<lambda>(qs0, r0) (qs, r). list_all (list_all (owned_op prov)) qs \<and>
     (\<exists>reg0 reg. r0 = Some reg0 \<and> r = Some reg \<and> (\<forall>s. series_value reg s + pending_value qs s = series_value reg0 s + pending_value qs0 s)))"

context metrics_provider
begin

lemma serves_inv:
  assumes "serves st st'" and "flight_inv prov st0 st"
  shows "flight_inv prov st0 st'"
  using assms(1)
proof cases
  case (next_op i qs op ops reg)
  obtain qs0 r0 where st0: "st0 = (qs0, r0)" by (cases st0)
  with assms(2) next_op(1) obtain reg0 where inv: "list_all (list_all (owned_op prov)) qs" "r0 = Some reg0"
    "\<And>s. series_value reg s + pending_value qs s = series_value reg0 s + pending_value qs0 s" by (auto simp: flight_inv_def)
  have "list_all (owned_op prov) (qs ! i)" using inv(1) next_op(3) by (simp add: list_all_length)
  then have o: "owned_op prov op" "list_all (owned_op prov) ops" using next_op(4) by simp_all
  then obtain reg' where reg': "run_op op reg = Some reg'" using op_total [of _ op reg] by (fastforce simp: owned_op_def)
  have "list_all (list_all (owned_op prov)) (qs[i := ops])"
    using inv(1) o(2) by (auto simp: list_all_iff dest: set_update_subset_insert [THEN subsetD])
  moreover have "series_value reg' s + pending_value (qs[i := ops]) s = series_value reg0 s + pending_value qs0 s" for s
    using run_op_value [OF reg', of s] pending_step(1) [OF next_op(3,4), of s] inv(3) [of s] by simp
  ultimately show ?thesis using next_op(2) reg' inv(2) st0 by (simp add: flight_inv_def)
qed

lemma reachable_inv:
  assumes "serves\<^sup>*\<^sup>* (qs0, Some reg0) st" and "list_all (list_all (owned_op prov)) qs0"
  shows "flight_inv prov (qs0, Some reg0) st"
  using assms(1)
proof (induction rule: rtranclp_induct)
  case base
  then show ?case using assms(2) by (simp add: flight_inv_def)
next
  case (step st st')
  show ?case by (rule serves_inv [OF step(2,3)])
qed

end

text \<open>Every step uses up an operation.\<close>

lemma serves_steps: "(serves ^^ n) st st' \<Longrightarrow> n + pending_ops (fst st') = pending_ops (fst st)"
proof (induction n arbitrary: st')
  case (Suc n)
  then obtain st1 where s: "(serves ^^ n) st st1" "serves st1 st'" by auto
  from s(2) have "pending_ops (fst st1) = Suc (pending_ops (fst st'))" by cases (auto simp: pending_step(2))
  with Suc.IH [OF s(1)] show ?case by simp
qed auto

lemma serves_progress: "pending_ops qs \<noteq> 0 \<Longrightarrow> \<exists>st. serves (qs, Some reg) st"
proof -
  assume "pending_ops qs \<noteq> 0"
  then obtain i where "i < length qs" "length (qs ! i) \<noteq> 0" by (auto simp: pending_ops_def in_set_conv_nth)
  then show ?thesis by (cases "qs ! i") (auto intro: next_op)
qed



end
