(* ===== verification/Table_Output.thy ===== *)
theory Table_Output
  imports Prelude
begin

text \<open>
  The table output of the example client, \<^verbatim>\<open>examples/get-kubevirt-vm/main.go\<close>: rows are read from typed
  Kubernetes objects by reflection and aligned by Go's \<^verbatim>\<open>text/tabwriter\<close>.

  A Go value is what \<^verbatim>\<open>reflect\<close> sees of it: its kind, what it holds, and for structs whether the type or
  only the pointer to it has the methods of \<^verbatim>\<open>metav1.Object\<close>, with what they answer. The fields of a
  struct include the promoted ones. \<open>None\<close> is a panic. The text of a value that is not a scalar is
  left to \<^verbatim>\<open>fmt\<close>, a parameter.

  The tab writer is modelled with the parameters of the program (no minimal width, two blanks of
  padding, no flags) for texts without its escape character and without vertical tabs and form feeds.
  Standard output is a parameter: how it takes a text, and whether that fails. The text of one
  \<^verbatim>\<open>Flush\<close> is written at once.

  Shown: the columns of a table are aligned and at least two blanks apart; a list has one row per item
  in order; what \<^verbatim>\<open>tableRows\<close> answers to every kind of value.
\<close>

section \<open>Values under reflection\<close>

datatype methods = NoMethods | PointerMethods string string | ValueMethods string string

datatype goval =
    Invalid
  | Pointer "goval option"
  | Interface "goval option"
  | Slice "goval list"
  | Struct methods "(string \<times> goval) list"
  | GoMap "(string \<times> goval) list"
  | Scalar string

text \<open>
  The loop through pointers and interfaces: \<open>None\<close> when a nil is met, else the value behind with its
  addressability.
\<close>

fun indirect :: "bool \<Rightarrow> goval \<Rightarrow> (bool \<times> goval) option" where
  "indirect canAddr (Pointer None) = None"
| "indirect canAddr (Pointer (Some v)) = indirect True v"
| "indirect canAddr (Interface None) = None"
| "indirect canAddr (Interface (Some v)) = indirect False v"
| "indirect canAddr v = Some (canAddr, v)"

text \<open>\<^verbatim>\<open>FieldByName\<close> panics on everything but structs, and answers the invalid value to an unknown name.\<close>

fun FieldByName :: "goval \<Rightarrow> string \<Rightarrow> goval option" where
  "FieldByName (Struct m fs) name = Some (case map_of fs name of None \<Rightarrow> Invalid | Some v \<Rightarrow> v)"
| "FieldByName _ name = None"

fun Sprint :: "(goval \<Rightarrow> string) \<Rightarrow> goval \<Rightarrow> string" where
  "Sprint other (Scalar s) = s"
| "Sprint other v = other v"

definition phaseFromValue :: "(goval \<Rightarrow> string) \<Rightarrow> goval \<Rightarrow> string option" where
  "phaseFromValue other value =
     (case FieldByName value ''Status'' of
       None \<Rightarrow> None
     | Some status \<Rightarrow>
         if status = Invalid then Some []
         else (case FieldByName status ''Phase'' of
           None \<Rightarrow> None
         | Some phase \<Rightarrow> if phase = Invalid then Some [] else Some (Sprint other phase)))"

definition no_meta :: "'a res" where
  "no_meta = Inl (Errorf ''object does not implement metav1.Object'')"

text \<open>The name and the namespace that the object answers with.\<close>

fun valueAsMetaObject :: "bool \<Rightarrow> goval \<Rightarrow> (string \<times> string) res" where
  "valueAsMetaObject canAddr Invalid = Inl (Errorf ''invalid object'')"
| "valueAsMetaObject canAddr (Struct (PointerMethods name namespace) fs) = (if canAddr then Inr (name, namespace) else no_meta)"
| "valueAsMetaObject canAddr (Struct (ValueMethods name namespace) fs) = Inr (name, namespace)"
| "valueAsMetaObject canAddr _ = no_meta"

section \<open>Rows\<close>

record tableRow =
  row_EventType :: string
  row_Name :: string
  row_Namespace :: string
  row_Phase :: string

definition empty_row :: tableRow where
  "empty_row = \<lparr> row_EventType = [], row_Name = [], row_Namespace = [], row_Phase = [] \<rparr>"

definition tableRowForValue :: "(goval \<Rightarrow> string) \<Rightarrow> string \<Rightarrow> bool \<Rightarrow> goval \<Rightarrow> tableRow res option" where
  "tableRowForValue other eventType canAddr value =
     (case indirect canAddr value of
       None \<Rightarrow> Some (Inr empty_row)
     | Some (canAddr, value) \<Rightarrow>
         (case valueAsMetaObject canAddr value of
           Inl err \<Rightarrow> Some (Inl err)
         | Inr (name, namespace) \<Rightarrow>
             map_option (\<lambda>phase. Inr \<lparr> row_EventType = eventType, row_Name = name, row_Namespace = namespace, row_Phase = phase \<rparr>)
               (phaseFromValue other value)))"

text \<open>The loop over the items of a list; they are elements of a slice and addressable.\<close>

fun item_rows :: "(goval \<Rightarrow> string) \<Rightarrow> string \<Rightarrow> goval list \<Rightarrow> tableRow list res option" where
  "item_rows other eventType [] = Some (Inr [])"
| "item_rows other eventType (v # vs) =
     (case tableRowForValue other eventType True v of
       None \<Rightarrow> None
     | Some (Inl err) \<Rightarrow> Some (Inl err)
     | Some (Inr row) \<Rightarrow> map_option (\<lambda>r. res_bind r (\<lambda>rows. Inr (row # rows))) (item_rows other eventType vs))"

definition tableRows :: "(goval \<Rightarrow> string) \<Rightarrow> goval \<Rightarrow> string \<Rightarrow> tableRow list res option" where
  "tableRows other obj eventType =
     (case indirect False obj of
       None \<Rightarrow> Some (Inr [])
     | Some (canAddr, value) \<Rightarrow>
         if value = Invalid then Some (Inr [])
         else (case FieldByName value ''Items'' of
           None \<Rightarrow> None
         | Some (Slice items) \<Rightarrow> item_rows other eventType items
         | Some _ \<Rightarrow> map_option (\<lambda>r. res_bind r (\<lambda>row. Inr [row])) (tableRowForValue other eventType canAddr value)))"

definition tableHeaders :: "bool \<Rightarrow> string list" where
  "tableHeaders includeEventType =
     (if includeEventType then [''TYPE'', ''NAME'', ''NAMESPACE'', ''PHASE''] else [''NAME'', ''NAMESPACE'', ''PHASE''])"

section \<open>The tab writer\<close>

definition tab :: char where "tab = CHR 0x09"
definition eol :: char where "eol = CHR 0x0A"

text \<open>The number of code points of a UTF-8 text: the bytes that do not continue one.\<close>

definition RuneCount :: "string \<Rightarrow> nat" where
  "RuneCount s = length (filter (\<lambda>c. of_char c < (128 :: nat) \<or> (192 :: nat) \<le> of_char c) s)"

definition pad_cell :: "nat \<Rightarrow> string \<Rightarrow> string" where
  "pad_cell w cell = cell @ replicate (w - RuneCount cell) CHR '' ''"

fun write_line :: "nat list \<Rightarrow> string list \<Rightarrow> string" where
  "write_line ws [] = []"
| "write_line [] (c # cs) = c @ write_line [] cs"
| "write_line (w # ws) (c # cs) = pad_cell w c @ write_line ws cs"

text \<open>
  The widths of the columns to the left are known; a column is a block of consecutive lines that have a
  cell there that is followed by a tab.
\<close>

definition in_column :: "nat \<Rightarrow> string list \<Rightarrow> bool" where
  "in_column column line \<longleftrightarrow> Suc column < length line"

definition column_width :: "nat \<Rightarrow> string list list \<Rightarrow> nat" where
  "column_width column block = fold max (map (\<lambda>line. RuneCount (line ! column) + 2) block) 0"

function tw_format :: "nat list \<Rightarrow> string list list \<Rightarrow> string list" where
  "tw_format ws [] = []"
| "tw_format ws (line # lines) =
     (if in_column (length ws) line
      then (let block = takeWhile (in_column (length ws)) (line # lines) in
        tw_format (ws @ [column_width (length ws) block]) block @ tw_format ws (dropWhile (in_column (length ws)) (line # lines)))
      else write_line ws line # tw_format ws lines)"
  by pat_completeness auto

definition tw_size :: "nat \<Rightarrow> string list list \<Rightarrow> nat" where
  "tw_size c lines = sum_list (map (\<lambda>l. Suc (length l - c)) lines)"

lemma tw_size_simps [simp]: "tw_size c [] = 0" "tw_size c (l # ls) = Suc (length l - c) + tw_size c ls"
  by (simp_all add: tw_size_def)

lemma tw_size_block: "tw_size (Suc c) (takeWhile (in_column c) ls) \<le> tw_size c ls"
  by (induction ls) auto

lemma tw_size_rest: "tw_size c (dropWhile P ls) \<le> tw_size c ls"
  by (induction ls) auto

termination tw_format
proof (relation "measure (\<lambda>(ws, ls). tw_size (length ws) ls)", goal_cases)
  case (2 ws line lines block)
  then show ?case using tw_size_block [of "length ws" lines] by (simp add: in_column_def)
next
  case (3 ws line lines block)
  then show ?case using tw_size_rest [of "length ws" "in_column (length ws)" lines] by simp
qed auto

lemma tw_format_in:
  "in_column (length ws) line \<Longrightarrow> tw_format ws (line # lines) =
    tw_format (ws @ [column_width (length ws) (takeWhile (in_column (length ws)) (line # lines))]) (takeWhile (in_column (length ws)) (line # lines)) @
    tw_format ws (dropWhile (in_column (length ws)) (line # lines))"
  by (simp add: Let_def)

lemma tw_format_out: "\<not> in_column (length ws) line \<Longrightarrow> tw_format ws (line # lines) = write_line ws line # tw_format ws lines"
  by simp

declare tw_format.simps(2) [simp del]

text \<open>What is written when a buffered text is flushed.\<close>

definition tw_text :: "string \<Rightarrow> string" where
  "tw_text t = Join (tw_format [] (map (\<lambda>l. Split l tab) (Split t eol))) [eol]"

section \<open>Printing\<close>

type_synonym 'w stdout = "'w \<Rightarrow> string \<Rightarrow> 'w \<times> error option"

fun row_cells :: "bool \<Rightarrow> tableRow \<Rightarrow> string list" where
  "row_cells includeEventType row =
     (if includeEventType then [row_EventType row] else []) @ [row_Name row, row_Namespace row, row_Phase row]"

fun writeTableRows :: "string \<Rightarrow> tableRow list \<Rightarrow> bool \<Rightarrow> string" where
  "writeTableRows tw [] includeEventType = tw"
| "writeTableRows tw (row # rows) includeEventType =
     (if includeEventType
      then writeTableRows (tw @ row_EventType row @ [tab] @ row_Name row @ [tab] @ row_Namespace row @ [tab] @ row_Phase row @ [eol]) rows includeEventType
      else writeTableRows (tw @ row_Name row @ [tab] @ row_Namespace row @ [tab] @ row_Phase row @ [eol]) rows includeEventType)"

definition printTable :: "'w stdout \<Rightarrow> string list \<Rightarrow> tableRow list \<Rightarrow> 'w \<Rightarrow> 'w \<times> error option" where
  "printTable out headers rows w = out w (tw_text (writeTableRows (Join headers [tab] @ [eol]) rows (length headers = 4)))"

definition printTableRows :: "'w stdout \<Rightarrow> tableRow list \<Rightarrow> bool \<Rightarrow> 'w \<Rightarrow> 'w \<times> error option" where
  "printTableRows out rows includeEventType w = out w (tw_text (writeTableRows [] rows includeEventType))"

section \<open>The columns of a table\<close>

lemma RuneCount_simps [simp]: "RuneCount [] = 0" "RuneCount (s @ t) = RuneCount s + RuneCount t" "RuneCount (replicate n CHR '' '') = n"
  by (simp_all add: RuneCount_def)

lemma RuneCount_pad: "RuneCount c \<le> w \<Longrightarrow> RuneCount (pad_cell w c) = w"
  by (simp add: pad_cell_def)

lemma column_width_Max: "block \<noteq> [] \<Longrightarrow> column_width c block = Max (set (map (\<lambda>l. RuneCount (l ! c) + 2) block))"
proof (cases block)
  case (Cons l ls)
  then show ?thesis
    using Max.set_eq_fold [of "RuneCount (l ! c) + 2" "map (\<lambda>l. RuneCount (l ! c) + 2) ls"] by (simp add: column_width_def)
qed simp

lemma column_width_fits: "l \<in> set block \<Longrightarrow> RuneCount (l ! c) + 2 \<le> column_width c block"
  using column_width_Max [of block c] by (cases "block = []") auto

lemma column_width_attained: "block \<noteq> [] \<Longrightarrow> \<exists>l \<in> set block. column_width c block = RuneCount (l ! c) + 2"
  using Max_in [of "set (map (\<lambda>l. RuneCount (l ! c) + 2) block)"] by (simp add: column_width_Max image_iff del: add_2_eq_Suc')

definition widths :: "nat \<Rightarrow> string list list \<Rightarrow> nat list" where
  "widths k block = map (\<lambda>j. column_width j block) [0..<k]"

lemma tw_format_left: "list_all (\<lambda>l. length l = Suc (length ws)) block \<Longrightarrow> tw_format ws block = map (write_line ws) block"
  by (induction block) (auto simp: in_column_def tw_format_out)

lemma tw_format_block:
  "list_all (\<lambda>l. length l = Suc k) block \<Longrightarrow> length ws \<le> k \<Longrightarrow>
    tw_format ws block = map (write_line (ws @ map (\<lambda>j. column_width j block) [length ws..<k])) block"
proof (induction "k - length ws" arbitrary: ws)
  case 0
  then show ?case using tw_format_left [of ws block] by (simp add: list_all_iff)
next
  case (Suc n)
  have a: "in_column (length ws) l" if "l \<in> set block" for l using that Suc.prems(1) Suc.hyps(2) by (auto simp: list_all_iff in_column_def)
  then have w: "takeWhile (in_column (length ws)) block = block" "dropWhile (in_column (length ws)) block = []" by (simp_all add: takeWhile_eq_all_conv)
  have u: "[length ws..<k] = length ws # [Suc (length ws)..<k]" using Suc.hyps(2) by (simp add: upt_conv_Cons)
  show ?case
  proof (cases block)
    case (Cons line lines)
    then have "tw_format ws block = tw_format (ws @ [column_width (length ws) block]) block"
      using a [of line] tw_format_in [of ws line lines, folded Cons, unfolded w] by simp
    also have "\<dots> = map (write_line ((ws @ [column_width (length ws) block]) @ map (\<lambda>j. column_width j block) [Suc (length ws)..<k])) block"
      using Suc.hyps(1) [of "ws @ [column_width (length ws) block]"] Suc.hyps(2) Suc.prems by simp
    finally show ?thesis by (simp add: u)
  qed simp
qed

lemma tw_format_table:
  assumes "list_all (\<lambda>l. length l = Suc k) block" and "0 < k"
  shows "tw_format [] (block @ [[[]]]) = map (write_line (widths k block)) block @ [[]]"
proof (cases block)
  case (Cons line lines)
  have a: "in_column 0 l" if "l \<in> set block" for l using that assms by (auto simp: list_all_iff in_column_def)
  have e: "\<not> in_column 0 [[]]" by (simp add: in_column_def)
  have "takeWhile (in_column 0) (block @ [[[]]]) = block" "dropWhile (in_column 0) (block @ [[[]]]) = [[[]]]"
    using a e by (auto simp: takeWhile_append2)
  then have "tw_format [] (block @ [[[]]]) = tw_format [column_width 0 block] block @ [[]]"
    using a e Cons tw_format_in [of "[]" line "lines @ [[[]]]"] by (simp add: tw_format_out)
  then show ?thesis
    using tw_format_block [OF assms(1), of "[column_width 0 block]"] assms(2) by (simp add: widths_def upt_conv_Cons)
qed (simp add: in_column_def tw_format_out)

lemma Join_lines: "Join (ls @ [[]]) [c] = concat (map (\<lambda>l. l @ [c]) ls)"
  by (induction ls rule: induct_list012) auto

definition clean :: "string \<Rightarrow> bool" where
  "clean s \<longleftrightarrow> tab \<notin> set s \<and> eol \<notin> set s"

lemma tab_eol [simp]: "tab \<noteq> eol" "eol \<noteq> tab"
  by (simp_all add: tab_def eol_def)

lemma eol_Join: "eol \<in> set (Join ws [tab]) \<longleftrightarrow> (\<exists>w \<in> set ws. eol \<in> set w)"
  by (induction ws rule: induct_list012) auto

text \<open>A text of lines with the same number of cells.\<close>

lemma tw_text_table:
  assumes "list_all (\<lambda>l. length l = Suc k \<and> list_all clean l) block" and "0 < k"
  shows "tw_text (concat (map (\<lambda>l. Join l [tab] @ [eol]) block)) = concat (map (\<lambda>l. write_line (widths k block) l @ [eol]) block)"
proof -
  let ?ls = "map (\<lambda>l. Join l [tab]) block"
  have n: "eol \<notin> set t" if "t \<in> set (?ls @ [[]])" for t
    using that assms(1) by (auto simp: eol_Join list_all_iff clean_def)
  have "Split (concat (map (\<lambda>l. Join l [tab] @ [eol]) block)) eol = ?ls @ [[]]"
    using Split_Join [of "?ls @ [[]]" eol] n by (simp add: Join_lines comp_def list_all_iff)
  moreover have "map (\<lambda>l. Split l tab) ?ls = block"
  proof -
    have "Split (Join l [tab]) tab = l" if "l \<in> set block" for l
      using Split_Join [of l tab] that assms(1) by (fastforce simp: list_all_iff clean_def)
    then show ?thesis by (simp add: map_idI comp_def)
  qed
  moreover have "list_all (\<lambda>l. length l = Suc k) block" using assms(1) by (simp add: list_all_iff)
  ultimately show ?thesis
    using tw_format_table [OF _ assms(2), of block] by (simp add: tw_text_def Join_lines comp_def)
qed

lemma writeTableRows_text: "writeTableRows tw rows inc = tw @ concat (map (\<lambda>r. Join (row_cells inc r) [tab] @ [eol]) rows)"
  by (induction tw rows inc rule: writeTableRows.induct) simp_all

definition clean_row :: "tableRow \<Rightarrow> bool" where
  "clean_row r \<longleftrightarrow> clean (row_EventType r) \<and> clean (row_Name r) \<and> clean (row_Namespace r) \<and> clean (row_Phase r)"

lemma tableHeaders_clean: "list_all clean (tableHeaders inc)" "length (tableHeaders inc) = 4 \<longleftrightarrow> inc"
  "length (tableHeaders inc) = Suc (if inc then 3 else 2)"
  by (simp_all add: tableHeaders_def clean_def tab_def eol_def)

lemma row_cells_clean: "clean_row r \<Longrightarrow> list_all clean (row_cells inc r)" "length (row_cells inc r) = Suc (if inc then 3 else 2)"
  by (simp_all add: clean_row_def)

declare row_cells.simps [simp del]

lemma printTable_text:
  assumes "list_all clean_row rows"
  shows "printTable out (tableHeaders inc) rows w =
    out w (concat (map (\<lambda>l. write_line (widths (if inc then 3 else 2) (tableHeaders inc # map (row_cells inc) rows)) l @ [eol])
      (tableHeaders inc # map (row_cells inc) rows)))"
proof -
  let ?t = "tableHeaders inc # map (row_cells inc) rows"
  have "list_all (\<lambda>l. length l = Suc (if inc then 3 else 2) \<and> list_all clean l) ?t"
    using assms tableHeaders_clean(1,3) [of inc] row_cells_clean [where inc = inc] by (auto simp: list_all_iff)
  from tw_text_table [OF this]
  show ?thesis by (simp add: printTable_def writeTableRows_text tableHeaders_clean(2) comp_def)
qed

text \<open>
  Tables are aligned: whatever the rows hold, as long as it has no tabs and line breaks, a table is written
  as one line for the headers and one per row, in order, in which every cell but the last is filled up with
  blanks to the width of its column; that is two more than its widest cell.
\<close>

theorem table_aligned:
  assumes "list_all clean_row rows"
  shows "let t = tableHeaders inc # map (row_cells inc) rows; k = (if inc then 3 else 2); ws = widths k t in
    printTable out (tableHeaders inc) rows w = out w (concat (map (\<lambda>l. write_line ws l @ [eol]) t)) \<and>
    (\<forall>j < k. (\<forall>l \<in> set t. RuneCount (pad_cell (ws ! j) (l ! j)) = ws ! j \<and> RuneCount (l ! j) + 2 \<le> ws ! j) \<and>
      (\<exists>l \<in> set t. RuneCount (l ! j) + 2 = ws ! j))"
proof -
  have f: "RuneCount (pad_cell (column_width j t) (l ! j)) = column_width j t \<and> RuneCount (l ! j) + 2 \<le> column_width j t" if "l \<in> set t" for j l t
    using column_width_fits [OF that, of j] by (simp add: RuneCount_pad)
  have a: "\<exists>l \<in> set t. RuneCount (l ! j) + 2 = column_width j t" if "t \<noteq> []" for j t
    using column_width_attained [OF that, of j] by metis
  have w: "widths k t ! j = column_width j t" if "j < k" for j k t using that by (simp add: widths_def)
  show ?thesis
    unfolding Let_def by (intro conjI allI impI ballI printTable_text [OF assms]) (use f in \<open>simp add: w\<close>, use f in \<open>simp add: w\<close>, use a in \<open>simp only: w\<close>, blast)
qed

theorem table_aligned_witness:
  "printTable (\<lambda>w t. (w @ t, None)) (tableHeaders False) [\<lparr> row_EventType = [], row_Name = ''vm-long-name'', row_Namespace = ''n'', row_Phase = ''Running'' \<rparr>] [] =
     (''NAME          NAMESPACE  PHASE'' @ [eol] @ ''vm-long-name  n          Running'' @ [eol], None)"
proof -
  let ?r = "\<lparr> row_EventType = [], row_Name = ''vm-long-name'', row_Namespace = ''n'', row_Phase = ''Running'' \<rparr>"
  have c: "list_all clean_row [?r]" by (simp add: clean_row_def clean_def tab_def eol_def)
  have "concat (map (\<lambda>l. write_line (widths 2 (tableHeaders False # map (row_cells False) [?r])) l @ [eol]) (tableHeaders False # map (row_cells False) [?r])) =
    ''NAME          NAMESPACE  PHASE'' @ [eol] @ ''vm-long-name  n          Running'' @ [eol]" by code_simp
  with table_aligned [OF c, of False "\<lambda>w t. (w @ t, None)" "[]"] show ?thesis by (simp add: Let_def)
qed

text \<open>A line of its own is its cells, two blanks apart.\<close>

lemma write_line_alone: "cells \<noteq> [] \<Longrightarrow> write_line (map (\<lambda>c. RuneCount c + 2) (butlast cells)) cells = Join cells ''  ''"
  by (induction cells rule: induct_list012) (simp_all add: pad_cell_def numeral_2_eq_2)

lemma widths_single: "length cells = Suc k \<Longrightarrow> widths k [cells] = map (\<lambda>c. RuneCount c + 2) (butlast cells)"
  by (intro nth_equalityI) (simp_all add: widths_def column_width_def nth_butlast)

lemma printTableRows_single:
  assumes "clean_row row"
  shows "printTableRows out [row] inc w = out w (Join (row_cells inc row) ''  '' @ [eol])"
proof -
  note l = row_cells_clean(2) [where inc = inc and r = row]
  have "list_all (\<lambda>l. length l = Suc (if inc then 3 else 2) \<and> list_all clean l) [row_cells inc row]"
    using row_cells_clean [where inc = inc and r = row] assms by simp
  then have "tw_text (Join (row_cells inc row) [tab] @ [eol]) = write_line (widths (if inc then 3 else 2) [row_cells inc row]) (row_cells inc row) @ [eol]"
    using tw_text_table [of "if inc then 3 else 2" "[row_cells inc row]"] by (cases inc) simp_all
  moreover have "row_cells inc row \<noteq> []" using l by auto
  ultimately show ?thesis
    using write_line_alone [of "row_cells inc row"] widths_single [OF l] by (simp add: printTableRows_def writeTableRows_text)
qed

lemma printTableRows_none: "printTableRows out [] inc w = out w []"
  by (simp add: printTableRows_def tw_text_def tw_format_out in_column_def)

lemma printTable_headers: "printTable out (tableHeaders inc) [] w = out w (Join (tableHeaders inc) ''  '' @ [eol])"
proof -
  have l: "length (tableHeaders inc) = Suc (if inc then 3 else 2)" by (rule tableHeaders_clean(3))
  then have "tableHeaders inc \<noteq> []" by auto
  then show ?thesis
    using printTable_text [of "[]" out inc w] write_line_alone [of "tableHeaders inc"] widths_single [OF l] by simp
qed

section \<open>The rows of typed objects\<close>

text \<open>A Kubernetes object as its Go type has it: pointer methods, and a status with a phase.\<close>

definition typed_object :: "goval \<Rightarrow> string \<Rightarrow> string \<Rightarrow> string \<Rightarrow> bool" where
  "typed_object v name namespace phase \<longleftrightarrow>
     (case v of
       Struct (PointerMethods n ns) fs \<Rightarrow>
         n = name \<and> ns = namespace \<and> map_of fs ''Items'' = None \<and>
         (case map_of fs ''Status'' of
           Some (Struct m status) \<Rightarrow> map_of status ''Phase'' = Some (Scalar phase)
         | _ \<Rightarrow> False)
     | _ \<Rightarrow> False)"

abbreviation row_of :: "string \<Rightarrow> string \<Rightarrow> string \<Rightarrow> string \<Rightarrow> tableRow" where
  "row_of eventType name namespace phase \<equiv> \<lparr> row_EventType = eventType, row_Name = name, row_Namespace = namespace, row_Phase = phase \<rparr>"

lemma typed_objectE:
  assumes "typed_object v name namespace phase"
  obtains fs m status where "v = Struct (PointerMethods name namespace) fs" "map_of fs ''Items'' = None"
    "map_of fs ''Status'' = Some (Struct m status)" "map_of status ''Phase'' = Some (Scalar phase)"
  using assms unfolding typed_object_def by (auto split: goval.splits methods.splits option.splits)

lemma typed_object_row: "typed_object v n ns p \<Longrightarrow> tableRowForValue other et True v = Some (Inr (row_of et n ns p))"
  by (erule typed_objectE) (simp add: tableRowForValue_def phaseFromValue_def)

lemma typed_object_rows: "typed_object v n ns p \<Longrightarrow> tableRows other (Pointer (Some v)) et = Some (Inr [row_of et n ns p])"
  by (frule typed_object_row [of _ _ _ _ other et], erule typed_objectE) (simp add: tableRows_def)

text \<open>The same object by value does not have the methods.\<close>

lemma typed_object_by_value: "typed_object v n ns p \<Longrightarrow> tableRows other v et = Some no_meta"
  by (erule typed_objectE) (simp add: tableRows_def tableRowForValue_def no_meta_def)

lemma item_rows_typed:
  "list_all2 (\<lambda>v (n, ns, p). typed_object v n ns p) vs xs \<Longrightarrow> item_rows other et vs = Some (Inr (map (\<lambda>(n, ns, p). row_of et n ns p) xs))"
  by (induction rule: list_all2_induct) (auto simp: typed_object_row)

lemma typed_list_rows:
  assumes "map_of fs ''Items'' = Some (Slice vs)" and "list_all2 (\<lambda>v (n, ns, p). typed_object v n ns p) vs xs"
  shows "tableRows other (Pointer (Some (Struct m fs))) et = Some (Inr (map (\<lambda>(n, ns, p). row_of et n ns p) xs))"
  using item_rows_typed [OF assms(2)] assms(1) by (simp add: tableRows_def)

text \<open>What the other kinds of values lead to: nothing, an error, or a panic.\<close>

lemma tableRows_other:
  "tableRows other Invalid et = Some (Inr [])" "tableRows other (Pointer None) et = Some (Inr [])"
  "tableRows other (Scalar s) et = None" "tableRows other (GoMap kvs) et = None"
  "map_of fs ''Items'' = None \<Longrightarrow> tableRows other (Pointer (Some (Struct NoMethods fs))) et = Some no_meta"
  by (simp_all add: tableRows_def tableRowForValue_def no_meta_def)

end
