(* ===== verification/Example_Client.thy ===== *)
theory Example_Client
  imports Table_Output Round_Tripper
begin

text \<open>
  The example client, \<^verbatim>\<open>examples/get-kubevirt-vm\<close>: a command line program that reads virtual machines
  through the rewriting transport, once or as a watch, and prints them.

  Third-party code is a parameter, the record \<open>clientlib\<close>: the configuration of \<^verbatim>\<open>clientcmd\<close>, the
  rewrite rules of the virtualization project, the typed clients, and the encoders. \<^verbatim>\<open>cobra\<close> is the
  function that runs a command. What the select statement of the watch finds, one event after the
  other, is a list; when it is used up the client waits.

  Shown: reading a list through the rewriting transport prints the objects the server holds under
  renamed names, without the excluded ones; a watch prints the header and one line per event until the
  channel is closed or the context is done, and always stops the watch when it returns; the columns
  of a watch are not aligned with each other.
\<close>

section \<open>Options and commands\<close>

record rootOptions =
  o_ExplicitPath :: string
  o_overrides :: "(string \<times> string) list"
  o_output :: string

definition newRootOptions :: rootOptions where
  "newRootOptions = \<lparr> o_ExplicitPath = [], o_overrides = [], o_output = [] \<rparr>"

record flag =
  flag_Name :: string
  flag_Short :: string
  flag_Default :: string
  flag_Usage :: string

text \<open>The flags that \<^verbatim>\<open>clientcmd\<close> binds to the overrides depend on the short name of the server flag.\<close>

definition BindPersistentFlags :: "(string \<Rightarrow> flag list) \<Rightarrow> flag list" where
  "BindPersistentFlags overrideFlags =
     [\<lparr> flag_Name = ''kubeconfig'', flag_Short = [], flag_Default = [], flag_Usage = ''Path to the kubeconfig file to use for requests.'' \<rparr>,
      \<lparr> flag_Name = ''output'', flag_Short = ''o'', flag_Default = [], flag_Usage = ''Output format. One of: json|yaml. Defaults to table.'' \<rparr>] @ overrideFlags ''s''"

record 'run command =
  c_Use :: string
  c_Short :: string
  c_SilenceErrors :: bool
  c_SilenceUsage :: bool
  c_MaximumNArgs :: "nat option"
  c_Flags :: "flag list"
  c_RunE :: "'run option"

datatype 'run Command = Command "'run command" "'run Command list"

definition newVMCommand :: "'run \<Rightarrow> 'run Command" where
  "newVMCommand run =
     Command \<lparr> c_Use = ''vm [name]'', c_Short = ''Get virtual machines'', c_SilenceErrors = False, c_SilenceUsage = False, c_MaximumNArgs = Some 1,
       c_Flags = [\<lparr> flag_Name = ''watch'', flag_Short = ''w'', flag_Default = ''false'', flag_Usage = ''Watch virtual machines'' \<rparr>], c_RunE = Some run \<rparr> []"

definition newKVVMICommand :: "'run \<Rightarrow> 'run Command" where
  "newKVVMICommand run =
     Command \<lparr> c_Use = ''intvirtvmi [name]'', c_Short = ''Get internal virtualization VM instances'', c_SilenceErrors = False, c_SilenceUsage = False,
       c_MaximumNArgs = Some 1,
       c_Flags = [\<lparr> flag_Name = ''watch'', flag_Short = ''w'', flag_Default = ''false'', flag_Usage = ''Watch virtual machine instances'' \<rparr>], c_RunE = Some run \<rparr> []"

definition newRootCommand :: "(string \<Rightarrow> flag list) \<Rightarrow> 'run \<Rightarrow> 'run \<Rightarrow> 'run Command" where
  "newRootCommand overrideFlags runVM runVMI =
     Command \<lparr> c_Use = ''get-kubevirt-vm'', c_Short = ''Get kubevirt virtual machine'', c_SilenceErrors = True, c_SilenceUsage = True, c_MaximumNArgs = None,
       c_Flags = BindPersistentFlags overrideFlags, c_RunE = None \<rparr> [newVMCommand runVM, newKVVMICommand runVMI]"

text \<open>What the program writes to standard error, and its exit code. How \<^verbatim>\<open>cobra\<close> runs a command is a parameter.\<close>

definition example_main :: "('run Command \<Rightarrow> error option) \<Rightarrow> (string \<Rightarrow> flag list) \<Rightarrow> 'run \<Rightarrow> 'run \<Rightarrow> string \<times> nat" where
  "example_main execute overrideFlags runVM runVMI =
     (case execute (newRootCommand overrideFlags runVM runVMI) of
       None \<Rightarrow> ([], 0)
     | Some err \<Rightarrow> (error_text err @ [eol], 1))"

section \<open>Clients\<close>

datatype selected = CtxDone error | Received string goval | ChannelClosed

record rest_client =
  rc_List :: "goval res"
  rc_Get :: "string \<Rightarrow> goval res"
  rc_Watch :: "string \<Rightarrow> selected list res"

record clientlib =
  lib_ClientConfig :: "rootOptions \<Rightarrow> rest_Config res"
  lib_Namespace :: "rootOptions \<Rightarrow> string res"
  lib_Rules :: RewriteRules
  lib_run :: "RoundTripper \<Rightarrow> base_transport"
  lib_VirtualMachines :: "rest_Config \<Rightarrow> (string \<Rightarrow> rest_client) res"
  lib_VirtualMachineInstances :: "rest_Config \<Rightarrow> (string \<Rightarrow> rest_client) res"
  lib_MarshalIndent :: "goval \<Rightarrow> string res"
  lib_YAML :: "goval \<Rightarrow> string res"
  lib_Sprint :: "goval \<Rightarrow> string"

definition GetRESTConfig :: "clientlib \<Rightarrow> rootOptions \<Rightarrow> (rest_Config \<times> string) res" where
  "GetRESTConfig lib opts =
     (case lib_ClientConfig lib opts of
       Inl err \<Rightarrow> Inl (Wrapf ''get rest config'' err)
     | Inr restConfig \<Rightarrow>
         (case lib_Namespace lib opts of
           Inl err \<Rightarrow> Inl (Wrapf ''get namespace'' err)
         | Inr namespace \<Rightarrow>
             (let rewriteRules = rr_Init (lib_Rules lib) in
              Inr (WrapRESTConfig (lib_run lib) restConfig (Rewriting (NewProxyRoundTripper ''kubevirt-example'' ToRenamed rewriteRules)), namespace))))"

section \<open>Output\<close>

datatype run_end = Blocked | Returned "error option" | Panicked

definition returns :: "'w \<times> error option \<Rightarrow> 'w \<times> run_end" where
  "returns r = (fst r, Returned (snd r))"

definition printJSON :: "'w stdout \<Rightarrow> clientlib \<Rightarrow> goval \<Rightarrow> 'w \<Rightarrow> 'w \<times> run_end" where
  "printJSON out lib obj w =
     (case lib_MarshalIndent lib obj of
       Inl err \<Rightarrow> (w, Returned (Some (Wrapf ''marshal json'' err)))
     | Inr t \<Rightarrow> returns (out w (t @ [eol])))"

definition printYAML :: "'w stdout \<Rightarrow> clientlib \<Rightarrow> goval \<Rightarrow> 'w \<Rightarrow> 'w \<times> run_end" where
  "printYAML out lib obj w =
     (case lib_YAML lib obj of
       Inl err \<Rightarrow> (w, Returned (Some (Wrapf ''marshal yaml'' err)))
     | Inr t \<Rightarrow> returns (out w (t @ [eol])))"

text \<open>The format is quoted; it has no characters that are escaped in quotes.\<close>

definition unsupported_output :: "rootOptions \<Rightarrow> error" where
  "unsupported_output opts = Errorf (''unsupported output format '' @ [CHR 0x22] @ o_output opts @ [CHR 0x22] @ '', expected one of: json, yaml'')"

definition is_table :: "rootOptions \<Rightarrow> bool" where
  "is_table opts \<longleftrightarrow> o_output opts = [] \<or> o_output opts = ''table''"

definition PrintObject :: "'w stdout \<Rightarrow> clientlib \<Rightarrow> rootOptions \<Rightarrow> goval \<Rightarrow> 'w \<Rightarrow> 'w \<times> run_end" where
  "PrintObject out lib opts obj w =
     (if is_table opts
      then (case tableRows (lib_Sprint lib) obj [] of
          None \<Rightarrow> (w, Panicked)
        | Some (Inl err) \<Rightarrow> (w, Returned (Some err))
        | Some (Inr rows) \<Rightarrow> returns (printTable out (tableHeaders False) rows w))
      else if o_output opts = ''yaml'' then printYAML out lib obj w
      else if o_output opts = ''json'' then printJSON out lib obj w
      else (w, Returned (Some (unsupported_output opts))))"

definition PrepareWatchOutput :: "'w stdout \<Rightarrow> rootOptions \<Rightarrow> 'w \<Rightarrow> 'w \<times> error option" where
  "PrepareWatchOutput out opts w = (if is_table opts then printTable out (tableHeaders True) [] w else (w, None))"

definition PrintWatchEvent :: "'w stdout \<Rightarrow> clientlib \<Rightarrow> rootOptions \<Rightarrow> string \<Rightarrow> goval \<Rightarrow> 'w \<Rightarrow> 'w \<times> run_end" where
  "PrintWatchEvent out lib opts type obj w =
     (if is_table opts
      then (case tableRows (lib_Sprint lib) obj type of
          None \<Rightarrow> (w, Panicked)
        | Some (Inl err) \<Rightarrow> (w, Returned (Some err))
        | Some (Inr rows) \<Rightarrow> returns (printTableRows out rows True w))
      else if o_output opts = ''yaml'' then printYAML out lib (GoMap [(''type'', Scalar type), (''object'', obj)]) w
      else if o_output opts = ''json'' then printJSON out lib (GoMap [(''type'', Scalar type), (''object'', obj)]) w
      else (w, Returned (Some (unsupported_output opts))))"

section \<open>Watching and running\<close>

fun watch_loop :: "(string \<Rightarrow> goval \<Rightarrow> 'w \<Rightarrow> 'w \<times> run_end) \<Rightarrow> selected list \<Rightarrow> 'w \<Rightarrow> 'w \<times> run_end" where
  "watch_loop printEvent [] w = (w, Blocked)"
| "watch_loop printEvent (CtxDone err # es) w = (w, Returned (Some err))"
| "watch_loop printEvent (ChannelClosed # es) w = (w, Returned None)"
| "watch_loop printEvent (Received type obj # es) w =
     (case printEvent type obj w of
       (w, Returned None) \<Rightarrow> watch_loop printEvent es w
     | r \<Rightarrow> r)"

text \<open>The last result says whether the deferred \<^verbatim>\<open>w.Stop()\<close> has run.\<close>

definition watchVirtualMachines ::
    "rest_client \<Rightarrow> string \<Rightarrow> ('w \<Rightarrow> 'w \<times> error option) option \<Rightarrow> (string \<Rightarrow> goval \<Rightarrow> 'w \<Rightarrow> 'w \<times> run_end) \<Rightarrow> 'w \<Rightarrow> 'w \<times> run_end \<times> bool" where
  "watchVirtualMachines vmClient vmName prepareOutput printEvent w =
     (let selector = (if vmName \<noteq> [] then ''metadata.name='' @ vmName else []) in
      case rc_Watch vmClient selector of
        Inl err \<Rightarrow> (w, Returned (Some (Wrapf ''watch virtualmachines'' err)), False)
      | Inr es \<Rightarrow>
          (case (case prepareOutput of None \<Rightarrow> (w, None) | Some p \<Rightarrow> p w) of
            (w, Some err) \<Rightarrow> (w, Returned (Some err), True)
          | (w, None) \<Rightarrow> (case watch_loop printEvent es w of (w, r) \<Rightarrow> (w, r, r \<noteq> Blocked))))"

definition first_arg :: "string list \<Rightarrow> string" where
  "first_arg args = (case args of [] \<Rightarrow> [] | a # _ \<Rightarrow> a)"

definition vm_Run :: "'w stdout \<Rightarrow> clientlib \<Rightarrow> rootOptions \<Rightarrow> bool \<Rightarrow> string list \<Rightarrow> 'w \<Rightarrow> 'w \<times> run_end" where
  "vm_Run out lib root watch args w =
     (case GetRESTConfig lib root of
       Inl err \<Rightarrow> (w, Returned (Some err))
     | Inr (restConfig, namespace) \<Rightarrow>
     (case lib_VirtualMachines lib restConfig of
       Inl err \<Rightarrow> (w, Returned (Some (Wrapf ''create virtualization client'' err)))
     | Inr vmClient \<Rightarrow>
         (let virtualMachines = vmClient namespace; vmName = first_arg args in
          if watch
          then (case watchVirtualMachines virtualMachines vmName (Some (PrepareWatchOutput out root)) (PrintWatchEvent out lib root) w of (w, r, _) \<Rightarrow> (w, r))
          else if vmName = []
          then (case rc_List virtualMachines of
              Inl err \<Rightarrow> (w, Returned (Some (Wrapf (''list virtualmachines in '' @ namespace) err)))
            | Inr vmList \<Rightarrow> PrintObject out lib root vmList w)
          else (case rc_Get virtualMachines vmName of
              Inl err \<Rightarrow> (w, Returned (Some (Wrapf (''get virtualmachine '' @ namespace @ ''/'' @ vmName) err)))
            | Inr vm \<Rightarrow> PrintObject out lib root vm w))))"

definition intvirtvmi_Run :: "'w stdout \<Rightarrow> clientlib \<Rightarrow> rootOptions \<Rightarrow> bool \<Rightarrow> string list \<Rightarrow> 'w \<Rightarrow> 'w \<times> run_end" where
  "intvirtvmi_Run out lib root watch args w =
     (case GetRESTConfig lib root of
       Inl err \<Rightarrow> (w, Returned (Some err))
     | Inr (restConfig, namespace) \<Rightarrow>
     (case lib_VirtualMachineInstances lib restConfig of
       Inl err \<Rightarrow> (w, Returned (Some (Wrapf ''create kubevirt client'' err)))
     | Inr virtClient \<Rightarrow>
         (let vmiClient = virtClient namespace; vmiName = first_arg args in
          if watch
          then (case watchVirtualMachines vmiClient vmiName (Some (PrepareWatchOutput out root)) (PrintWatchEvent out lib root) w of (w, r, _) \<Rightarrow> (w, r))
          else if vmiName = []
          then (case rc_List vmiClient of
              Inl err \<Rightarrow> (w, Returned (Some (Wrapf (''list virtualmachineinstances in '' @ namespace) err)))
            | Inr vmiList \<Rightarrow> PrintObject out lib root vmiList w)
          else (case rc_Get vmiClient vmiName of
              Inl err \<Rightarrow> (w, Returned (Some (Wrapf (''get virtualmachineinstance '' @ namespace @ ''/'' @ vmiName) err)))
            | Inr vmi \<Rightarrow> PrintObject out lib root vmi w))))"

section \<open>Watches\<close>

text \<open>A terminal: it takes everything.\<close>

abbreviation terminal :: "string stdout" where
  "terminal w t \<equiv> (w @ t, None)"

definition event_line :: "string list \<Rightarrow> string" where
  "event_line cells = Join cells ''  '' @ [eol]"

text \<open>An event of a typed object: what it is printed as, and the value.\<close>

type_synonym typed_event = "string \<times> string \<times> string \<times> string \<times> goval"

definition typed_event :: "typed_event \<Rightarrow> bool" where
  "typed_event = (\<lambda>(type, name, namespace, phase, v). typed_object v name namespace phase \<and> clean_row (row_of type name namespace phase))"

definition received :: "typed_event \<Rightarrow> selected" where
  "received = (\<lambda>(type, name, namespace, phase, v). Received type (Pointer (Some v)))"

definition printed :: "typed_event \<Rightarrow> string" where
  "printed = (\<lambda>(type, name, namespace, phase, v). event_line [type, name, namespace, phase])"

lemma PrintWatchEvent_typed:
  assumes "is_table opts" and "typed_object v n ns p" and "clean_row (row_of ty n ns p)"
  shows "PrintWatchEvent terminal lib opts ty (Pointer (Some v)) w = (w @ event_line [ty, n, ns, p], Returned None)"
  using assms(1) typed_object_rows [OF assms(2)] printTableRows_single [OF assms(3), of terminal True w]
  by (simp add: PrintWatchEvent_def returns_def event_line_def row_cells.simps)

lemma watch_loop_typed:
  assumes "is_table opts" and "list_all typed_event evs"
  shows "watch_loop (PrintWatchEvent terminal lib opts) (map received evs @ es) w =
    watch_loop (PrintWatchEvent terminal lib opts) es (w @ concat (map printed evs))"
  using assms(2)
  by (induction evs arbitrary: w) (auto simp: typed_event_def received_def printed_def PrintWatchEvent_typed [OF assms(1)])

text \<open>
  C37. Watching: the client asks for the events of the named object, or of all, prints the header and then one line
  per event in the order of the stream, each with type, name, namespace and phase two blanks apart. It
  returns when the channel is closed, with the error of the context when that is done, and with an
  error at an event whose object is not a Kubernetes object, such as a status; it stops the watch
  exactly when it returns.
\<close>

theorem watch_prints_events:
  assumes "is_table opts" and "list_all typed_event evs"
    and "rc_Watch c (if vmName \<noteq> [] then ''metadata.name='' @ vmName else []) = Inr (map received evs @ es)"
  shows "case es of
      [] \<Rightarrow> watchVirtualMachines c vmName (Some (PrepareWatchOutput terminal opts)) (PrintWatchEvent terminal lib opts) w =
        (w @ event_line (tableHeaders True) @ concat (map printed evs), Blocked, False)
    | CtxDone err # _ \<Rightarrow> watchVirtualMachines c vmName (Some (PrepareWatchOutput terminal opts)) (PrintWatchEvent terminal lib opts) w =
        (w @ event_line (tableHeaders True) @ concat (map printed evs), Returned (Some err), True)
    | ChannelClosed # _ \<Rightarrow> watchVirtualMachines c vmName (Some (PrepareWatchOutput terminal opts)) (PrintWatchEvent terminal lib opts) w =
        (w @ event_line (tableHeaders True) @ concat (map printed evs), Returned None, True)
    | Received type obj # _ \<Rightarrow> tableRows (lib_Sprint lib) obj type = Some no_meta \<longrightarrow>
        (\<exists>err. watchVirtualMachines c vmName (Some (PrepareWatchOutput terminal opts)) (PrintWatchEvent terminal lib opts) w =
          (w @ event_line (tableHeaders True) @ concat (map printed evs), Returned (Some err), True))"
proof -
  have b: "watch_loop (PrintWatchEvent terminal lib opts) (map received evs) v = (v @ concat (map printed evs), Blocked)" for v
    using watch_loop_typed [OF assms(1,2), of lib "[]"] by simp
  have p: "PrepareWatchOutput terminal opts w = (w @ event_line (tableHeaders True), None)"
    using printTable_headers [of terminal True w] assms(1) by (simp add: PrepareWatchOutput_def event_line_def)
  have l: "watch_loop (PrintWatchEvent terminal lib opts) (map received evs @ es) (w @ event_line (tableHeaders True)) =
    watch_loop (PrintWatchEvent terminal lib opts) es (w @ event_line (tableHeaders True) @ concat (map printed evs))"
    using watch_loop_typed [OF assms(1,2), of lib es] by simp
  show ?thesis
    using assms(1,3) by (auto simp: watchVirtualMachines_def Let_def b p l PrintWatchEvent_def no_meta_def split: list.split selected.split)
qed

text \<open>Every line of a watch is formatted alone, so that its columns do not line up with the header.\<close>

lemma watch_columns_ragged:
  "let lines = [event_line (tableHeaders True), event_line [''ADDED'', ''vm'', ''n'', ''Running'']] in
   map (\<lambda>l. length (takeWhile (\<lambda>c. c \<noteq> CHR '' '') l) + 2) lines = [6, 7]"
  by code_simp

section \<open>Reading a list through the rewriting transport\<close>

lemma RoundTrip_payload:
  assumes "rt_Rewriter rt = Some rr" and "rt_ProxyMode rt = ToRenamed" and "req_URL req = Some url" and "req_Body req = None"
    and "NewTargetRequest (env_selectors E) rr (Some (URL.truncate url)) = Some tr" and "tr_ShouldRewriteResponse tr" and "\<not> tr_IsWatch tr"
    and "\<And>r u. req_URL r = Some u \<Longrightarrow> url_Path u = tr_Path tr \<Longrightarrow> rt_base DT rt r = Inr resp" and "plain_encoding resp"
    and "ReadAll (resp_Body resp) = Inr t" and "gjson_ValidBytes (env_json E) (Some t)"
    and "RewriteJSONPayload (env_json E) (env_order E) rr (Some t) Restore = Inr (Some b)"
  shows "\<exists>resp'. fst (RoundTrip E DT rt (Some req)) = Inr (resp', Stopped) \<and> ReadAll (resp_Body resp') = Inr b \<and>
    resp_StatusCode resp' = resp_StatusCode resp"
proof -
  have t: "NewTargetRequest (env_selectors E) rr (map_option URL.truncate (req_URL req)) = Some tr" using assms(3,5) by simp
  obtain r u where r: "transformRequest E (rt_ProxyMode rt) rr tr (cloneRequest req) = Inr (r, None, None)" "req_URL r = Some u" "url_Path u = tr_Path tr"
    using transformRequest_no_body [of "cloneRequest req" url E "rt_ProxyMode rt" rr tr] assms(3,4) by (fastforce simp: cloneRequest_def)
  have "rt_base DT rt (r\<lparr> req_Body := request_body None None (req_Body r) \<rparr>) = Inr resp" by (rule assms(8)) (use r in simp_all)
  from RoundTrip_rewrites [OF assms(1) t r(1) this assms(6,7)] obtain prov ctx where
    "fst (RoundTrip E DT rt (Some req)) = (case fst (rewriteResponse E (rt_ProxyMode rt) rr prov ctx resp tr) of Inl e \<Rightarrow> Inl e | Inr r \<Rightarrow> Inr (r, Stopped))"
    by blast
  with assms(2,10-12) encoding_plain [OF assms(9), of "env_codec E"] show ?thesis
    by (simp add: rewriteResponse_def replaceResponseBody_def FromTargetAction_def Let_def)
qed

text \<open>Restoring a resource keeps its name, its namespace and its status.\<close>

lemma payload_keeps:
  assumes "is_object j"
  shows "jtext_at (j_payload rr a j) [''metadata'', ''name''] = jtext_at j [''metadata'', ''name'']"
    and "jtext_at (j_payload rr a j) [''metadata'', ''namespace''] = jtext_at j [''metadata'', ''namespace'']"
    and "jtext_at (j_payload rr a j) [''status'', ''phase''] = jtext_at j [''status'', ''phase'']"
proof -
  from assms obtain m where j: "j = JObj m" by (cases j) (auto simp: is_object_def)
  obtain av k where v: "j_versions rr a j = j_resource av k j" by (cases a) auto
  have "jget (j_payload rr a j) [''metadata'', x] = jget j [''metadata'', x]" if "x \<in> {''name'', ''namespace''}" for x
  proof (cases "m ''metadata''")
    case (Some y)
    then show ?thesis
      using that v unfolding j
      by (cases y) (auto simp: j_payload_def j_resource_object j_object_member at_object_def j_array_member j_metadata_object)
  qed (use v j in \<open>simp add: j_payload_def j_resource_object j_object_member at_object_def\<close>)
  then show "jtext_at (j_payload rr a j) [''metadata'', ''name''] = jtext_at j [''metadata'', ''name'']"
    "jtext_at (j_payload rr a j) [''metadata'', ''namespace''] = jtext_at j [''metadata'', ''namespace'']"
    by (simp_all add: jtext_at_def)
  show "jtext_at (j_payload rr a j) [''status'', ''phase''] = jtext_at j [''status'', ''phase'']"
    using v unfolding j by (simp add: j_payload_def j_resource_object j_object_member jtext_at_def)
qed

text \<open>
  What a typed client makes of an object and of a list, and what it does to read one: it sends the request
  through the transport of its configuration and decodes the body of a successful answer.
\<close>

definition object_value :: "json \<Rightarrow> goval" where
  "object_value j = Struct (PointerMethods (jtext_at j [''metadata'', ''name'']) (jtext_at j [''metadata'', ''namespace'']))
     [(''Status'', Struct NoMethods [(''Phase'', Scalar (jtext_at j [''status'', ''phase'']))])]"

definition list_value :: "json \<Rightarrow> goval" where
  "list_value j = Pointer (Some (Struct NoMethods [(''Items'', Slice (map object_value (items_at j [''items''])))]))"

definition lists_through :: "('r, 'i) env \<Rightarrow> (string \<Rightarrow> json option) \<Rightarrow> base_transport \<Rightarrow> http_request \<Rightarrow> rest_Config \<Rightarrow> rest_client \<Rightarrow> bool" where
  "lists_through E D base req cfg c \<longleftrightarrow>
     (\<forall>f rt resp b j. cfg_WrapTransport cfg = Some f \<longrightarrow> f base = Rewriting rt \<longrightarrow> fst (RoundTrip E base rt (Some req)) = Inr (resp, Stopped) \<longrightarrow>
        resp_StatusCode resp = 200 \<longrightarrow> ReadAll (resp_Body resp) = Inr b \<longrightarrow> D b = Some j \<longrightarrow> rc_List c = Inr (list_value j))"

abbreviation object_row :: "json \<Rightarrow> tableRow" where
  "object_row v \<equiv> row_of [] (jtext_at v [''metadata'', ''name'']) (jtext_at v [''metadata'', ''namespace'']) (jtext_at v [''status'', ''phase''])"

lemma object_value_typed:
  "typed_object (object_value j) (jtext_at j [''metadata'', ''name'']) (jtext_at j [''metadata'', ''namespace'']) (jtext_at j [''status'', ''phase''])"
  by (simp add: object_value_def typed_object_def)

lemma list_value_rows: "tableRows other (list_value j) [] = Some (Inr (map object_row (items_at j [''items''])))"
proof -
  let ?x = "\<lambda>j. (jtext_at j [''metadata'', ''name''], jtext_at j [''metadata'', ''namespace''], jtext_at j [''status'', ''phase''])"
  have "list_all2 (\<lambda>v (n, ns, p). typed_object v n ns p) (map object_value (items_at j [''items''])) (map ?x (items_at j [''items'']))"
    using object_value_typed by (simp add: list_all2_conv_all_nth)
  from typed_list_rows [OF _ this] show ?thesis by (simp add: list_value_def comp_def)
qed

text \<open>
  C12. The example client as a whole: run without a name, it asks the server for the list under the renamed path,
  through the rewriting transport it has put into its configuration, and when the server answers with
  a list of renamed resources it prints one row for every resource that no exclude rule hides, in the
  order of the server, with its name, its namespace and its phase, under the header.
\<close>

theorem vm_list_through_proxy:
  assumes "json_library (env_json E) D V" and "rules_wf (lib_Rules lib)" and "rules_text (lib_Rules lib)"
    and "lib_ClientConfig lib opts = Inr cfg" and "cfg_WrapTransport cfg = None" and "lib_Namespace lib opts = Inr ns"
    and "\<And>cfg. \<exists>mk. lib_VirtualMachines lib cfg = Inr mk \<and> lists_through E D base req cfg (mk ns)"
    and "req_URL req = Some url" and "req_Body req = None" and "NewTargetRequest (env_selectors E) (rr_Init (lib_Rules lib)) (Some (URL.truncate url)) = Some tr"
    and "tr_ShouldRewriteResponse tr" and "\<not> tr_IsWatch tr"
    and "\<And>r u. req_URL r = Some u \<Longrightarrow> url_Path u = tr_Path tr \<Longrightarrow> base r = Inr resp" and "plain_encoding resp" and "resp_StatusCode resp = 200"
    and "ReadAll (resp_Body resp) = Inr t" and "doc D (Some t) j" and "resource_ok j" and "exclude_typed j" and "list_typed j"
    and "jtext_at j [''kind''] \<notin> set special_kinds" and "HasSuffix (jtext_at j [''kind'']) ''List''"
    and "known_list (rr_Init (lib_Rules lib)) (rr_RestoreKind (rr_Init (lib_Rules lib)) (jtext_at j [''kind'']))"
    and "\<not> excluded (rr_Init (lib_Rules lib)) (jtext_at j [''kind'']) j"
    and "list_all (\<lambda>v. resource_ok v \<and> meta_ok (rr_Init (lib_Rules lib)) Restore v) (items_at j [''items''])"
    and "is_table opts" and "list_all (\<lambda>v. clean_row (object_row v)) (items_at j [''items''])"
  shows "let shown = filter (\<lambda>v. \<not> excluded (rr_Init (lib_Rules lib)) (TrimSuffix (jtext_at j [''kind'']) ''List'') v) (items_at j [''items'']);
      t = tableHeaders False # map (\<lambda>v. row_cells False (object_row v)) shown
    in vm_Run terminal lib opts False [] w = (w @ concat (map (\<lambda>l. write_line (widths 2 t) l @ [eol]) t), Returned None)"
proof -
  let ?rr = "rr_Init (lib_Rules lib)"
  let ?shown = "filter (\<lambda>v. \<not> excluded ?rr (TrimSuffix (jtext_at j [''kind'']) ''List'') v) (items_at j [''items''])"
  let ?cfg = "WrapRESTConfig (lib_run lib) cfg (Rewriting (NewProxyRoundTripper ''kubevirt-example'' ToRenamed ?rr))"
  let ?rt = "(rt_initialize (NewProxyRoundTripper ''kubevirt-example'' ToRenamed ?rr))\<lparr> rt_Base := Some base \<rparr>"
  have ready: "rules_ready ?rr" by (rule rules_ready_Init [OF assms(2,3)])
  from json_library.list_payload_yields [OF assms(1) ready assms(17-25), of "env_order E"] obtain b where
    b: "RewriteJSONPayload (env_json E) (env_order E) ?rr (Some t) Restore = Inr (Some b)" "D b = Some (j_restored_list ?rr j)"
    by (auto simp: yields_def doc_def)
  have v: "gjson_ValidBytes (env_json E) (Some t)" by (rule json_library.ValidBytes [OF assms(1)]) (use assms(17) in \<open>auto simp: doc_def\<close>)
  have rt: "rt_Rewriter ?rt = Some ?rr" "rt_ProxyMode ?rt = ToRenamed" "rt_base base ?rt = base"
    by (simp_all add: NewProxyRoundTripper_def rt_initialize_def rt_base_def Let_def)
  have base: "rt_base base ?rt r = Inr resp" if "req_URL r = Some u" "url_Path u = tr_Path tr" for r u
    unfolding rt(3) by (rule assms(13) [OF that])
  have "\<exists>resp'. fst (RoundTrip E base ?rt (Some req)) = Inr (resp', Stopped) \<and> ReadAll (resp_Body resp') = Inr b \<and> resp_StatusCode resp' = resp_StatusCode resp"
    by (rule RoundTrip_payload [OF rt(1,2) assms(8-12) _ assms(14,16) v b(1)]) (rule base)
  then obtain resp' where resp': "fst (RoundTrip E base ?rt (Some req)) = Inr (resp', Stopped)" "ReadAll (resp_Body resp') = Inr b" "resp_StatusCode resp' = 200"
    using assms(15) by auto
  obtain mk where mk: "lib_VirtualMachines lib ?cfg = Inr mk" "lists_through E D base req ?cfg (mk ns)" using assms(7) by blast
  have f: "\<exists>f. cfg_WrapTransport ?cfg = Some f \<and> f base = Rewriting ?rt" using assms(5) by (simp add: WrapRESTConfig_def)
  then have l: "rc_List (mk ns) = Inr (list_value (j_restored_list ?rr j))"
    using mk(2) resp' b(2) unfolding lists_through_def by blast
  have o: "is_object v" if "v \<in> set ?shown" for v using that assms(25) by (auto simp: list_all_iff intro: resource_ok_object)
  then have rows: "map object_row (map (j_payload ?rr Restore) ?shown) = map object_row ?shown"
    by (auto simp: payload_keeps)
  have c: "list_all clean_row (map object_row ?shown)" using assms(27) by (auto simp: list_all_iff)
  have g: "GetRESTConfig lib opts = Inr (?cfg, ns)" using assms(4,6) by (simp add: GetRESTConfig_def Let_def)
  have items: "map object_row (items_at (j_restored_list ?rr j) [''items'']) = map object_row ?shown"
    unfolding j_restored_list_items [OF resource_ok_object [OF assms(18)] assms(22)] by (rule rows)
  have "vm_Run terminal lib opts False [] w = PrintObject terminal lib opts (list_value (j_restored_list ?rr j)) w"
    unfolding vm_Run_def g by (simp add: mk(1) l first_arg_def)
  also have "\<dots> = returns (printTable terminal (tableHeaders False) (map object_row ?shown) w)"
    using assms(26) by (simp add: PrintObject_def list_value_rows items)
  finally show ?thesis
    using printTable_text [OF c, of terminal False w] by (simp add: Let_def returns_def comp_def)
qed

section \<open>Concrete runs\<close>

definition sample_base :: base_transport where
  "sample_base r = Inr (sample_answer (print sample_resources))"

definition sample_list_request :: http_request where
  "sample_list_request = sample_http ''GET'' ''/apis/g.io/v1/namespaces/n/rs'' None"

definition sample_list :: "rest_Config \<Rightarrow> goval res" where
  "sample_list cfg =
     (case cfg_WrapTransport cfg of
       Some f \<Rightarrow> (case f sample_base of
           Rewriting rt \<Rightarrow> (case fst (RoundTrip ref_env sample_base rt (Some sample_list_request)) of
               Inl err \<Rightarrow> Inl err
             | Inr (resp, _) \<Rightarrow> (case ReadAll (resp_Body resp) of
                   Inl err \<Rightarrow> Inl err
                 | Inr b \<Rightarrow> (case ref_D b of Some j \<Rightarrow> Inr (list_value j) | None \<Rightarrow> no_meta)))
         | OtherTransport _ \<Rightarrow> no_meta)
     | None \<Rightarrow> no_meta)"

definition sample_rest_client :: "rest_Config \<Rightarrow> rest_client" where
  "sample_rest_client cfg = \<lparr> rc_List = sample_list cfg, rc_Get = (\<lambda>_. no_meta), rc_Watch = (\<lambda>_. Inr []) \<rparr>"

definition sample_clientlib :: clientlib where
  "sample_clientlib =
     \<lparr> lib_ClientConfig = (\<lambda>_. Inr \<lparr> cfg_ContentType = [], cfg_WrapTransport = None \<rparr>), lib_Namespace = (\<lambda>_. Inr ''n''), lib_Rules = sample_rules,
       lib_run = (\<lambda>rt r. map_sum id fst (fst (RoundTrip ref_env sample_base rt (Some r)))),
       lib_VirtualMachines = (\<lambda>cfg. Inr (\<lambda>_. sample_rest_client cfg)), lib_VirtualMachineInstances = (\<lambda>cfg. Inr (\<lambda>_. sample_rest_client cfg)),
       lib_MarshalIndent = (\<lambda>_. Inr []), lib_YAML = (\<lambda>_. Inr []), lib_Sprint = (\<lambda>_. []) \<rparr>"

definition sample_vm :: goval where
  "sample_vm = Struct (PointerMethods ''vm'' ''n'') [(''Status'', Struct NoMethods [(''Phase'', Scalar ''Running'')])]"

lemma sample_vm_typed: "typed_object sample_vm ''vm'' ''n'' ''Running''"
  by (simp add: sample_vm_def typed_object_def)

theorem watch_prints_events_witness:
  "watchVirtualMachines \<lparr> rc_List = no_meta, rc_Get = (\<lambda>_. no_meta), rc_Watch = (\<lambda>_. Inr [Received ''ADDED'' (Pointer (Some sample_vm)), ChannelClosed]) \<rparr> ''vm''
      (Some (PrepareWatchOutput terminal newRootOptions)) (PrintWatchEvent terminal sample_clientlib newRootOptions) [] =
    (''TYPE  NAME  NAMESPACE  PHASE'' @ [eol] @ ''ADDED  vm  n  Running'' @ [eol], Returned None, True)"
proof -
  let ?c = "\<lparr> rc_List = no_meta, rc_Get = (\<lambda>_. no_meta), rc_Watch = (\<lambda>_. Inr [Received ''ADDED'' (Pointer (Some sample_vm)), ChannelClosed]) \<rparr>"
  have t: "is_table newRootOptions" by (simp add: is_table_def newRootOptions_def)
  have e: "list_all typed_event [(''ADDED'', ''vm'', ''n'', ''Running'', sample_vm)]"
    using sample_vm_typed by (simp add: typed_event_def clean_row_def clean_def tab_def eol_def)
  have r: "rc_Watch ?c (if ''vm'' \<noteq> [] then ''metadata.name='' @ ''vm'' else []) =
    Inr (map received [(''ADDED'', ''vm'', ''n'', ''Running'', sample_vm)] @ [ChannelClosed])" by (simp add: received_def)
  from watch_prints_events [OF t e r, of sample_clientlib "[]"] show ?thesis by (simp add: printed_def event_line_def tableHeaders_def)
qed


theorem vm_list_through_proxy_witness:
  "vm_Run terminal sample_clientlib newRootOptions False [] [] =
     (''NAME  NAMESPACE  PHASE'' @ [eol] @ ''a                '' @ [eol] @ ''b                '' @ [eol], Returned None)"
proof -
  let ?tr = "target_of ''/apis/g.io/v1/namespaces/n/rs''" and ?lib = sample_clientlib and ?j = "rj_abs sample_resources"
  note ok = sample_resources_ok
  have rules: "lib_Rules ?lib = sample_rules" by (simp add: sample_clientlib_def)
  have wf: "rules_wf (lib_Rules ?lib)" "rules_text (lib_Rules ?lib)" unfolding rules by code_simp+
  have j: "json_library (env_json ref_env) ref_D ref_V" using ref.json_library_axioms by simp
  have cfg: "lib_ClientConfig ?lib newRootOptions = Inr \<lparr> cfg_ContentType = [], cfg_WrapTransport = None \<rparr>" "lib_Namespace ?lib newRootOptions = Inr ''n''"
    by (simp_all add: sample_clientlib_def)
  have c: "\<exists>mk. lib_VirtualMachines ?lib cfg = Inr mk \<and> lists_through ref_env ref_D sample_base sample_list_request cfg (mk ''n'')" for cfg
    by (auto simp: sample_clientlib_def lists_through_def sample_rest_client_def sample_list_def)
  have u: "req_URL sample_list_request = Some (sample_url ''/apis/g.io/v1/namespaces/n/rs'')" "req_Body sample_list_request = None"
    by (simp_all add: sample_list_request_def)
  have tr: "NewTargetRequest (env_selectors ref_env) (rr_Init (lib_Rules ?lib)) (Some (URL.truncate (sample_url ''/apis/g.io/v1/namespaces/n/rs''))) = Some ?tr"
    using NewTargetRequest_sample [of "''/apis/g.io/v1/namespaces/n/rs''"] by (simp add: rules)
  have r: "tr_ShouldRewriteResponse ?tr" "\<not> tr_IsWatch ?tr" by code_simp+
  have t: "is_table newRootOptions" by (simp add: is_table_def newRootOptions_def)
  have rows: "map object_row (items_at ?j [''items'']) = [row_of [] ''a'' [] [], row_of [] ''b'' [] []]"
    unfolding ok(7) by (simp add: sample_item_def jtext_at_def)
  have clean: "list_all (\<lambda>v. clean_row (object_row v)) (items_at ?j [''items''])"
    unfolding ok(7) by (simp add: sample_item_def jtext_at_def clean_row_def clean_def tab_def eol_def)
  have d: "sample_base r = Inr (sample_answer (print sample_resources))" for r by (simp add: sample_base_def)
  have x: "filter (\<lambda>v. \<not> excluded (rr_Init sample_rules) (TrimSuffix ''PRList'' ''List'') v) xs = xs" for xs
    using ok(13) unfolding ok(16) by simp
  have m: "map (\<lambda>v. row_cells False (object_row v)) (items_at ?j [''items'']) = [[''a'', [], []], [''b'', [], []]]"
    unfolding ok(7) by (simp add: sample_item_def jtext_at_def row_cells.simps)
  have o: "concat (map (\<lambda>l. write_line (widths 2 [tableHeaders False, [''a'', [], []], [''b'', [], []]]) l @ [eol]) [tableHeaders False, [''a'', [], []], [''b'', [], []]]) =
    ''NAME  NAMESPACE  PHASE'' @ [eol] @ ''a                '' @ [eol] @ ''b                '' @ [eol]" by code_simp
  from vm_list_through_proxy [where E = ref_env and lib = ?lib and resp = "sample_answer (print sample_resources)" and w = "[]",
      OF j wf cfg(1) _ cfg(2) c u tr r d _ _ _ ref_doc [OF ok(1)] ok(2-4) _ _ _ _ _ t clean]
  show ?thesis unfolding Let_def rules ok(5) x m using ok(8-12) o by (simp del: append.simps)
qed

end
