(* ===== verification/Proxy_Flows.thy ===== *)
theory Proxy_Flows
  imports Proxy_Handler
begin

text \<open>
  The exchanges that go through the handler, put together from its parts: the reviews the API server
  sends to a webhook through the webhook proxy, lists the controller reads and patches it sends
  through the client proxy.

  Shown: what the other side is sent and what the caller gets back, in terms of JSON values, from the
  request on the wire to the answer on the wire.
\<close>

section \<open>Exchanges\<close>

lemma exchange:
  assumes "req_URL req = Some url" and "NewTargetRequest (env_selectors E) (h_Rules h) (Some (URL.truncate url)) = Some tr"
    and "tr_ShouldRewriteResponse tr" and "\<not> tr_IsWatch tr"
    and "transformRequest E (h_ProxyMode h) (h_Rules h) tr (to_target h req) = Inr (r, orig, rwr)"
    and "Do (r\<lparr> req_Body := request_body rwr orig (req_Body r) \<rparr>) = Inr (resp, reads)" and "plain_encoding resp"
    and "ReadAll (resp_Body resp) = Inr t" and "gjson_ValidBytes (env_json E) (Some t)"
    and "RewriteJSONPayload (env_json E) (env_order E) (h_Rules h) (Some t) (FromTargetAction (h_ProxyMode h)) = Inr (Some b)" and "ready_writer w"
  shows "answered (oc_writer (ServeHTTP E h Do w (Some req))) (resp_StatusCode resp) b \<and>
    oc_sent (ServeHTTP E h Do w (Some req)) = Some (r\<lparr> req_Body := request_body rwr orig (req_Body r) \<rparr>)"
proof -
  have "answered (fst (transformResponse E (h_ProxyMode h) (h_Rules h) (provider_of h) ctx tr w resp)) (resp_StatusCode resp) b" for ctx
    by (rule transformResponse_answers [OF assms(11,7-9)]) (simp add: assms(10))
  then have "\<exists>w' ops. respond E h ctx tr w resp = (Stopped, w', ops) \<and> answered w' (resp_StatusCode resp) b" for ctx
    by (rule respond_answers [OF assms(3,4)])
  from ServeHTTP_responds [where Do = Do and P = "\<lambda>w'. answered w' (resp_StatusCode resp) b", OF assms(1,2,5,6) this] show ?thesis by blast
qed

section \<open>Admission reviews through the webhook proxy\<close>

lemma review_kind: "\<not> HasSuffix ''AdmissionReview'' ''List''" "\<not> isExcludableKind ''AdmissionReview''"
  by code_simp+

context json_library
begin

lemma review_payload_yields:
  assumes "doc D x j" and "has_text j [''kind'']" and "jtext_at j [''kind''] = ''AdmissionReview''"
    and "yields D (RewriteAdmissionReview L rr x) i" and "jget i [''kind''] = jget j [''kind'']" and "jget i [''metadata''] = None"
  shows "yields D (RewriteJSONPayload L ord rr x action) i"
proof -
  note k = kind_of [OF assms(1,2), unfolded assms(3)]
  have f: "FilterExcludes L rr x action = Inr x" using k review_kind by (simp add: FilterExcludes_def)
  have s: "rewrite_by_kind L ord rr ''AdmissionReview'' x action = RewriteAdmissionReview L rr x" by (simp add: rewrite_by_kind_def)
  have "yields D (RewriteResourceOrList2 L y (\<lambda>s. TransformObject L s ''metadata'' (\<lambda>m. RewriteMetadata L rr m action))) i" if "doc D y i" for y
  proof -
    have "has_text i [''kind'']" "jtext_at i [''kind''] = ''AdmissionReview''"
      using assms(2,3,5) by (simp_all add: has_text_def jtext_at_def)
    moreover have "\<not> gjson_IsObject L (gjson_GetBytes L y ''metadata'')"
      using GetBytes [OF that, of "''metadata''"] assms(6) IsObject by simp
    ultimately show ?thesis
      using kind_of [OF that] that review_kind by (simp add: RewriteResourceOrList2_def TransformObject_def)
  qed
  then show ?thesis
    unfolding RewriteJSONPayload_def Let_def k f res_bind.simps s by (rule yields_bind [OF assms(4)])
qed

end

lemma webhook_request:
  assumes "rr_WebhookRule rr (url_Path u) = Some rule"
  shows "\<exists>tr. NewTargetRequest S rr (Some u) = Some tr \<and> tr_Path tr = wh_Path rule \<and>
    tr_ShouldRewriteRequest tr \<and> tr_ShouldRewriteResponse tr \<and> \<not> tr_IsWatch tr"
  using assms by (simp add: NewTargetRequest_def tr_Path_def tr_ShouldRewriteRequest_def tr_ShouldRewriteResponse_def tr_IsWatch_def)


section \<open>Reading lists and patching through the client proxy\<close>


lemma transformRequest_patch:
  assumes "req_URL req = Some url" and "req_Body req = Some bd" and "ReadAll bd = Inr t" and "tr_ShouldRewriteRequest tr"
    and "req_Method req = ''PATCH''" and "RewritePatch (env_json E) rr tr (Some t) = Inr (Some y)" and "y \<noteq> []"
  shows "\<exists>req'. transformRequest E mode rr tr req = Inr (req', Some t, Some y) \<and> req_Method req' = ''PATCH'' \<and>
    req_URL req' = Some (url\<lparr> url_Path := tr_Path tr, url_RawQuery := tr_RawQuery tr \<rparr>) \<and> req_ContentLength req' = int (length y)"
  using assms by (auto simp: transformRequest_def fix_length_def Let_def)

text \<open>
  C8. Patching a custom resource with a merge patch: the server is sent, on the rewritten path and with a fitting
  length, the patch with its metadata renamed and everything else as the client wrote it, and when it
  answers with the renamed form of a resource the client gets that resource.
\<close>

theorem merge_patch_exchange:
  assumes "json_library (env_json E) D V" and "rules_ready (h_Rules h)" and "replaces_wf (h_Rules h)" and "h_ProxyMode h = ToRenamed"
    and "req_URL req = Some url" and "NewTargetRequest (env_selectors E) (h_Rules h) (Some (URL.truncate url)) = Some tr"
    and "tr_ShouldRewriteRequest tr" and "tr_ShouldRewriteResponse tr" and "\<not> tr_IsWatch tr" and "\<not> tr_IsCRD tr"
    and "rr_ResourceRules (h_Rules h) (tr_OrigGroup tr) (tr_OrigResourceType tr) \<noteq> None"
    and "req_Method req = ''PATCH''" and "req_Body req = Some (Body cs None)" and "concat cs = CHR ''{'' # rest" and "doc D (Some (concat cs)) j"
    and "meta_ok (h_Rules h) Rename j" and "\<And>r. Do r = Inr (resp, reads r)" and "plain_encoding resp" and "ReadAll (resp_Body resp) = Inr t"
    and "doc D (Some t) (j_payload (h_Rules h) Rename c)" and "transparent (h_Rules h) c" and "ready_writer w"
  shows "\<exists>r u y b. oc_sent (ServeHTTP E h Do w (Some req)) = Some r \<and> req_Method r = ''PATCH'' \<and> req_URL r = Some u \<and> url_Path u = tr_Path tr \<and>
    req_Body r = Some (NewReader y) \<and> D y = Some (j_object [''metadata''] (j_metadata (h_Rules h) Rename) j) \<and> req_ContentLength r = int (length y) \<and>
    answered (oc_writer (ServeHTTP E h Do w (Some req))) (resp_StatusCode resp) b \<and> D b = Some c"
proof -
  let ?rr = "h_Rules h" and ?L = "env_json E"
  have "RewritePatch ?L ?rr tr (Some (concat cs)) = TransformObject ?L (Some (concat cs)) ''metadata'' (\<lambda>m. RewriteMetadata ?L ?rr m Rename)"
    using assms(10,11,14) by (auto simp: RewritePatch_def RenameResourcePatch_def RenameMetadataPatch_def)
  with json_library.metadata_step_yields [OF assms(1,2,15,16)] obtain y where
    y: "RewritePatch ?L ?rr tr (Some (concat cs)) = Inr (Some y)" "D y = Some (j_object [''metadata''] (j_metadata ?rr Rename) j)"
    by (auto simp: yields_def doc_def)
  then have ne: "y \<noteq> []" using json_library.empty_text [OF assms(1)] by auto
  obtain b where b: "RewriteJSONPayload ?L (env_order E) ?rr (Some t) Restore = Inr (Some b)" "D b = Some c"
    using json_library.payload_restored [OF assms(1-3,20,21), of "env_order E"] by (auto simp: yields_def doc_def)
  have v: "gjson_ValidBytes ?L (Some t)" by (rule json_library.ValidBytes [OF assms(1)]) (use assms(20) in \<open>auto simp: doc_def\<close>)
  obtain r where r: "transformRequest E (h_ProxyMode h) ?rr tr (to_target h req) = Inr (r, Some (concat cs), Some y)" "req_Method r = ''PATCH''"
    "\<exists>u. req_URL r = Some u \<and> url_Path u = tr_Path tr" "req_ContentLength r = int (length y)"
    using transformRequest_patch [of "to_target h req" _ "Body cs None" "concat cs" tr E ?rr y "h_ProxyMode h"] assms(5,7,12,13) y(1) ne
    by (fastforce simp: to_target_def)
  have "RewriteJSONPayload ?L (env_order E) ?rr (Some t) (FromTargetAction (h_ProxyMode h)) = Inr (Some b)"
    using b(1) assms(4) by (simp add: FromTargetAction_def)
  from exchange [where Do = Do, OF assms(5,6,8,9) r(1) assms(17-19) v this assms(22)] r(2-4) y(2) b(2)
  show ?thesis by (force simp: request_body_def)
qed

text \<open>A patch with a version and a kind, as an apply patch has, is sent with the original ones to the renamed resource.\<close>

lemma patch_keeps_kind: "jget (j_object [''metadata''] f j) [''kind''] = jget j [''kind'']" "jget (j_object [''metadata''] f j) [''apiVersion''] = jget j [''apiVersion'']"
  by (simp_all add: jget_j_object)

section \<open>Concrete exchanges\<close>

definition answers :: "string \<Rightarrow> transport" where
  "answers t r = Inr (sample_answer t, [])"


definition sample_merge_patch :: rj where
  "sample_merge_patch = RObj [(''metadata'', RObj [(''annotations'', RObj [(''g.io/a'', RStr ''v'')])])]"

theorem merge_patch_exchange_witness:
  "\<exists>y b. map_option req_Body (oc_sent (ServeHTTP ref_env sample_handler (answers (print (sample_custom ''x.g.io/v1'' ''PR''))) (fresh_writer [])
       (Some (sample_http ''PATCH'' ''/apis/g.io/v1/namespaces/n/rs/n'' (Some (print sample_merge_patch)))))) = Some (Some (NewReader y)) \<and>
     ref_D y = Some (j_object [''metadata''] (j_metadata (rr_Init sample_rules) Rename) (rj_abs sample_merge_patch)) \<and>
     answered (oc_writer (ServeHTTP ref_env sample_handler (answers (print (sample_custom ''x.g.io/v1'' ''PR''))) (fresh_writer [])
       (Some (sample_http ''PATCH'' ''/apis/g.io/v1/namespaces/n/rs/n'' (Some (print sample_merge_patch)))))) 200 b \<and>
     ref_D b = Some (rj_abs (sample_custom ''g.io/v1'' ''R''))"
proof -
  let ?p = "''/apis/g.io/v1/namespaces/n/rs/n''" and ?rr = "rr_Init sample_rules" and ?c = "rj_abs (sample_custom ''g.io/v1'' ''R'')"
  let ?tr = "target_of ?p" and ?req = "sample_http ''PATCH'' ?p (Some (print sample_merge_patch))"
  let ?a = "print (sample_custom ''x.g.io/v1'' ''PR'')"
  have c: "tr_ShouldRewriteRequest ?tr" "tr_ShouldRewriteResponse ?tr" "\<not> tr_IsWatch ?tr" "\<not> tr_IsCRD ?tr"
    "rr_ResourceRules ?rr (tr_OrigGroup ?tr) (tr_OrigResourceType ?tr) \<noteq> None" "rj_ok sample_merge_patch" "rj_ok (sample_custom ''x.g.io/v1'' ''PR'')"
    "known_kind ?rr ''R''" "single_custom ''R''" "rr_RenameKind ?rr ''R'' = ''PR''" "single_custom ''PR''" by code_simp+
  have j: "json_library (env_json ref_env) ref_D ref_V" using ref.json_library_axioms by simp
  have d: "answers ?a r = Inr (sample_answer ?a, [])" for r by (simp add: answers_def)
  have n: "name_survives (rr_annotationsRewriter ?rr) ''g.io/a'' ''v''" by code_simp
  have m: "meta_ok ?rr Rename (rj_abs sample_merge_patch)"
    by (simp add: sample_merge_patch_def meta_ok_def metadata_ok_def map_ok_def no_clash_def members_at_def has_text_map_def
      has_text_array_def has_array_def items_at_def)
  have k: "jtext_at ?c [''kind''] = ''R''" by (simp add: sample_custom_def jtext_at_def)
  have t: "transparent ?rr ?c"
    unfolding transparent_def k sample_custom_renamed(2) c(10)
    using c(8,9,11) sample_custom_renamed(1)
    by (simp add: exclude_typed_def sample_custom_def has_text_def has_text_map_def excluded_def sample_excludes excluded_by_def)
  have b: "concat [print sample_merge_patch] = CHR ''{'' # tl (print sample_merge_patch)" by (simp add: sample_merge_patch_def)
  have r: "h_Rules sample_handler = rr_Init sample_rules" by simp
  have a: "doc ref_D (Some ?a) (j_payload (h_Rules sample_handler) Rename ?c)" using ref_doc [OF c(7)] sample_custom_renamed(2) by simp
  have e: "doc ref_D (Some (concat [print sample_merge_patch])) (rj_abs sample_merge_patch)" using ref_doc [OF c(6)] by simp
  from merge_patch_exchange [where E = ref_env and h = sample_handler and req = ?req and Do = "answers ?a" and reads = "\<lambda>_. []"
      and resp = "sample_answer ?a" and w = "fresh_writer []",
      OF j _ _ _ _ NewTargetRequest_sample c(1-4) c(5) [folded r] _ _ b e m [folded r] d _ _ a t [folded r]]
  show ?thesis using sample_rules_ready sample_replaces_wf by fastforce
qed

definition sample_review_answer :: rj where
  "sample_review_answer = RObj [(''kind'', RStr ''AdmissionReview''),
     (''response'', RObj [(''patchType'', RStr ''JSONPatch''), (''patch'', RStr (EncodeToString (print (RArr [sample_patch]))))])]"

definition webhook_handler :: Handler where
  "webhook_handler = sample_handler\<lparr> h_ProxyMode := ToOriginal \<rparr>"


end
