(* ===== verification/Resource_Discovery.thy ===== *)
theory Resource_Discovery
  imports Discovery Crd
begin

text \<open>
  What the client sees of the resources of one group and version: \<^verbatim>\<open>RewriteAPIResourceList\<close> of
  \<^verbatim>\<open>pkg/rewriter/discovery.go\<close> as a function on JSON values.

  Shown: the list of a renamed group comes back under the original group, its resources in the order of
  the server, each one that has a rule under its original names and the categories of its rule and every
  other one unchanged; lists of other groups are passed on as they are.
\<close>

definition j_discovered :: "RewriteRules \<Rightarrow> string \<Rightarrow> json \<Rightarrow> json" where
  "j_discovered rr grp v =
     (let orig = rr_RestoreResource rr (jtext_at v [''name'']) in
      case rr_ResourceRules rr grp orig of
        None \<Rightarrow> v
      | Some (_, res) \<Rightarrow>
          (let v = j_strings [''shortNames''] (rr_RestoreShortName rr) (j_string [''singularName''] (rr_RestoreResource rr)
                 (j_string [''kind''] (rr_RestoreKind rr) (j_string [''name''] (\<lambda>_. orig) v)))
           in if jget v [''categories''] = None then v else jset v [''categories''] (gv_json (VStrings (rs_Categories res)))))"

definition discovered_ok :: "json \<Rightarrow> bool" where
  "discovered_ok v \<longleftrightarrow> has_text v [''name''] \<and> has_text v [''kind''] \<and> has_text v [''singularName''] \<and> has_text_array v [''shortNames'']"

lemma jget_j_string: "jget j ks = Some (JStr s) \<Longrightarrow> jget (j_string ks f j) ks = Some (JStr (f s))"
  using jget_settable [of j ks] by (simp add: j_string_def jtext_at_def)

lemma j_discovered_names:
  assumes "jget v [''name''] = Some (JStr (rr_RenameResource rr r))" and "jget v [''kind''] = Some (JStr (rr_RenameKind rr k))"
    and "rr_ResourceRules rr grp r = Some p"
  shows "jget (j_discovered rr grp v) [''name''] = Some (JStr r) \<and> jget (j_discovered rr grp v) [''kind''] = Some (JStr k)"
proof -
  have r: "rr_RestoreResource rr (jtext_at v [''name'']) = r" "rr_RestoreKind rr (rr_RenameKind rr k) = k"
    using assms(1) by (simp_all add: jtext_at_def rr_RestoreResource_def rr_RenameResource_def rr_RestoreKind_def rr_RenameKind_def)
  have "jget (j_string [''kind''] (rr_RestoreKind rr) (j_string [''name''] (\<lambda>_. r) v)) [''kind''] = Some (JStr k)"
    by (subst jget_j_string [of _ _ "rr_RenameKind rr k"]) (use assms(2) r(2) in simp_all)
  moreover have "jget (j_string [''name''] (\<lambda>_. r) v) [''name''] = Some (JStr r)" by (rule jget_j_string [OF assms(1)])
  ultimately show ?thesis
    using assms(3) r(1) by (cases p) (auto simp: j_discovered_def Let_def jget_jset_forks)
qed

lemma ResourceRules_text:
  assumes "rules_ready rr" and "rr_ResourceRules rr g r = Some (gr, res)"
  shows "resource_text res"
proof -
  obtain g' ag r' where "(g', ag) \<in> set (rr_Rules rr)" "(r', res) \<in> set (ag_ResourceRules ag)"
    using assms(2) by (auto simp: rr_ResourceRules_def dest: map_of_SomeD split: prod.splits option.splits)
  then show ?thesis using assms(1) by (fastforce simp: rules_ready_def rules_text_def list_all_iff)
qed

context json_library
begin

lemma discovered_yields:
  assumes "rules_ready rr" and "doc D x v" and "discovered_ok v"
  shows "yields D (restore_resource_item L rr grp x) (j_discovered rr grp v)"
proof -
  note ok = assms(3) [unfolded discovered_ok_def]
  have name: "gjson_String L (gjson_GetBytes L x ''name'') = jtext_at v [''name'']"
    using String_at [OF assms(2), of "''name''"] ok by simp
  let ?o = "rr_RestoreResource rr (jtext_at v [''name''])"
  show ?thesis
  proof (cases "rr_ResourceRules rr grp ?o")
    case None
    then show ?thesis using assms(2) by (simp add: restore_resource_item_def j_discovered_def name)
  next
    case (Some p)
    obtain gr res where p: "p = (gr, res)" by (cases p)
    have t: "resource_text res" using ResourceRules_text [OF assms(1)] Some p by simp
    let ?n = "j_string [''name''] (\<lambda>_. ?o) v"
    let ?k = "j_string [''kind''] (rr_RestoreKind rr) ?n"
    let ?s = "j_string [''singularName''] (rr_RestoreResource rr) ?k"
    let ?h = "j_strings [''shortNames''] (rr_RestoreShortName rr) ?s"
    let ?c = "if jget ?h [''categories''] = None then ?h else jset ?h [''categories''] (gv_json (VStrings (rs_Categories res)))"
    have e: "j_discovered rr grp v = ?c" using Some p by (simp add: j_discovered_def Let_def)
    have "yields D (res_bind (TransformString L x ''name'' (\<lambda>_. ?o)) (\<lambda>y. res_bind (TransformString L y ''kind'' (rr_RestoreKind rr)) (\<lambda>y.
      res_bind (TransformString L y ''singularName'' (rr_RestoreResource rr)) (\<lambda>y. res_bind (TransformArrayOfStrings L y ''shortNames'' (rr_RestoreShortName rr)) (\<lambda>y.
      if gjson_Exists L (gjson_GetBytes L y ''categories'') then sjson_SetBytes L y ''categories'' (VStrings (rr_RestoreCategories (Some res))) else Inr y))))) ?c"
    proof (intro yields_bind)
      show "yields D (TransformString L x ''name'' (\<lambda>_. ?o)) ?n"
        using TransformString_yields [OF assms(2), of "''name''" "\<lambda>_. ?o"] ok ready_text(6) [OF assms(1) utf8_jtext_at [OF assms(2)]] by simp
      show "yields D (TransformString L y ''kind'' (rr_RestoreKind rr)) ?k" if "doc D y ?n" for y
        using TransformString_yields [OF that, of "''kind''" "rr_RestoreKind rr"] ok ready_text(4) [OF assms(1) utf8_jtext_at [OF that]]
          place_cong(3) [of ?n "[''kind'']" v] by simp
      show "yields D (TransformString L y ''singularName'' (rr_RestoreResource rr)) ?s" if "doc D y ?k" for y
        using TransformString_yields [OF that, of "''singularName''" "rr_RestoreResource rr"] ok ready_text(6) [OF assms(1) utf8_jtext_at [OF that]]
          place_cong(3) [of ?k "[''singularName'']" v] by simp
      show "yields D (TransformArrayOfStrings L y ''shortNames'' (rr_RestoreShortName rr)) ?h" if "doc D y ?s" for y
        using TransformArrayOfStrings_yields [OF that, of "''shortNames''" "rr_RestoreShortName rr"] ok ready_text(8) [OF assms(1) utf8_item_text [OF that]]
          place_cong(2) [of ?s "[''shortNames'']" v] by simp
      show "yields D (if gjson_Exists L (gjson_GetBytes L y ''categories'') then sjson_SetBytes L y ''categories'' (VStrings (rr_RestoreCategories (Some res))) else Inr y) ?c"
        if "doc D y ?h" for y
        using that GetBytes [OF that, of "''categories''"] SetBytes [OF that, of "''categories''" "VStrings (rs_Categories res)"]
          gv_ok_categories(2) [OF assms(1) t] jget_settable [of ?h "[''categories'']"]
        by (cases "jget ?h [''categories'']") (simp_all add: Exists rr_RestoreCategories_def del: gv_json.simps)
    qed
    with Some p e show ?thesis by (simp add: restore_resource_item_def name)
  qed
qed

end

text \<open>
  C18. Discovery of resources: for a renamed group and version the client gets the original group and version
  and the resources of the server in their order, each restored as \<open>j_discovered\<close> says; a resource under
  the renamed form of a name with a rule has that name and its kind without the prefix. A list of any
  other group is passed on unchanged.
\<close>

theorem resource_list_restored:
  assumes "json_library L D V" and "rules_ready rr" and "doc D x j" and "jget j [''groupVersion''] = Some (JStr gv)"
    and "has_array j [''resources'']" and "list_all discovered_ok (items_at j [''resources''])"
  shows "if rr_IsRenamedGroup rr gv
    then \<exists>i. yields D (RewriteAPIResourceList L rr x) i \<and> jget i [''groupVersion''] = Some (JStr (rr_RestoreApiVersion rr gv)) \<and>
      items_at i [''resources''] = map (j_discovered rr (rr_RestoreApiVersion rr gv)) (items_at j [''resources'']) \<and>
      (\<forall>v r k. jget v [''name''] = Some (JStr (rr_RenameResource rr r)) \<and> jget v [''kind''] = Some (JStr (rr_RenameKind rr k)) \<and>
         rr_ResourceRules rr (rr_RestoreApiVersion rr gv) r \<noteq> None \<longrightarrow>
         jget (j_discovered rr (rr_RestoreApiVersion rr gv) v) [''name''] = Some (JStr r) \<and>
         jget (j_discovered rr (rr_RestoreApiVersion rr gv) v) [''kind''] = Some (JStr k))
    else RewriteAPIResourceList L rr x = Inr x"
proof -
  have g: "gjson_String L (gjson_GetBytes L x ''groupVersion'') = gv"
    using json_library.String_at [OF assms(1,3), of "''groupVersion''"] assms(4) by (simp add: has_text_def jtext_at_def)
  let ?o = "rr_RestoreApiVersion rr gv"
  let ?j = "jset j [''groupVersion''] (JStr ?o)" and ?f = "\<lambda>v. Some (j_discovered rr ?o v)"
  let ?i = "j_array [''resources''] ?f ?j"
  have u: "utf8 gv" using json_library.utf8_jtext_at [OF assms(1,3), of "[''groupVersion'']"] assms(4) by (simp add: jtext_at_def)
  have r: "jget ?j [''resources''] = jget j [''resources'']" by (simp add: jget_jset_forks)
  have "yields D (res_bind (sjson_SetBytes L x ''groupVersion'' (VString ?o)) (\<lambda>y. RewriteArray L y ''resources'' (restore_resource_item L rr ?o))) ?i"
  proof (rule yields_bind)
    show "yields D (sjson_SetBytes L x ''groupVersion'' (VString ?o)) ?j"
      using json_library.SetString_yields [OF assms(1,3), of "''groupVersion''" ?o] jget_settable [OF assms(4)] ready_text(2) [OF assms(2) u] by simp
    fix y
    assume y: "doc D y ?j"
    have "item_ok D (restore_resource_item L rr ?o z) v (?f v)" if "v \<in> set (items_at ?j [''resources''])" "doc D z v" for v z
      using json_library.discovered_yields [OF assms(1,2) that(2)] that(1) assms(6) place_cong(5) [OF r]
      by (intro item_ok_Some) (simp add: list_all_iff)
    then show "yields D (RewriteArray L y ''resources'' (restore_resource_item L rr ?o)) ?i"
      using json_library.RewriteArray_yields [OF assms(1) y, of "''resources''" "restore_resource_item L rr ?o" ?f] assms(5) place_cong(1) [OF r]
      by (simp add: Root_def)
  qed
  moreover have "jget ?i [''groupVersion''] = Some (JStr ?o)" using jget_settable [OF assms(4)] by simp
  moreover have "items_at ?i [''resources''] = map (j_discovered rr ?o) (items_at j [''resources''])"
    using items_at_j_array [of "[''resources'']" "j_discovered rr ?o" ?j] place_cong(5) [OF r] by simp
  ultimately show ?thesis
    unfolding RewriteAPIResourceList_def Let_def g
    by (cases "rr_IsRenamedGroup rr gv") (simp_all, intro exI [of _ ?i] conjI allI impI, simp_all, (use j_discovered_names in blast)+)
qed

definition sample_resource_list :: rj where
  "sample_resource_list = RObj [(''kind'', RStr ''APIResourceList''), (''groupVersion'', RStr ''x.g.io/v1''), (''resources'', RArr [
     RObj [(''name'', RStr ''prs''), (''singularName'', RStr ''pr''), (''kind'', RStr ''PR''), (''shortNames'', RArr [RStr ''psr'']), (''categories'', RArr [RStr ''pall''])],
     RObj [(''name'', RStr ''other''), (''kind'', RStr ''Other'')]])]"

theorem resource_list_restored_witness:
  "\<exists>i v. yields ref_D (RewriteAPIResourceList ref_lib (rr_Init sample_rules) (Some (print sample_resource_list))) i \<and>
    jget i [''groupVersion''] = Some (JStr ''g.io/v1'') \<and> hd (items_at i [''resources'']) = v \<and>
    jget v [''name''] = Some (JStr ''rs'') \<and> jget v [''kind''] = Some (JStr ''R'')"
proof -
  let ?rr = "rr_Init sample_rules" and ?j = "rj_abs sample_resource_list"
  have c: "rj_ok sample_resource_list" "rr_IsRenamedGroup ?rr ''x.g.io/v1''" "rr_RestoreApiVersion ?rr ''x.g.io/v1'' = ''g.io/v1''"
    "rr_ResourceRules ?rr ''g.io/v1'' ''rs'' \<noteq> None" "rr_RenameResource ?rr ''rs'' = ''prs''" "rr_RenameKind ?rr ''R'' = ''PR''" by code_simp+
  have g: "jget ?j [''groupVersion''] = Some (JStr ''x.g.io/v1'')" "has_array ?j [''resources'']" "list_all discovered_ok (items_at ?j [''resources''])"
    by (simp_all add: sample_resource_list_def has_array_def items_at_def discovered_ok_def has_text_def has_text_array_def)
  obtain v vs where v: "items_at ?j [''resources''] = v # vs" "jget v [''name''] = Some (JStr ''prs'')" "jget v [''kind''] = Some (JStr ''PR'')"
    by (simp add: sample_resource_list_def items_at_def)
  from resource_list_restored [OF ref.json_library_axioms sample_rules_ready ref_doc [OF c(1)] g, unfolded c(3) v(1), simplified c(2) if_True] obtain i where
    i: "yields ref_D (RewriteAPIResourceList ref_lib ?rr (Some (print sample_resource_list))) i" "jget i [''groupVersion''] = Some (JStr ''g.io/v1'')"
    "items_at i [''resources''] = map (j_discovered ?rr ''g.io/v1'') (v # vs)"
    "\<forall>v r k. jget v [''name''] = Some (JStr (rr_RenameResource ?rr r)) \<and> jget v [''kind''] = Some (JStr (rr_RenameKind ?rr k)) \<and>
       rr_ResourceRules ?rr ''g.io/v1'' r \<noteq> None \<longrightarrow>
       jget (j_discovered ?rr ''g.io/v1'' v) [''name''] = Some (JStr r) \<and> jget (j_discovered ?rr ''g.io/v1'' v) [''kind''] = Some (JStr k)"
    by auto
  have "jget (j_discovered ?rr ''g.io/v1'' v) [''name''] = Some (JStr ''rs'') \<and> jget (j_discovered ?rr ''g.io/v1'' v) [''kind''] = Some (JStr ''R'')"
    by (rule i(4) [rule_format]) (use c(4-6) v(2,3) in simp)
  with i(1-3) show ?thesis by (intro exI [of _ i] exI [of _ "j_discovered ?rr ''g.io/v1'' v"]) simp
qed

end
