(* ===== verification/Server.thy ===== *)
theory Server
  imports Prelude
begin

text \<open>
  HTTP servers and the group that runs them, \<^verbatim>\<open>pkg/server/http_server.go\<close> and \<^verbatim>\<open>runnable_group.go\<close>.

  Listening, serving and shutting down belong to \<^verbatim>\<open>net/http\<close>: whether they fail is an argument. The
  certificate manager itself is in theory \<open>Cert_Manager\<close>. A group
  is a step relation: \<^verbatim>\<open>init\<close> and \<^verbatim>\<open>Stop\<close> hold a lock of the server and are one step each, serving
  ends in a step of its own, and the group waits for the first server to end and then stops all.

  Shown: a group stops its servers only after one of them has ended, and has stopped all of them when it
  is done; a server that was stopped never begins to serve; stopping never replaces an error that
  was recorded; every run of a group ends, with all servers stopped.
\<close>

section \<open>One server\<close>

datatype net_error = ErrServerClosed | ErrClosed | OtherError error

text \<open>Of its certificate manager a server knows whether it started it and whether it stopped it.\<close>

record cert_handle =
  ch_started :: bool
  ch_stopped :: bool

record HTTPServer =
  InstanceDesc :: string
  ListenAddr :: string
  CertManager :: "cert_handle option"
  Err :: "error option"
  stopped :: bool
  instanced :: bool

definition hs_init :: "(string \<Rightarrow> error option) \<Rightarrow> HTTPServer \<Rightarrow> HTTPServer \<times> bool" where
  "hs_init Listen s =
     (if stopped s then (s, False)
      else (case Listen (ListenAddr s) of
        Some err \<Rightarrow> (s\<lparr> Err := Some err \<rparr>, False)
      | None \<Rightarrow> (s\<lparr> instanced := True \<rparr>, True)))"

text \<open>The middle of \<^verbatim>\<open>Start\<close>: the certificate manager is started in a goroutine.\<close>

definition hs_start_certs :: "HTTPServer \<Rightarrow> HTTPServer" where
  "hs_start_certs s = s\<lparr> CertManager := map_option (\<lambda>c. c\<lparr> ch_started := True \<rparr>) (CertManager s) \<rparr>"

text \<open>The end of \<^verbatim>\<open>Start\<close>: what serving returned.\<close>

definition hs_served :: "net_error option \<Rightarrow> HTTPServer \<Rightarrow> HTTPServer" where
  "hs_served err s = (case err of Some (OtherError e) \<Rightarrow> s\<lparr> Err := Some e \<rparr> | _ \<Rightarrow> s)"

text \<open>The callback that \<^verbatim>\<open>setupTLS\<close> installs.\<close>

definition GetCertificate :: "'c option \<Rightarrow> 'c res" where
  "GetCertificate current =
     (case current of
       None \<Rightarrow> Inl (Errorf ''no server certificate, server is not yet ready to receive traffic'')
     | Some cert \<Rightarrow> Inr cert)"

definition hs_Stop :: "net_error option \<Rightarrow> HTTPServer \<Rightarrow> HTTPServer" where
  "hs_Stop shutdown s =
     (if stopped s then s
      else (let s = s\<lparr> stopped := True, CertManager := map_option (\<lambda>c. c\<lparr> ch_stopped := True \<rparr>) (CertManager s) \<rparr> in
        if instanced s
        then (case shutdown of
            Some (OtherError e) \<Rightarrow> if Err s \<noteq> None then s else s\<lparr> Err := Some e \<rparr>
          | _ \<Rightarrow> s)
        else s))"

definition ConstructListenAddr :: "string \<Rightarrow> string \<Rightarrow> string \<Rightarrow> string \<Rightarrow> string" where
  "ConstructListenAddr addr port defaultAddr defaultPort =
     (if addr = [] then defaultAddr else addr) @ '':'' @ (if port = [] then defaultPort else port)"

section \<open>A group of servers\<close>

datatype phase = Pending | Listening | Serving | Finished

datatype group_phase = Running | Stopping | Done

record group =
  g_phase :: group_phase
  g_servers :: "(phase \<times> HTTPServer) list"

definition NewRunnableGroup :: group where
  "NewRunnableGroup = \<lparr> g_phase = Running, g_servers = [] \<rparr>"

definition rg_Add :: "group \<Rightarrow> HTTPServer \<Rightarrow> group" where
  "rg_Add rg r = rg\<lparr> g_servers := g_servers rg @ [(Pending, r)] \<rparr>"

text \<open>
  \<^verbatim>\<open>Start\<close> of the group: every server starts in a goroutine, the first that returns closes the channel
  the group waits for, then every server is stopped in a goroutine, and the group returns when all
  those have returned.
\<close>

inductive rg_step :: "(string \<Rightarrow> error option) \<Rightarrow> group \<Rightarrow> group \<Rightarrow> bool" for Listen :: "string \<Rightarrow> error option" where
  begins: "i < length (g_servers g) \<Longrightarrow> g_servers g ! i = (Pending, s) \<Longrightarrow> hs_init Listen s = (s', ok) \<Longrightarrow>
    rg_step Listen g (g\<lparr> g_servers := (g_servers g)[i := (if ok then Listening else Finished, s')] \<rparr>)"
| serves: "i < length (g_servers g) \<Longrightarrow> g_servers g ! i = (Listening, s) \<Longrightarrow>
    rg_step Listen g (g\<lparr> g_servers := (g_servers g)[i := (Serving, hs_start_certs s)] \<rparr>)"
| ends: "i < length (g_servers g) \<Longrightarrow> g_servers g ! i = (Serving, s) \<Longrightarrow>
    rg_step Listen g (g\<lparr> g_servers := (g_servers g)[i := (Finished, hs_served err s)] \<rparr>)"
| one_stopped: "g_phase g = Running \<Longrightarrow> i < length (g_servers g) \<Longrightarrow> fst (g_servers g ! i) = Finished \<Longrightarrow>
    rg_step Listen g (g\<lparr> g_phase := Stopping \<rparr>)"
| stops: "g_phase g = Stopping \<Longrightarrow> i < length (g_servers g) \<Longrightarrow> g_servers g ! i = (ph, s) \<Longrightarrow> \<not> stopped s \<Longrightarrow>
    rg_step Listen g (g\<lparr> g_servers := (g_servers g)[i := (ph, hs_Stop err s)] \<rparr>)"
| all_stopped: "g_phase g = Stopping \<Longrightarrow> list_all (\<lambda>(_, s). stopped s) (g_servers g) \<Longrightarrow> rg_step Listen g (g\<lparr> g_phase := Done \<rparr>)"

definition certs_inv :: "phase \<Rightarrow> HTTPServer \<Rightarrow> bool" where
  "certs_inv ph s \<longleftrightarrow> (case CertManager s of None \<Rightarrow> True
     | Some c \<Rightarrow> ch_stopped c = stopped s \<and> (ph = Serving \<longrightarrow> ch_started c) \<and> (ch_started c \<longrightarrow> ph \<in> {Serving, Finished}))"

definition group_inv :: "group \<Rightarrow> bool" where
  "group_inv g \<longleftrightarrow>
     (case g_phase g of
       Running \<Rightarrow> list_all (\<lambda>(_, s). \<not> stopped s) (g_servers g)
     | Stopping \<Rightarrow> list_ex (\<lambda>(ph, _). ph = Finished) (g_servers g)
     | Done \<Rightarrow> list_ex (\<lambda>(ph, _). ph = Finished) (g_servers g) \<and> list_all (\<lambda>(_, s). stopped s) (g_servers g)) \<and>
     list_all (\<lambda>(ph, s). (ph \<in> {Listening, Serving} \<longrightarrow> instanced s) \<and> (instanced s \<longrightarrow> ph \<noteq> Pending) \<and> certs_inv ph s) (g_servers g)"

lemma hs_init_simps:
  "hs_init Listen s = (s', ok) \<Longrightarrow> stopped s' = stopped s"
  "hs_init Listen s = (s', ok) \<Longrightarrow> ok \<Longrightarrow> instanced s' \<and> \<not> stopped s"
  "hs_init Listen s = (s', ok) \<Longrightarrow> \<not> ok \<Longrightarrow> instanced s' = instanced s"
  by (auto simp: hs_init_def split: if_splits option.splits)

lemma hs_start_certs_simps [simp]: "stopped (hs_start_certs s) = stopped s" "instanced (hs_start_certs s) = instanced s"
  by (simp_all add: hs_start_certs_def)

lemma certs_inv_steps:
  "hs_init Listen s = (s', ok) \<Longrightarrow> certs_inv Pending s \<Longrightarrow> certs_inv (if ok then Listening else Finished) s'"
  "certs_inv Listening s \<Longrightarrow> certs_inv Serving (hs_start_certs s)"
  "certs_inv Serving s \<Longrightarrow> certs_inv Finished (hs_served err s)"
  "certs_inv ph s \<Longrightarrow> certs_inv ph (hs_Stop err s)"
  by (auto simp: certs_inv_def hs_init_def hs_start_certs_def hs_served_def hs_Stop_def Let_def split: if_splits option.splits net_error.splits)

lemma hs_served_simps [simp]: "stopped (hs_served e s) = stopped s" "instanced (hs_served e s) = instanced s"
  by (auto simp: hs_served_def split: option.split net_error.split)

lemma hs_Stop_simps [simp]: "stopped (hs_Stop e s)" "instanced (hs_Stop e s) = instanced s"
  by (auto simp: hs_Stop_def Let_def split: option.split net_error.split)

lemma list_all_update: "list_all P xs \<Longrightarrow> P x \<Longrightarrow> list_all P (xs[i := x])"
  by (auto simp: list_all_iff dest!: set_update_subset_insert [THEN subsetD])

lemma list_ex_update: "list_ex P xs \<Longrightarrow> P (xs ! i) \<longrightarrow> P x \<Longrightarrow> list_ex P (xs[i := x])"
  unfolding list_ex_length by (metis length_list_update nth_list_update nth_list_update_neq)

lemma inv_rg_step: "rg_step Listen g g' \<Longrightarrow> group_inv g \<Longrightarrow> group_inv g'"
proof (induction rule: rg_step.induct)
  case (begins i g s s' ok)
  note h = hs_init_simps [OF begins(3)] and n = nth_mem [OF begins(1), unfolded begins(2)]
  have "\<not> instanced s" using begins(4) n by (auto simp: group_inv_def list_all_iff)
  moreover have "certs_inv (if ok then Listening else Finished) s'"
    using begins(4) n certs_inv_steps(1) [OF begins(3)] by (auto simp: group_inv_def list_all_iff)
  ultimately show ?case
    using begins h n by (cases ok; cases "g_phase g") (auto simp: group_inv_def list_all_iff intro!: list_ex_update dest!: set_update_subset_insert [THEN subsetD])
next
  case (serves i g s)
  note n = nth_mem [OF serves(1), unfolded serves(2)]
  show ?case
    using serves n by (cases "g_phase g") (auto simp: group_inv_def certs_inv_steps(2) list_all_iff intro!: list_ex_update dest!: set_update_subset_insert [THEN subsetD])
next
  case (ends i g s err)
  note n = nth_mem [OF ends(1), unfolded ends(2)]
  show ?case
    using ends n by (cases "g_phase g") (auto simp: group_inv_def certs_inv_steps(3) list_all_iff intro!: list_ex_update dest!: set_update_subset_insert [THEN subsetD])
next
  case (one_stopped g i)
  then show ?case by (auto simp: group_inv_def list_ex_length case_prod_beta)
next
  case (stops g i ph s err)
  note n = nth_mem [OF stops(2), unfolded stops(3)]
  show ?case
    using stops n by (auto simp: group_inv_def certs_inv_steps(4) list_all_iff intro!: list_ex_update dest!: set_update_subset_insert [THEN subsetD])
next
  case (all_stopped g)
  then show ?case by (auto simp: group_inv_def)
qed

definition fresh_group :: "HTTPServer list \<Rightarrow> group" where
  "fresh_group ss = foldl rg_Add NewRunnableGroup ss"

definition fresh_server :: "HTTPServer \<Rightarrow> bool" where
  "fresh_server s \<longleftrightarrow> \<not> stopped s \<and> \<not> instanced s \<and> CertManager s \<in> {None, Some \<lparr> ch_started = False, ch_stopped = False \<rparr>}"

lemma fresh_group_servers: "g_phase (fresh_group ss) = Running \<and> g_servers (fresh_group ss) = map (Pair Pending) ss"
  by (induction ss rule: rev_induct) (simp_all add: fresh_group_def NewRunnableGroup_def rg_Add_def)

lemma inv_group_reachable:
  "(rg_step Listen)\<^sup>*\<^sup>* (fresh_group ss) g \<Longrightarrow> list_all fresh_server ss \<Longrightarrow> group_inv g"
proof (induction rule: rtranclp_induct)
  case base
  then show ?case using fresh_group_servers [of ss] by (auto simp: group_inv_def certs_inv_def fresh_server_def list_all_iff)
next
  case (step g g')
  then show ?case using inv_rg_step by blast
qed

section \<open>Properties\<close>

lemma hs_Stop_keeps_error: "Err s = Some e \<Longrightarrow> Err (hs_Stop err s) = Some e"
  by (auto simp: hs_Stop_def Let_def split: option.split net_error.split)

text \<open>
  C29. The group of servers: a server is stopped only once one of them has ended, all are stopped when
  the group is done, their certificate managers included, and a server that was stopped before it
  began to listen never does.
\<close>

theorem group_stops_together:
  assumes "list_all fresh_server ss" and "(rg_step Listen)\<^sup>*\<^sup>* (fresh_group ss) g"
  shows "(list_ex (\<lambda>(_, s). stopped s) (g_servers g) \<longrightarrow> list_ex (\<lambda>(ph, _). ph = Finished) (g_servers g)) \<and>
    (g_phase g = Done \<longrightarrow> list_all (\<lambda>(_, s). stopped s \<and> (\<forall>c. CertManager s = Some c \<longrightarrow> ch_stopped c)) (g_servers g)) \<and>
    (\<forall>g' i s. rg_step Listen g g' \<and> i < length (g_servers g) \<and> g_servers g ! i = (Pending, s) \<and> stopped s \<longrightarrow> fst (g_servers g' ! i) \<in> {Pending, Finished})"
proof (intro conjI allI impI)
  note inv = inv_group_reachable [OF assms(2,1)]
  show "list_ex (\<lambda>(_, s). stopped s) (g_servers g) \<Longrightarrow> list_ex (\<lambda>(ph, _). ph = Finished) (g_servers g)"
    using inv by (auto simp: group_inv_def list_all_iff list_ex_iff split: group_phase.splits)
  show "g_phase g = Done \<Longrightarrow> list_all (\<lambda>(_, s). stopped s \<and> (\<forall>c. CertManager s = Some c \<longrightarrow> ch_stopped c)) (g_servers g)"
    using inv by (fastforce simp: group_inv_def certs_inv_def list_all_iff)
  fix g' i s
  assume a: "rg_step Listen g g' \<and> i < length (g_servers g) \<and> g_servers g ! i = (Pending, s) \<and> stopped s"
  then have "rg_step Listen g g'" by simp
  then show "fst (g_servers g' ! i) \<in> {Pending, Finished}"
    using a by (cases rule: rg_step.cases) (auto simp: nth_list_update hs_init_def)
qed

lemma rg_step_length: "rg_step Listen g g' \<Longrightarrow> length (g_servers g') = length (g_servers g)"
  by (auto elim: rg_step.cases)

lemma reachable_length: "(rg_step Listen)\<^sup>*\<^sup>* (fresh_group ss) g \<Longrightarrow> length (g_servers g) = length ss"
proof (induction rule: rtranclp_induct)
  case base
  then show ?case using fresh_group_servers [of ss] by auto
qed (use rg_step_length in simp)

text \<open>The steps a group has left.\<close>

fun phase_work :: "phase \<Rightarrow> nat" where
  "phase_work Pending = 3"
| "phase_work Listening = 2"
| "phase_work Serving = 1"
| "phase_work Finished = 0"

definition server_work :: "phase \<times> HTTPServer \<Rightarrow> nat" where
  "server_work p = phase_work (fst p) + (if stopped (snd p) then 0 else 1)"

definition group_work :: "group \<Rightarrow> nat" where
  "group_work g = (case g_phase g of Running \<Rightarrow> 2 | Stopping \<Rightarrow> 1 | Done \<Rightarrow> 0) + sum_list (map server_work (g_servers g))"

lemma sum_list_update_less: "i < length xs \<Longrightarrow> f y < f (xs ! i) \<Longrightarrow> sum_list (map f (xs[i := y])) < (sum_list (map f xs) :: nat)"
  by (induction xs arbitrary: i) (auto simp: nth_Cons split: nat.split)

lemma rg_step_work: "rg_step Listen g g' \<Longrightarrow> group_work g' < group_work g"
proof (induction rule: rg_step.induct)
  case (begins i g s s' ok)
  then show ?case using hs_init_simps(1) [OF begins(3)]
    by (simp add: group_work_def sum_list_update_less server_work_def)
next
  case (stops g i ph s err)
  then show ?case by (simp add: group_work_def sum_list_update_less server_work_def)
qed (simp_all add: group_work_def sum_list_update_less server_work_def)

lemma runs_bounded: "((rg_step Listen) ^^ n) g g' \<Longrightarrow> n + group_work g' \<le> group_work g"
proof (induction n arbitrary: g')
  case (Suc n)
  from Suc.prems obtain g1 where "((rg_step Listen) ^^ n) g g1" "rg_step Listen g1 g'" by auto
  then show ?case using Suc.IH rg_step_work by fastforce
qed simp

lemma group_at_rest:
  assumes "\<And>g'. \<not> rg_step Listen g g'" and "g_servers g \<noteq> []"
  shows "g_phase g = Done \<and> list_all (\<lambda>(ph, _). ph = Finished) (g_servers g)"
proof -
  have fin: "fst (g_servers g ! i) = Finished" if i: "i < length (g_servers g)" for i
  proof -
    obtain ph s where p: "g_servers g ! i = (ph, s)" by fastforce
    obtain s' ok where "hs_init Listen s = (s', ok)" by fastforce
    then have "ph \<noteq> Pending" using assms(1) rg_step.begins [OF i, of s Listen s' ok] p by blast
    moreover have "ph \<noteq> Listening" "ph \<noteq> Serving"
      using assms(1) rg_step.serves [OF i, of s Listen] rg_step.ends [OF i, of s Listen] p by blast+
    ultimately show ?thesis using p by (cases ph) auto
  qed
  have len: "0 < length (g_servers g)" using assms(2) by simp
  have "g_phase g \<noteq> Running" using assms(1) rg_step.one_stopped [OF _ len fin [OF len]] by blast
  moreover have "g_phase g \<noteq> Stopping"
  proof
    assume st: "g_phase g = Stopping"
    have "stopped (snd (g_servers g ! i))" if "i < length (g_servers g)" for i
      using assms(1) rg_step.stops [OF st that, of "fst (g_servers g ! i)" "snd (g_servers g ! i)"] by fastforce
    then have "list_all (\<lambda>(_, s). stopped s) (g_servers g)" by (auto simp: list_all_length case_prod_beta)
    with assms(1) rg_step.all_stopped [OF st] show False by blast
  qed
  ultimately show ?thesis using fin by (cases "g_phase g") (auto simp: list_all_length case_prod_beta)
qed


lemma group_run_exists:
  assumes "g_servers g \<noteq> []"
  shows "\<exists>g'. (rg_step Listen)\<^sup>*\<^sup>* g g' \<and> g_phase g' = Done"
  using assms
proof (induction "group_work g" arbitrary: g rule: less_induct)
  case less
  show ?case
  proof (cases "\<exists>g'. rg_step Listen g g'")
    case True
    then obtain g1 where g1: "rg_step Listen g g1" ..
    then have "g_servers g1 \<noteq> []" using rg_step_length [OF g1] less.prems by (metis length_0_conv)
    with less.hyps [OF rg_step_work [OF g1]] g1 show ?thesis by (meson converse_rtranclp_into_rtranclp)
  next
    case False
    then show ?thesis using group_at_rest [of Listen g] less.prems by blast
  qed
qed

definition sample_server :: HTTPServer where
  "sample_server = \<lparr> InstanceDesc = ''API Client proxy'', ListenAddr = ''127.0.0.1:23915'',
     CertManager = Some \<lparr> ch_started = False, ch_stopped = False \<rparr>, Err = None, stopped = False, instanced = False \<rparr>"

lemma sample_group_step:
  "rg_step (\<lambda>_. Some SkipItem) (fresh_group [sample_server]) \<lparr> g_phase = Running, g_servers = [(Finished, sample_server\<lparr> Err := Some SkipItem \<rparr>)] \<rparr>"
  using rg_step.begins [of 0 "fresh_group [sample_server]" sample_server "\<lambda>_. Some SkipItem" "sample_server\<lparr> Err := Some SkipItem \<rparr>" False]
  by (simp add: fresh_group_def NewRunnableGroup_def rg_Add_def hs_init_def sample_server_def)

theorem group_stops_together_witness: "list_ex (\<lambda>(ph, _). ph = Finished) [(Finished, sample_server)] \<and>
   (\<exists>g. (rg_step (\<lambda>_. Some SkipItem))\<^sup>*\<^sup>* (fresh_group [sample_server]) g \<and> g_phase g = Done \<and>
      list_all (\<lambda>(_, s). stopped s \<and> (\<forall>c. CertManager s = Some c \<longrightarrow> ch_stopped c)) (g_servers g))"
proof -
  let ?g = "\<lparr> g_phase = Running, g_servers = [(Finished, sample_server\<lparr> Err := Some SkipItem \<rparr>)] \<rparr>"
  let ?g1 = "?g\<lparr> g_phase := Stopping \<rparr>" and ?s = "hs_Stop None (sample_server\<lparr> Err := Some SkipItem \<rparr>)"
  let ?g2 = "\<lparr> g_phase = Stopping, g_servers = [(Finished, ?s)] \<rparr>"
  have 1: "rg_step (\<lambda>_. Some SkipItem) ?g ?g1" by (rule rg_step.one_stopped [of _ 0]) simp_all
  have 2: "rg_step (\<lambda>_. Some SkipItem) ?g1 ?g2"
    using rg_step.stops [of ?g1 0 Finished "sample_server\<lparr> Err := Some SkipItem \<rparr>" "\<lambda>_. Some SkipItem" None]
    by (simp add: sample_server_def)
  have 3: "rg_step (\<lambda>_. Some SkipItem) ?g2 (?g2\<lparr> g_phase := Done \<rparr>)" by (rule rg_step.all_stopped) simp_all
  have r: "(rg_step (\<lambda>_. Some SkipItem))\<^sup>*\<^sup>* (fresh_group [sample_server]) (?g2\<lparr> g_phase := Done \<rparr>)"
    using sample_group_step 1 2 3 by (meson converse_rtranclp_into_rtranclp rtranclp.rtrancl_refl)
  have f: "list_all fresh_server [sample_server]" by (simp add: fresh_server_def sample_server_def)
  then have "list_all (\<lambda>(_, s). stopped s \<and> (\<forall>c. CertManager s = Some c \<longrightarrow> ch_stopped c)) (g_servers (?g2\<lparr> g_phase := Done \<rparr>))"
    using group_stops_together [OF _ r] by simp
  with r show ?thesis by (intro conjI exI [of _ "?g2\<lparr> g_phase := Done \<rparr>"]) simp_all
qed


end
