(* ===== verification/Cert_Manager.thy ===== *)
theory Cert_Manager
  imports Prelude
begin

text \<open>
  The certificate of the webhook server, \<^verbatim>\<open>pkg/tls/certmanager/filesystem/file-cert-manager.go\<close> and
  \<^verbatim>\<open>pkg/tls/util/util.go\<close>: two files are loaded at startup and whenever they change.

  Reading files, PEM decoding and the parsing of certificates are parameters. \<^verbatim>\<open>Start\<close> runs three
  kinds of goroutines, the main loop, the one that turns file events into wake-ups and the ones that
  retry after an error; they meet in a channel with room for one wake-up. They are a step relation
  here, one rule per action, with the versions of the files and the events that are still on their
  way as the environment. A load reads the certificate file first and the key file later: the files
  may change in between, and then their versions differ.

  Shown: in every reachable state the channel holds at most one wake-up, the certificate is one that
  was loaded from some versions of the files, and a change that is not loaded yet has a wake-up on its
  way, also one that falls between the two reads; if loading succeeds, the manager comes to rest, and only with the current certificate; an
  event that arrives before the startup wake-up is sent blocks the manager for ever. The last section
  has the directories that \<^verbatim>\<open>Start\<close> watches before the loops run, and what a failing watch does.
\<close>

section \<open>Certificates\<close>

record pem_block =
  blk_Type :: string
  blk_Headers :: "(string \<times> string) list"
  blk_Bytes :: string

record 'c tlslib =
  pem_Decode :: "string \<Rightarrow> (pem_block \<times> string) option"
  x509_ParseCertificate :: "string \<Rightarrow> 'c res"
  tls_X509KeyPair :: "string \<Rightarrow> string \<Rightarrow> string res"

definition CertificateBlockType :: string where
  "CertificateBlockType = ''CERTIFICATE''"

definition usable_block :: "pem_block \<Rightarrow> bool" where
  "usable_block block \<longleftrightarrow> blk_Type block = CertificateBlockType \<and> length (blk_Headers block) = 0"

text \<open>The loop may run for ever as far as its own code goes; not returning is \<open>None\<close>.\<close>

partial_function (option) parse_loop :: "'c tlslib \<Rightarrow> string \<Rightarrow> 'c list \<Rightarrow> ('c list \<times> error option) option" where
  "parse_loop T pemCerts certs =
     (if length pemCerts = 0 then Some (certs, None)
      else (case pem_Decode T pemCerts of
        None \<Rightarrow> Some (certs, None)
      | Some (block, rest) \<Rightarrow>
          if \<not> usable_block block then parse_loop T rest certs
          else (case x509_ParseCertificate T (blk_Bytes block) of
            Inl err \<Rightarrow> Some (certs, Some err)
          | Inr cert \<Rightarrow> parse_loop T rest (certs @ [cert]))))"

definition ParseCertsPEM :: "'c tlslib \<Rightarrow> string \<Rightarrow> 'c list res option" where
  "ParseCertsPEM T pemCerts =
     map_option (\<lambda>(certs, err). case err of
         Some e \<Rightarrow> Inl e
       | None \<Rightarrow> if length certs = 0 then Inl (Errorf ''data does not contain any valid RSA or ECDSA certificates'') else Inr certs)
       (parse_loop T pemCerts [])"

record 'c certificate =
  crt_pair :: string
  crt_Leaf :: 'c

record FileCertificateManager =
  certBytesPath :: string
  keyBytesPath :: string

text \<open>What is made of the two files, once they have been read.\<close>

definition load_pair :: "'c tlslib \<Rightarrow> string res \<Rightarrow> string res \<Rightarrow> 'c certificate res option" where
  "load_pair T certFile keyFile =
     (case certFile of
       Inl err \<Rightarrow> Some (Inl err)
     | Inr certBytes \<Rightarrow>
         (case keyFile of
           Inl err \<Rightarrow> Some (Inl err)
         | Inr keyBytes \<Rightarrow>
             (case tls_X509KeyPair T certBytes keyBytes of
               Inl err \<Rightarrow> Some (Inl (Wrapf ''failed to load certificate'' err))
             | Inr crt \<Rightarrow>
                 map_option (\<lambda>leaf. case leaf of
                     Inl err \<Rightarrow> Inl (Wrapf ''failed to load leaf certificate'' err)
                   | Inr certs \<Rightarrow> Inr \<lparr> crt_pair = crt, crt_Leaf = certs ! 0 \<rparr>)
                   (ParseCertsPEM T certBytes))))"

definition loadCertificates :: "'c tlslib \<Rightarrow> FileCertificateManager \<Rightarrow> (string \<Rightarrow> string res) \<Rightarrow> 'c certificate res option" where
  "loadCertificates T f ReadFile = load_pair T (ReadFile (certBytesPath f)) (ReadFile (keyBytesPath f))"

text \<open>A decoder that takes something off the text: the documented behaviour of \<^verbatim>\<open>pem.Decode\<close>.\<close>

definition decode_shrinks :: "'c tlslib \<Rightarrow> bool" where
  "decode_shrinks T \<longleftrightarrow> (\<forall>s b r. pem_Decode T s = Some (b, r) \<longrightarrow> length r < length s)"

lemma parse_loop_returns: "decode_shrinks T \<Longrightarrow> \<exists>y. parse_loop T s certs = Some y"
proof (induction s arbitrary: certs rule: length_induct)
  case (1 s)
  then have "\<exists>y. parse_loop T r cs = Some y" if "pem_Decode T s = Some (b, r)" for b r cs
    using that by (auto simp: decode_shrinks_def)
  then show ?case by (subst parse_loop.simps) (auto split: option.split sum.split)
qed

lemma ParseCertsPEM_returns:
  assumes "decode_shrinks T"
  shows "\<exists>r. ParseCertsPEM T s = Some r \<and> r \<noteq> Inr []"
proof -
  obtain certs err where "parse_loop T s [] = Some (certs, err)" using parse_loop_returns [OF assms, of s "[]"] by auto
  then show ?thesis by (cases err) (simp_all add: ParseCertsPEM_def)
qed

lemma load_returns_some: "decode_shrinks T \<Longrightarrow> \<exists>r. loadCertificates T f files = Some r"
  using ParseCertsPEM_returns [of T] by (auto simp: loadCertificates_def load_pair_def split: sum.split)

text \<open>
  C33. Loading the certificate returns, whatever the files hold, and the certificate list it takes the
  first element of is never empty.
\<close>

theorem load_returns:
  assumes "decode_shrinks T"
  shows "(\<exists>r. loadCertificates T f files = Some r) \<and> (\<forall>s. \<exists>r. ParseCertsPEM T s = Some r \<and> r \<noteq> Inr [])"
  using load_returns_some [OF assms] ParseCertsPEM_returns [OF assms] by blast

text \<open>A decoder for a toy format, a line per block.\<close>

definition line_tls :: "string tlslib" where
  "line_tls = \<lparr> pem_Decode = (\<lambda>s. if CHR 0x0A \<notin> set s then None
       else Some (\<lparr> blk_Type = CertificateBlockType, blk_Headers = [], blk_Bytes = takeWhile (\<lambda>c. c \<noteq> CHR 0x0A) s \<rparr>, tl (dropWhile (\<lambda>c. c \<noteq> CHR 0x0A) s))),
     x509_ParseCertificate = Inr, tls_X509KeyPair = (\<lambda>c k. if k = [] then Inl (Errorf ''key'') else Inr (c @ k)) \<rparr>"

lemma line_tls_shrinks: "decode_shrinks line_tls"
proof -
  have "length (tl (dropWhile P s)) < length s" if "s \<noteq> []" for s :: string and P
  proof -
    have "length (dropWhile P s) \<le> length s" "0 < length s" using length_dropWhile_le that by auto
    then show ?thesis unfolding length_tl by linarith
  qed
  then show ?thesis by (auto simp: decode_shrinks_def line_tls_def split: if_splits) (metis empty_iff list.set(1))
qed

theorem load_returns_witness: "\<exists>r. loadCertificates line_tls \<lparr> certBytesPath = ''crt'', keyBytesPath = ''key'' \<rparr> (\<lambda>p. Inr (p @ [CHR 0x0A])) = Some r"
  using load_returns [OF line_tls_shrinks, of "\<lparr> certBytesPath = ''crt'', keyBytesPath = ''key'' \<rparr>" "\<lambda>p. Inr (p @ [CHR 0x0A])"] by blast

section \<open>The goroutines\<close>

datatype main_state = Starting | Looping | Loading nat | Ended

text \<open>
  \<open>cm_buffer\<close>: wake-ups in the channel; \<open>cm_events\<close>: file events not yet delivered; \<open>cm_retries\<close>: goroutines
  that sleep before a retry; \<open>cm_version\<close>: the current version of the files; \<open>cm_seen\<close>: the versions of
  the certificate file and the key file that the certificate was loaded from. \<open>Loading v\<close>: the loop has
  read version \<open>v\<close> of the certificate file and not yet the key file.
\<close>

record 'c manager =
  cm_main :: main_state
  cm_buffer :: nat
  cm_events :: nat
  cm_retries :: nat
  cm_stopped :: bool
  cm_version :: nat
  cm_seen :: "(nat \<times> nat) option"
  cm_cert :: "'c option"

definition NewFileCertificateManager :: "'c manager" where
  "NewFileCertificateManager = \<lparr> cm_main = Starting, cm_buffer = 0, cm_events = 0, cm_retries = 0, cm_stopped = False, cm_version = 0,
     cm_seen = None, cm_cert = None \<rparr>"

text \<open>A send that is dropped when the channel is full.\<close>

definition try_wake :: "'c manager \<Rightarrow> 'c manager" where
  "try_wake s = (if cm_buffer s < 1 then s\<lparr> cm_buffer := cm_buffer s + 1 \<rparr> else s)"

text \<open>The rest of \<^verbatim>\<open>rotateCerts\<close> after version \<open>v\<close> of the certificate file has been read.\<close>

definition rotateCerts :: "(nat \<Rightarrow> nat \<Rightarrow> 'c res) \<Rightarrow> nat \<Rightarrow> 'c manager \<Rightarrow> 'c manager \<times> error option" where
  "rotateCerts load v s =
     (case load v (cm_version s) of
       Inl err \<Rightarrow> (s, Some (Wrapf ''failed to load the certificate'' err))
     | Inr crt \<Rightarrow> (s\<lparr> cm_cert := Some crt, cm_seen := Some (v, cm_version s) \<rparr>, None))"

definition cm_Stop :: "'c manager \<Rightarrow> 'c manager" where
  "cm_Stop s = s\<lparr> cm_stopped := True \<rparr>"

definition cm_Current :: "'c manager \<Rightarrow> 'c option" where
  "cm_Current s = cm_cert s"

text \<open>
  What the goroutines of the manager do on their own; \<open>load v w\<close> is what loading version \<open>v\<close> of the
  certificate file with version \<open>w\<close> of the key file returns.
\<close>

inductive internal :: "(nat \<Rightarrow> nat \<Rightarrow> 'c res) \<Rightarrow> 'c manager \<Rightarrow> 'c manager \<Rightarrow> bool" for load :: "nat \<Rightarrow> nat \<Rightarrow> 'c res" where
  watcher: "cm_main s \<noteq> Ended \<Longrightarrow> cm_events s = Suc n \<Longrightarrow> internal load s (try_wake (s\<lparr> cm_events := n \<rparr>))"
| startup: "cm_main s = Starting \<Longrightarrow> cm_buffer s < 1 \<Longrightarrow> internal load s (s\<lparr> cm_buffer := cm_buffer s + 1, cm_main := Looping \<rparr>)"
| read_cert: "cm_main s = Looping \<Longrightarrow> cm_buffer s = Suc n \<Longrightarrow> internal load s (s\<lparr> cm_buffer := n, cm_main := Loading (cm_version s) \<rparr>)"
| rotate: "cm_main s = Loading v \<Longrightarrow> rotateCerts load v (s\<lparr> cm_main := Looping \<rparr>) = (s', err) \<Longrightarrow>
    internal load s (if err = None then s' else s'\<lparr> cm_retries := cm_retries s' + 1 \<rparr>)"
| retry: "cm_retries s = Suc n \<Longrightarrow> internal load s (try_wake (s\<lparr> cm_retries := n \<rparr>))"
| finish: "cm_main s = Looping \<Longrightarrow> cm_stopped s \<Longrightarrow> internal load s (s\<lparr> cm_main := Ended \<rparr>)"

text \<open>What happens to it: the files change, the server stops.\<close>

inductive step :: "(nat \<Rightarrow> nat \<Rightarrow> 'c res) \<Rightarrow> 'c manager \<Rightarrow> 'c manager \<Rightarrow> bool" for load :: "nat \<Rightarrow> nat \<Rightarrow> 'c res" where
  inside: "internal load s s' \<Longrightarrow> step load s s'"
| change: "step load s (s\<lparr> cm_version := cm_version s + 1, cm_events := cm_events s + 1 \<rparr>)"
| stop: "step load s (cm_Stop s)"

inductive_cases internalE: "internal load s s'"

lemmas manager_defs = try_wake_def rotateCerts_def cm_Stop_def NewFileCertificateManager_def

definition wake_pending :: "'c manager \<Rightarrow> bool" where
  "wake_pending s \<longleftrightarrow> 0 < cm_events s \<or> 0 < cm_buffer s \<or> 0 < cm_retries s"

definition manager_inv :: "(nat \<Rightarrow> nat \<Rightarrow> 'c res) \<Rightarrow> 'c manager \<Rightarrow> bool" where
  "manager_inv load s \<longleftrightarrow> cm_buffer s \<le> 1 \<and>
     (case cm_seen s of None \<Rightarrow> cm_cert s = None
      | Some (v, w) \<Rightarrow> v \<le> w \<and> w \<le> cm_version s \<and> (\<exists>c. cm_cert s = Some c \<and> load v w = Inr c)) \<and>
     (case cm_main s of
       Looping \<Rightarrow> cm_seen s = Some (cm_version s, cm_version s) \<or> wake_pending s
     | Loading v \<Rightarrow> v \<le> cm_version s \<and> (v = cm_version s \<or> wake_pending s)
     | _ \<Rightarrow> True)"

lemma inv_internal: "internal load s s' \<Longrightarrow> manager_inv load s \<Longrightarrow> manager_inv load s'"
  by (induction rule: internal.induct)
    (auto simp: manager_inv_def wake_pending_def try_wake_def rotateCerts_def split: if_splits sum.splits option.splits main_state.splits)

lemma inv_step: "step load s s' \<Longrightarrow> manager_inv load s \<Longrightarrow> manager_inv load s'"
proof (induction rule: step.induct)
  case (inside s s')
  then show ?case by (rule inv_internal)
qed (auto simp: manager_inv_def wake_pending_def cm_Stop_def split: option.splits main_state.splits)

lemma inv_reachable: "(step load)\<^sup>*\<^sup>* NewFileCertificateManager s \<Longrightarrow> manager_inv load s"
proof (induction rule: rtranclp_induct)
  case base
  show ?case by (simp add: manager_inv_def NewFileCertificateManager_def)
next
  case (step s s')
  then show ?case by (blast intro: inv_step)
qed

text \<open>
  C27. In every reachable state of the certificate manager the channel holds at most one wake-up, the
  certificate in use was loaded from some version of the certificate file and the same or a later one of
  the key file, and while the loop waits, a version that is not loaded has a file event, a wake-up or a retry
  on its way: no change is ever lost, not even one between the reads of the two files.
\<close>

theorem cert_manager_invariant:
  assumes "(step load)\<^sup>*\<^sup>* NewFileCertificateManager s"
  shows "cm_buffer s \<le> 1 \<and> (\<forall>c. cm_Current s = Some c \<longrightarrow> (\<exists>v w. v \<le> w \<and> w \<le> cm_version s \<and> load v w = Inr c)) \<and>
    (cm_main s = Looping \<longrightarrow> cm_seen s = Some (cm_version s, cm_version s) \<or> wake_pending s)"
  using inv_reachable [OF assms] by (cases "cm_seen s") (auto 0 4 simp: manager_inv_def cm_Current_def)

section \<open>Coming to rest\<close>

definition work :: "'c manager \<Rightarrow> nat" where
  "work s = 3 * cm_events s + 3 * cm_retries s + 2 * cm_buffer s +
     (case cm_main s of Starting \<Rightarrow> 4 | Looping \<Rightarrow> 1 | Loading v \<Rightarrow> if v = cm_version s then 2 else 5 | Ended \<Rightarrow> 0)"

lemma internal_work: "internal load s s' \<Longrightarrow> load (cm_version s) (cm_version s) = Inr c \<Longrightarrow> work s' < work s \<and> cm_version s' = cm_version s"
  by (induction rule: internal.induct) (auto simp: work_def try_wake_def rotateCerts_def split: sum.splits if_splits main_state.splits)

lemma internal_runs_end:
  assumes "load (cm_version s) (cm_version s) = Inr c" and "(internal load)\<^sup>*\<^sup>* s s'"
  shows "work s' \<le> work s \<and> cm_version s' = cm_version s"
  using assms(2)
proof (induction rule: rtranclp_induct)
  case (step y z)
  then show ?case using internal_work [OF step(2), of c] assms(1) by auto
qed simp

lemma rest_current:
  assumes "manager_inv load s" and "\<And>s'. \<not> internal load s s'" and "cm_main s = Looping" and "load (cm_version s) (cm_version s) = Inr c"
  shows "cm_cert s = Some c"
proof -
  have "cm_events s = 0" using assms(2,3) internal.watcher [of s _ load] by (metis main_state.distinct(9) not0_implies_Suc)
  moreover have "cm_retries s = 0" using assms(2) internal.retry [of s _ load] by (metis not0_implies_Suc)
  moreover have "cm_buffer s = 0"
    using assms(2,3) internal.read_cert [of s _ load] by (metis not0_implies_Suc)
  ultimately show ?thesis using assms(1,3,4) by (auto simp: manager_inv_def wake_pending_def)
qed


text \<open>
  The startup can block for ever: when a file event is delivered before the loop sends its startup
  wake-up, the channel is full, nothing ever empties it, and no certificate is ever loaded.
\<close>

theorem startup_deadlock:
  "\<exists>s. (step load)\<^sup>*\<^sup>* NewFileCertificateManager s \<and> (\<forall>s'. (step load)\<^sup>*\<^sup>* s s' \<longrightarrow> cm_main s' = Starting \<and> cm_Current s' = None)"
proof -
  let ?s0 = "NewFileCertificateManager" and ?s1 = "NewFileCertificateManager\<lparr> cm_version := 1, cm_events := 1 \<rparr>"
  let ?s2 = "try_wake (?s1\<lparr> cm_events := 0 \<rparr>)"
  have "step load ?s0 ?s1" using step.change [of load ?s0] by (simp add: NewFileCertificateManager_def)
  moreover have "step load ?s1 ?s2" by (rule step.inside [OF internal.watcher]) (simp_all add: NewFileCertificateManager_def)
  ultimately have r: "(step load)\<^sup>*\<^sup>* ?s0 ?s2" by auto
  let ?stuck = "\<lambda>s. cm_main s = Starting \<and> cm_buffer s = 1 \<and> cm_cert s = None \<and> cm_retries s = 0"
  have stuck_step: "?stuck s'" if "step load s s'" "?stuck s" for s s'
    using that by (induction rule: step.induct) (auto elim!: internalE simp: try_wake_def cm_Stop_def)
  have "?stuck s'" if "(step load)\<^sup>*\<^sup>* ?s2 s'" for s'
    using that
  proof (induction rule: rtranclp_induct)
    case base
    show ?case by (simp add: try_wake_def NewFileCertificateManager_def)
  next
    case (step y z)
    show ?case by (rule stuck_step [OF step(2,3)])
  qed
  with r show ?thesis by (intro exI [of _ ?s2]) (simp add: cm_Current_def)
qed

section \<open>A run\<close>

definition loaded_manager :: "string manager" where
  "loaded_manager = NewFileCertificateManager\<lparr> cm_main := Looping, cm_seen := Some (0, 0), cm_cert := Some ''c0'' \<rparr>"

definition load_any :: "nat \<Rightarrow> nat \<Rightarrow> string res" where
  "load_any v w = Inr (if v = 0 then ''c0'' else ''c1'')"

lemma loaded_reachable: "(step load_any)\<^sup>*\<^sup>* NewFileCertificateManager loaded_manager"
proof -
  let ?s = "NewFileCertificateManager\<lparr> cm_buffer := 1, cm_main := Looping \<rparr> :: string manager"
  let ?l = "NewFileCertificateManager\<lparr> cm_main := Loading 0 \<rparr> :: string manager"
  have "step load_any NewFileCertificateManager ?s"
    using step.inside [OF internal.startup [of NewFileCertificateManager load_any]] by (simp add: NewFileCertificateManager_def)
  moreover have "step load_any ?s ?l" using step.inside [OF internal.read_cert [of ?s 0 load_any]] by (simp add: NewFileCertificateManager_def)
  moreover have "rotateCerts load_any 0 (?l\<lparr> cm_main := Looping \<rparr>) = (loaded_manager, None)"
    by (simp add: rotateCerts_def load_any_def loaded_manager_def NewFileCertificateManager_def)
  then have "step load_any ?l loaded_manager"
    using step.inside [OF internal.rotate [of ?l 0 load_any loaded_manager None]] by simp
  ultimately show ?thesis by auto
qed

theorem cert_manager_invariant_witness: "cm_Current loaded_manager = Some ''c0'' \<and> (\<exists>v w. v \<le> w \<and> w \<le> cm_version loaded_manager \<and> load_any v w = Inr ''c0'')"
proof -
  have c: "cm_Current loaded_manager = Some ''c0''" by (simp add: cm_Current_def loaded_manager_def)
  with cert_manager_invariant [OF loaded_reachable] show ?thesis by blast
qed


section \<open>The directories that are watched\<close>

text \<open>\<^verbatim>\<open>filepath.Clean\<close> and \<^verbatim>\<open>filepath.Dir\<close> for paths with slashes; the elements so far are in reverse order.\<close>

definition clean_element :: "bool \<Rightarrow> string \<Rightarrow> string list \<Rightarrow> string list" where
  "clean_element rooted e out =
     (if e = [] \<or> e = ''.'' then out
      else if e = ''..'' then
        (case out of
          [] \<Rightarrow> if rooted then [] else [''..'']
        | x # xs \<Rightarrow> if x = ''..'' then ''..'' # out else xs)
      else e # out)"

definition Clean :: "string \<Rightarrow> string" where
  "Clean p =
     (let rooted = (p \<noteq> [] \<and> hd p = CHR ''/'');
          cleaned = (if rooted then ''/'' else []) @ Join (rev (fold (clean_element rooted) (Split p (CHR ''/'')) [])) ''/''
      in if cleaned = [] then ''.'' else cleaned)"

definition Dir :: "string \<Rightarrow> string" where
  "Dir p = Clean (rev (dropWhile (\<lambda>c. c \<noteq> CHR ''/'') (rev p)))"

record watchlib =
  fs_NewWatcher :: "unit res"
  fs_Add :: "string \<Rightarrow> error option"

text \<open>
  The first part of \<^verbatim>\<open>Start\<close>: the directories that are watched and the number of errors that are logged.
  \<open>None\<close> is the use of the nil watcher.
\<close>

definition start_watches :: "watchlib \<Rightarrow> FileCertificateManager \<Rightarrow> (string list \<times> nat) option" where
  "start_watches W f =
     (case fs_NewWatcher W of
       Inl err \<Rightarrow> None
     | Inr _ \<Rightarrow>
         (let certDir = Dir (certBytesPath f);
              (dirs, errs) = (if fs_Add W certDir = None then ([certDir], 0) else ([], 1));
              keyDir = Dir (keyBytesPath f)
          in Some (if keyDir \<noteq> certDir
             then (if fs_Add W keyDir = None then (dirs @ [keyDir], errs) else (dirs, errs + 1))
             else (dirs, errs))))"

text \<open>
  The manager watches the directories of both files, each once, except for those that cannot be watched,
  and logs an error for each of these; without a watcher it does not start.
\<close>

lemma start_watches_dirs:
  "start_watches W f = Some (dirs, errs) \<Longrightarrow>
   distinct dirs \<and> set dirs = {d \<in> {Dir (certBytesPath f), Dir (keyBytesPath f)}. fs_Add W d = None} \<and>
   errs = card {d \<in> {Dir (certBytesPath f), Dir (keyBytesPath f)}. fs_Add W d \<noteq> None}"
proof -
  have c: "{d \<in> {a, b}. P d} = (if P a then {a} else {}) \<union> (if P b then {b} else {})" for a b :: string and P by auto
  assume "start_watches W f = Some (dirs, errs)"
  then show ?thesis
    unfolding c by (auto simp: start_watches_def Let_def split: sum.splits if_splits)
qed

lemma watcher_required: "start_watches W f = None \<longleftrightarrow> (\<exists>e. fs_NewWatcher W = Inl e)"
  by (auto simp: start_watches_def Let_def split: sum.splits prod.splits)

lemma same_directory_watched_once: "Dir ''/etc/tls/./tls.crt'' = ''/etc/tls'' \<and> Dir ''/etc/x/../tls/tls.key'' = ''/etc/tls'' \<and> Dir ''tls.crt'' = ''.''"
  by code_simp

end
