(* ===== verification/Auth.thy ===== *)
theory Auth
  imports Http
begin

text \<open>
  The middleware in front of the metrics, \<^verbatim>\<open>pkg/middleware/auth/auth.go\<close> and \<^verbatim>\<open>handler.go\<close>: a request is
  authenticated by a token review, which is cached for two minutes, and authorized by a subject
  access review.

  The API server that answers the reviews is a parameter, and so is the expiring cache of the Kubernetes
  libraries, with the behaviour its documentation gives as the locale \<open>expiring_cache\<close>. Time is
  counted in seconds and handed to the operations. Requests that are handled at the same time are
  a sequence of steps here: looking up and storing a token are each atomic, and a token is stored at
  most twice with the same result.

  Shown: every cached answer stems from a successful review of that very token less than two minutes
  old, whatever the sequence of requests; the protected handler runs only for a request whose
  token was reviewed successfully and whose user is allowed the verb; every other request is
  answered with 401, 403 or 500.
\<close>

section \<open>Model\<close>

definition defaultTokenCacheTTL :: nat where
  "defaultTokenCacheTTL = 120"

record ResourceAttributes =
  ra_Group :: string
  ra_Version :: string
  ra_Resource :: string
  ra_Namespace :: string
  ra_Name :: string
  ra_Subresource :: string

definition ra_Validate :: "ResourceAttributes \<Rightarrow> error option" where
  "ra_Validate r =
     (if ra_Group r = [] then Some (Errorf ''group is required'')
      else if ra_Version r = [] then Some (Errorf ''version is required'')
      else if ra_Resource r = [] then Some (Errorf ''resource is required'')
      else if ra_Namespace r = [] then Some (Errorf ''namespace is required'')
      else if ra_Name r = [] then Some (Errorf ''name is required'')
      else if ra_Subresource r = [] then Some (Errorf ''subresource is required'')
      else None)"

record UserInfo =
  ui_Name :: string
  ui_UID :: string
  ui_Groups :: "string list"
  ui_Extra :: "(string \<times> string list) list option"

record TokenReviewStatus =
  ts_Authenticated :: bool
  ts_Username :: string
  ts_UID :: string
  ts_Groups :: "string list"
  ts_Extra :: "(string \<times> string list) list"

record SubjectAccessReview =
  sar_User :: string
  sar_Groups :: "string list"
  sar_UID :: string
  sar_Extra :: "(string \<times> string list) list option"
  sar_Verb :: string
  sar_Attributes :: ResourceAttributes

text \<open>The reviews of the API server, at a time.\<close>

record reviews =
  TokenReviews_Create :: "nat \<Rightarrow> string \<Rightarrow> TokenReviewStatus res"
  SubjectAccessReviews_Create :: "nat \<Rightarrow> SubjectAccessReview \<Rightarrow> (bool \<times> string) res"

record 'c cachelib =
  cache_New :: 'c
  cache_Get :: "'c \<Rightarrow> nat \<Rightarrow> string \<Rightarrow> UserInfo option"
  cache_Set :: "'c \<Rightarrow> nat \<Rightarrow> string \<Rightarrow> UserInfo \<Rightarrow> nat \<Rightarrow> 'c"

definition convertAuthnExtra :: "(string \<times> string list) list \<Rightarrow> (string \<times> string list) list option" where
  "convertAuthnExtra extra = (if length extra = 0 then None else Some extra)"

definition convertAuthzExtra :: "(string \<times> string list) list option \<Rightarrow> (string \<times> string list) list option" where
  "convertAuthzExtra extra = (case extra of None \<Rightarrow> None | Some e \<Rightarrow> if length e = 0 then None else Some e)"

definition extractBearerToken :: "http_request \<Rightarrow> string" where
  "extractBearerToken r =
     (let auth = header_Get (req_Header r) ''Authorization'' in
      if \<not> HasPrefix auth ''Bearer '' then [] else TrimPrefix auth ''Bearer '')"

definition user_of_review :: "TokenReviewStatus \<Rightarrow> UserInfo" where
  "user_of_review st = \<lparr> ui_Name = ts_Username st, ui_UID = ts_UID st, ui_Groups = ts_Groups st, ui_Extra = convertAuthnExtra (ts_Extra st) \<rparr>"

text \<open>The authenticator; the state of its cache is handed to the operations, from \<open>cache_New\<close> on.\<close>

record 'c tokenReviewAuthn =
  ta_client :: reviews
  ta_cache :: "'c cachelib"
  ta_ttl :: nat

definition NewAuthenticator :: "'c cachelib \<Rightarrow> reviews \<Rightarrow> 'c tokenReviewAuthn" where
  "NewAuthenticator C client = \<lparr> ta_client = client, ta_cache = C, ta_ttl = defaultTokenCacheTTL \<rparr>"

definition AuthenticateRequest :: "'c tokenReviewAuthn \<Rightarrow> nat \<Rightarrow> 'c \<Rightarrow> http_request \<Rightarrow> 'c \<times> UserInfo option res" where
  "AuthenticateRequest a now cache req =
     (let token = extractBearerToken req in
      if token = [] then (cache, Inr None)
      else (case cache_Get (ta_cache a) cache now token of
        Some cached \<Rightarrow> (cache, Inr (Some cached))
      | None \<Rightarrow>
          (case TokenReviews_Create (ta_client a) now token of
            Inl err \<Rightarrow> (cache, Inl err)
          | Inr result \<Rightarrow>
              if \<not> ts_Authenticated result then (cache, Inr None)
              else (cache_Set (ta_cache a) cache now token (user_of_review result) (ta_ttl a), Inr (Some (user_of_review result))))))"

datatype decision = DecisionDeny | DecisionAllow | DecisionNoOpinion

definition access_review :: "UserInfo \<Rightarrow> string \<Rightarrow> ResourceAttributes \<Rightarrow> SubjectAccessReview" where
  "access_review user verb attrs =
     \<lparr> sar_User = ui_Name user, sar_Groups = ui_Groups user, sar_UID = ui_UID user, sar_Extra = convertAuthzExtra (ui_Extra user),
       sar_Verb = verb, sar_Attributes = attrs \<rparr>"

record sarAuthz =
  sa_client :: reviews

definition NewAuthorizer :: "reviews \<Rightarrow> sarAuthz" where
  "NewAuthorizer client = \<lparr> sa_client = client \<rparr>"

definition Authorize :: "sarAuthz \<Rightarrow> nat \<Rightarrow> UserInfo \<Rightarrow> string \<Rightarrow> ResourceAttributes \<Rightarrow> decision \<times> string \<times> error option" where
  "Authorize a now user verb attrs =
     (case SubjectAccessReviews_Create (sa_client a) now (access_review user verb attrs) of
       Inl err \<Rightarrow> (DecisionNoOpinion, [], Some err)
     | Inr (allowed, reason) \<Rightarrow> if allowed then (DecisionAllow, reason, None) else (DecisionDeny, reason, None))"

definition httpMethodToVerb :: "string \<Rightarrow> string" where
  "httpMethodToVerb method =
     (if method = ''POST'' then ''create''
      else if method = ''GET'' \<or> method = ''HEAD'' then ''get''
      else if method = ''PUT'' then ''update''
      else if method = ''PATCH'' then ''patch''
      else if method = ''DELETE'' then ''delete''
      else ''*'')"

record 'c Middleware =
  mw_authn :: "'c tokenReviewAuthn"
  mw_authz :: sarAuthz
  mw_attrs :: ResourceAttributes

definition NewMiddleware :: "'c tokenReviewAuthn \<Rightarrow> sarAuthz \<Rightarrow> ResourceAttributes \<Rightarrow> 'c Middleware" where
  "NewMiddleware authn authz attrs = \<lparr> mw_authn = authn, mw_authz = authz, mw_attrs = attrs \<rparr>"

definition NewMiddlewareFromKubeClient :: "'c cachelib \<Rightarrow> reviews \<Rightarrow> ResourceAttributes \<Rightarrow> 'c Middleware" where
  "NewMiddlewareFromKubeClient C client attrs = NewMiddleware (NewAuthenticator C client) (NewAuthorizer client) attrs"

lemmas new_middleware_defs = NewMiddlewareFromKubeClient_def NewMiddleware_def NewAuthenticator_def NewAuthorizer_def

text \<open>One request: the new cache, the answer, and whether the protected handler ran.\<close>

definition mw_Handler ::
    "'c Middleware \<Rightarrow> (ResponseWriter \<Rightarrow> http_request \<Rightarrow> ResponseWriter) \<Rightarrow> nat \<Rightarrow> 'c \<Rightarrow> ResponseWriter \<Rightarrow> http_request \<Rightarrow> 'c \<times> ResponseWriter \<times> bool" where
  "mw_Handler m next_ServeHTTP now cache w r =
     (case AuthenticateRequest (mw_authn m) now cache r of
       (cache, Inl err) \<Rightarrow> (cache, http_Error w ''Unauthorized'' 401, False)
     | (cache, Inr None) \<Rightarrow> (cache, http_Error w ''Unauthorized'' 401, False)
     | (cache, Inr (Some user)) \<Rightarrow>
         (let verb = httpMethodToVerb (req_Method r) in
          case Authorize (mw_authz m) now user verb (mw_attrs m) of
            (decision, reason, Some err) \<Rightarrow>
              (cache, http_Error w (''authorization error (user='' @ ui_Name user @ '', verb='' @ verb @ '', resource='' @
                 ra_Resource (mw_attrs m) @ ''/'' @ ra_Subresource (mw_attrs m) @ '')'') 500, False)
          | (decision, reason, None) \<Rightarrow>
              if decision \<noteq> DecisionAllow then (cache, http_Error w ''Forbidden'' 403, False)
              else (cache, next_ServeHTTP w r, True)))"

section \<open>The cache over time\<close>

locale expiring_cache =
  fixes C :: "'c cachelib"
  assumes Get_New: "cache_Get C (cache_New C) now k = None"
    and Get_Set: "cache_Get C (cache_Set C c now k v ttl) now' k' =
      (if k' = k then (if now' < now + ttl then Some v else None) else cache_Get C c now' k')"

text \<open>An instance: a list of entries with the time they expire.\<close>

definition list_cache :: "(string \<times> UserInfo \<times> nat) list cachelib" where
  "list_cache = \<lparr> cache_New = [],
     cache_Get = (\<lambda>c now k. case map_of c k of None \<Rightarrow> None | Some (v, t) \<Rightarrow> if now < t then Some v else None),
     cache_Set = (\<lambda>c now k v ttl. AList.update k (v, now + ttl) c) \<rparr>"

interpretation list_cache: expiring_cache list_cache
  by unfold_locales (simp_all add: list_cache_def update_conv')

text \<open>Requests arrive one after the other, at times that never go back.\<close>

inductive reaches :: "'c Middleware \<Rightarrow> (ResponseWriter \<Rightarrow> http_request \<Rightarrow> ResponseWriter) \<Rightarrow> nat \<Rightarrow> 'c \<Rightarrow> bool"
  for m :: "'c Middleware" and h :: "ResponseWriter \<Rightarrow> http_request \<Rightarrow> ResponseWriter" where
  initially: "reaches m h 0 (cache_New (ta_cache (mw_authn m)))"
| waits: "reaches m h now c \<Longrightarrow> now \<le> now' \<Longrightarrow> reaches m h now' c"
| handles: "reaches m h now c \<Longrightarrow> mw_Handler m h now c w r = (c', w', served) \<Longrightarrow> reaches m h now c'"

definition reviewed :: "reviews \<Rightarrow> nat \<Rightarrow> string \<Rightarrow> UserInfo \<Rightarrow> bool" where
  "reviewed A t token user \<longleftrightarrow> (\<exists>st. TokenReviews_Create A t token = Inr st \<and> ts_Authenticated st \<and> user = user_of_review st)"

definition cache_sound :: "'c Middleware \<Rightarrow> nat \<Rightarrow> 'c \<Rightarrow> bool" where
  "cache_sound m now c \<longleftrightarrow> (\<forall>now' token user. cache_Get (ta_cache (mw_authn m)) c now' token = Some user \<longrightarrow>
     (\<exists>t \<le> now. now' < t + ta_ttl (mw_authn m) \<and> reviewed (ta_client (mw_authn m)) t token user))"

lemma AuthenticateRequest_cases:
  "AuthenticateRequest a now c r = (c', x) \<Longrightarrow>
   (c' = c \<and> (x = Inr None \<or> (\<exists>e. x = Inl e) \<or>
      (\<exists>u. x = Inr (Some u) \<and> extractBearerToken r \<noteq> [] \<and> cache_Get (ta_cache a) c now (extractBearerToken r) = Some u))) \<or>
   (\<exists>u. x = Inr (Some u) \<and> extractBearerToken r \<noteq> [] \<and> reviewed (ta_client a) now (extractBearerToken r) u \<and>
      c' = cache_Set (ta_cache a) c now (extractBearerToken r) u (ta_ttl a))"
  by (auto simp: AuthenticateRequest_def Let_def reviewed_def split: if_splits option.splits sum.splits)

lemma mw_Handler_cache: "mw_Handler m h now c w r = (c', w', served) \<Longrightarrow> fst (AuthenticateRequest (mw_authn m) now c r) = c'"
  by (auto simp: mw_Handler_def Let_def split: prod.splits sum.splits option.splits if_splits)

context expiring_cache
begin

lemma sound_step:
  assumes "cache_sound m now c" and "ta_cache (mw_authn m) = C" and "mw_Handler m h now c w r = (c', w', served)"
  shows "cache_sound m now c'"
proof -
  obtain x where "AuthenticateRequest (mw_authn m) now c r = (c', x)"
    using mw_Handler_cache [OF assms(3)] by (cases "AuthenticateRequest (mw_authn m) now c r") simp
  from AuthenticateRequest_cases [OF this] show ?thesis
  proof
    assume "\<exists>u. x = Inr (Some u) \<and> extractBearerToken r \<noteq> [] \<and> reviewed (ta_client (mw_authn m)) now (extractBearerToken r) u \<and>
      c' = cache_Set (ta_cache (mw_authn m)) c now (extractBearerToken r) u (ta_ttl (mw_authn m))"
    then show ?thesis using assms(1) unfolding cache_sound_def assms(2) by (auto simp: Get_Set split: if_splits)
  qed (use assms(1) in simp)
qed

lemma reaches_sound:
  assumes "reaches m h now c" and "ta_cache (mw_authn m) = C"
  shows "cache_sound m now c"
  using assms
proof (induction rule: reaches.induct)
  case initially
  then show ?case by (simp add: cache_sound_def Get_New)
next
  case (waits now c now')
  then show ?case unfolding cache_sound_def by (meson order_trans)
next
  case (handles now c w r c' w' served)
  then show ?case using sound_step by blast
qed

end

section \<open>Properties\<close>

text \<open>
  The token cache is sound: whatever requests have been handled, an answer the cache gives for a
  token stems from a successful review of that token less than two minutes before.
\<close>

theorem token_cache_sound:
  assumes "expiring_cache C" and "m = NewMiddlewareFromKubeClient C A attrs" and "reaches m h now c" and "cache_Get C c now' token = Some user"
  shows "\<exists>t \<le> now. now' < t + 120 \<and> reviewed A t token user"
  using expiring_cache.reaches_sound [OF assms(1,3)] assms(2,4) by (simp add: cache_sound_def defaultTokenCacheTTL_def new_middleware_defs)

lemma mw_Handler_served:
  assumes "expiring_cache C" and "m = NewMiddlewareFromKubeClient C A attrs" and "reaches m h now c" and "rw_head w = None"
    and "mw_Handler m h now c w r = (c', w', served)"
  shows "if served then w' = h w r \<and> (\<exists>t user reason. t \<le> now \<and> now < t + 120 \<and> extractBearerToken r \<noteq> [] \<and>
        reviewed A t (extractBearerToken r) user \<and>
        SubjectAccessReviews_Create A now (access_review user (httpMethodToVerb (req_Method r)) attrs) = Inr (True, reason))
    else \<exists>st hd. rw_head w' = Some (st, hd) \<and> st \<in> {401, 403, 500}"
proof -
  have m: "ta_cache (mw_authn m) = C" "ta_client (mw_authn m) = A" "sa_client (mw_authz m) = A" "mw_attrs m = attrs" "ta_ttl (mw_authn m) = 120"
    by (simp_all add: assms(2) new_middleware_defs defaultTokenCacheTTL_def)
  have err: "\<exists>hd. rw_head (http_Error w msg st) = Some (st, hd)" for msg st
    using assms(4) by (simp add: http_Error_def rw_Write_def WriteHeader_def Let_def)
  obtain x where x: "AuthenticateRequest (mw_authn m) now c r = (c', x)"
    using mw_Handler_cache [OF assms(5)] by (cases "AuthenticateRequest (mw_authn m) now c r") simp
  show ?thesis
  proof (cases served)
    case True
    from assms(5) x True obtain user where u: "x = Inr (Some user)" "w' = h w r"
      "\<exists>reason. SubjectAccessReviews_Create A now (access_review user (httpMethodToVerb (req_Method r)) attrs) = Inr (True, reason)"
      by (auto simp: m mw_Handler_def Authorize_def Let_def split: prod.splits sum.splits option.splits if_splits)
    have "\<exists>t \<le> now. now < t + 120 \<and> extractBearerToken r \<noteq> [] \<and> reviewed A t (extractBearerToken r) user"
      using AuthenticateRequest_cases [OF x] u(1) expiring_cache.reaches_sound [OF assms(1,3) m(1)]
      by (auto simp: cache_sound_def m)
    with u(2,3) True show ?thesis by auto
  next
    case False
    with assms(5) have "\<exists>msg st. w' = http_Error w msg st \<and> st \<in> {401, 403, 500}"
      unfolding mw_Handler_def Let_def by (fastforce split: prod.splits sum.splits option.splits if_splits)
    with err False show ?thesis by metis
  qed
qed

text \<open>
  The protected handler runs only for a request that carries a bearer token which was reviewed
  successfully less than two minutes before, and whose user the API server allows the verb at
  this moment; every other request is answered with status 401, 403 or 500.
\<close>

theorem protected_handler_authorized:
  assumes "expiring_cache C" and "m = NewMiddlewareFromKubeClient C A attrs" and "reaches m h now c" and "rw_head w = None"
    and "mw_Handler m h now c w r = (c', w', served)"
  shows "if served then w' = h w r \<and> (\<exists>t user reason. t \<le> now \<and> now < t + 120 \<and> extractBearerToken r \<noteq> [] \<and>
        reviewed A t (extractBearerToken r) user \<and>
        SubjectAccessReviews_Create A now (access_review user (httpMethodToVerb (req_Method r)) attrs) = Inr (True, reason))
    else \<exists>st hd. rw_head w' = Some (st, hd) \<and> st \<in> {401, 403, 500}"
  by (rule mw_Handler_served [OF assms])

section \<open>A concrete middleware\<close>

definition sample_reviews :: reviews where
  "sample_reviews = \<lparr> TokenReviews_Create = (\<lambda>now t. Inr \<lparr> ts_Authenticated = (t = ''good''), ts_Username = ''prom'', ts_UID = ''1'', ts_Groups = [], ts_Extra = [] \<rparr>),
     SubjectAccessReviews_Create = (\<lambda>now s. Inr (sar_User s = ''prom'' \<and> sar_Verb s = ''get'', ''rbac'')) \<rparr>"

definition sample_middleware :: "(string \<times> UserInfo \<times> nat) list Middleware" where
  "sample_middleware = NewMiddlewareFromKubeClient list_cache sample_reviews
     \<lparr> ra_Group = ''apps'', ra_Version = ''v1'', ra_Resource = ''deployments'', ra_Namespace = ''d8'', ra_Name = ''rewriter'', ra_Subresource = ''metrics'' \<rparr>"

definition bearer :: "string \<Rightarrow> http_request" where
  "bearer t = \<lparr> req_Method = ''GET'', req_URL = None, req_RequestURI = ''/metrics'', req_Header = [(''Authorization'', [''Bearer '' @ t])],
     req_Body = None, req_ContentLength = 0 \<rparr>"

definition scrape :: "ResponseWriter \<Rightarrow> http_request \<Rightarrow> ResponseWriter" where
  "scrape w r = fst (rw_Write w ''metrics'')"

definition sample_cache :: "(string \<times> UserInfo \<times> nat) list" where
  "sample_cache = fst (mw_Handler sample_middleware scrape 0 [] (fresh_writer []) (bearer ''good''))"

lemma sample_reaches: "reaches sample_middleware scrape 100 sample_cache"
proof -
  have "reaches sample_middleware scrape 0 []"
    using reaches.initially [of sample_middleware scrape] by (simp add: sample_middleware_def list_cache_def new_middleware_defs)
  then have "reaches sample_middleware scrape 0 sample_cache"
    by (rule reaches.handles [of _ _ _ _ _ _ _ "fst (snd (mw_Handler sample_middleware scrape 0 [] (fresh_writer []) (bearer ''good'')))"
        "snd (snd (mw_Handler sample_middleware scrape 0 [] (fresh_writer []) (bearer ''good'')))"]) (simp add: sample_cache_def)
  then show ?thesis by (rule reaches.waits) simp
qed

theorem token_cache_sound_witness:
  "\<exists>user. cache_Get list_cache sample_cache 100 ''good'' = Some user \<and> (\<exists>t \<le> 100. 100 < t + 120 \<and> reviewed sample_reviews t ''good'' user)"
proof -
  have g: "cache_Get list_cache sample_cache 100 ''good'' = Some \<lparr> ui_Name = ''prom'', ui_UID = ''1'', ui_Groups = [], ui_Extra = None \<rparr>"
    by code_simp
  from token_cache_sound [OF list_cache.expiring_cache_axioms sample_middleware_def sample_reaches g] g show ?thesis by blast
qed

theorem protected_handler_authorized_witness:
  "\<exists>c' w'. mw_Handler sample_middleware scrape 100 sample_cache (fresh_writer []) (bearer ''good'') = (c', w', True) \<and>
    (\<exists>t user. t \<le> 100 \<and> 100 < t + 120 \<and> reviewed sample_reviews t ''good'' user)"
proof -
  obtain c' w' served where m: "mw_Handler sample_middleware scrape 100 sample_cache (fresh_writer []) (bearer ''good'') = (c', w', served)"
    by (cases "mw_Handler sample_middleware scrape 100 sample_cache (fresh_writer []) (bearer ''good'')")
  have s: "snd (snd (mw_Handler sample_middleware scrape 100 sample_cache (fresh_writer []) (bearer ''good'')))" "extractBearerToken (bearer ''good'') = ''good''"
    by code_simp+
  have "rw_head (fresh_writer []) = None" by (simp add: fresh_writer_def)
  from protected_handler_authorized [OF list_cache.expiring_cache_axioms sample_middleware_def sample_reaches this m] m s show ?thesis
    by auto
qed

end
