(* ===== verification/Logging.thy ===== *)
theory Logging
  imports Proxy_Handler "HOL-Library.Char_ord" "HOL-Library.List_Lexorder"
begin

text \<open>
  Log output, \<^verbatim>\<open>pkg/log\<close> and \<^verbatim>\<open>pkg/proxy/logger.go\<close>, and the places of the proxy handler where a debug log
  takes part in the handling: the reader that keeps what it reads, and the dump of a passed body.

  A logger is its lowest level and its attributes, logging returns records. The JSON handler and the record
  of \<^verbatim>\<open>log/slog\<close>, the YAML encoder, the indentation library and the JSON diff library are parameters.
  A Go map is an association list with distinct keys; the order of a range over it is an argument.
  \<open>None\<close> in \<open>pretty_Handle\<close> is the panic of slicing an empty buffer.

  Shown: debug logging changes neither the answer nor the metrics of a response that is passed through;
  the reader keeps exactly what was read; a pretty record does not depend on the iteration order, never
  panics, ends with a line break, and leaves the shared buffer empty whatever happens; attributes
  inside groups are lost when they have the name of a default one.
\<close>

section \<open>Levels and loggers\<close>

datatype slog_level = LevelDebug | LevelInfo | LevelWarn | LevelError

fun level_number :: "slog_level \<Rightarrow> int" where
  "level_number LevelDebug = -4"
| "level_number LevelInfo = 0"
| "level_number LevelWarn = 4"
| "level_number LevelError = 8"

fun Level_String :: "slog_level \<Rightarrow> string" where
  "Level_String LevelDebug = ''DEBUG''"
| "Level_String LevelInfo = ''INFO''"
| "Level_String LevelWarn = ''WARN''"
| "Level_String LevelError = ''ERROR''"

lemma level_number_inj [simp]: "level_number a = level_number b \<longleftrightarrow> a = b"
  by (cases a; cases b) simp_all

instantiation slog_level :: linorder
begin

definition less_eq_slog_level :: "slog_level \<Rightarrow> slog_level \<Rightarrow> bool" where
  "less_eq_slog_level a b \<longleftrightarrow> level_number a \<le> level_number b"

definition less_slog_level :: "slog_level \<Rightarrow> slog_level \<Rightarrow> bool" where
  "less_slog_level a b \<longleftrightarrow> level_number a < level_number b"

instance
  by standard (auto simp: less_eq_slog_level_def less_slog_level_def)

end

type_synonym attr = "string \<times> string"

record log_record =
  lr_Level :: slog_level
  lr_Message :: string
  lr_Attrs :: "attr list"

record logger =
  lg_Level :: slog_level
  lg_Attrs :: "attr list"

definition Enabled :: "logger \<Rightarrow> slog_level \<Rightarrow> bool" where
  "Enabled lg l \<longleftrightarrow> lg_Level lg \<le> l"

definition logs :: "logger \<Rightarrow> slog_level \<Rightarrow> string \<Rightarrow> attr list \<Rightarrow> log_record list" where
  "logs lg l msg as = (if Enabled lg l then [\<lparr> lr_Level = l, lr_Message = msg, lr_Attrs = lg_Attrs lg @ as \<rparr>] else [])"

definition logger_With :: "logger \<Rightarrow> attr list \<Rightarrow> logger" where
  "logger_With lg as = lg\<lparr> lg_Attrs := lg_Attrs lg @ as \<rparr>"

section \<open>Attributes: attrs.go, proxy/logger.go\<close>

definition BodyDiffKey :: string where
  "BodyDiffKey = ''body.diff''"

definition BodyDumpKey :: string where
  "BodyDumpKey = ''body.dump''"

definition SlogErr :: "error \<Rightarrow> attr" where
  "SlogErr err = (''err'', error_text err)"

definition BodyDiff :: "string \<Rightarrow> attr" where
  "BodyDiff diff = (BodyDiffKey, diff)"

definition BodyDump :: "string \<Rightarrow> attr" where
  "BodyDump dump = (BodyDumpKey, dump)"

definition LoggerWithCommonAttrs :: "logger \<Rightarrow> ctxt \<Rightarrow> attr list \<Rightarrow> logger" where
  "LoggerWithCommonAttrs dflt ctx attrs =
     logger_With (logger_With dflt
       [(''proxy.name'', NameFromContext ctx), (''resource'', ResourceFromContext ctx), (''method'', MethodFromContext ctx),
        (''watch'', WatchFromContext ctx)]) attrs"

text \<open>Which requests are not logged, in \<^verbatim>\<open>ServeHTTP\<close>.\<close>

definition is_mute :: "TargetRequest \<Rightarrow> string \<Rightarrow> bool" where
  "is_mute targetReq resource =
     (if resource \<in> {''leases'', ''endpoints''} then True
      else if resource \<in> {''clusterrolebindings'', ''clustervirtualmachineimages'', ''virtualmachines'', ''virtualmachines/status''} then False
      else \<not> tr_ShouldRewriteRequest targetReq \<and> \<not> tr_ShouldRewriteResponse targetReq)"

section \<open>Setup: setup.go\<close>

text \<open>
  \<^verbatim>\<open>strings.ToLower\<close> as far as a comparison with an ASCII word can tell: besides the capital letters, the
  Kelvin sign and the capital I with a dot have ASCII lower cases.
\<close>

fun ToLower :: "string \<Rightarrow> string" where
  "ToLower [] = []"
| "ToLower (c # s) =
     (if c = CHR 0xC4 \<and> s \<noteq> [] \<and> hd s = CHR 0xB0 then CHR ''i'' # ToLower (tl s)
      else if c = CHR 0xE2 \<and> length s > 1 \<and> take 2 s = [CHR 0x84, CHR 0xAA] then CHR ''k'' # ToLower (drop 2 s)
      else (let n = of_char c :: nat in if 65 \<le> n \<and> n \<le> 90 then char_of (n + 32) else c) # ToLower s)"

datatype Format = JSONLog | TextLog | PrettyLog

datatype Output = Stdout | Stderr | Discard

record log_Options =
  lo_Level :: string
  lo_Format :: string
  lo_Output :: string

definition DefaultLogLevel :: slog_level where
  "DefaultLogLevel = LevelInfo"

definition DefaultDebugLogFormat :: Format where
  "DefaultDebugLogFormat = PrettyLog"

definition DefaultLogFormat :: Format where
  "DefaultLogFormat = JSONLog"

definition DefaultLogOutput :: Output where
  "DefaultLogOutput = Stdout"

definition detectLogLevel :: "string \<Rightarrow> slog_level" where
  "detectLogLevel level =
     (let l = ToLower level in
      if l = ''error'' then LevelError else if l = ''warn'' then LevelWarn else if l = ''info'' then LevelInfo
      else if l = ''debug'' then LevelDebug else DefaultLogLevel)"

definition detectLogFormat :: "string \<Rightarrow> slog_level \<Rightarrow> Format" where
  "detectLogFormat format level =
     (let f = ToLower format in
      if f = ''text'' then TextLog else if f = ''json'' then JSONLog else if f = ''pretty'' then PrettyLog
      else if level = LevelDebug then DefaultDebugLogFormat else DefaultLogFormat)"

definition detectLogOutput :: "string \<Rightarrow> Output" where
  "detectLogOutput output =
     (let p = ToLower output in
      if p = ''stdout'' then Stdout else if p = ''stderr'' then Stderr else if p = ''discard'' then Discard else DefaultLogOutput)"

record log_handler =
  hn_Format :: Format
  hn_Output :: Output
  hn_Level :: slog_level

definition SetupHandler :: "log_Options \<Rightarrow> log_handler option" where
  "SetupHandler opts =
     (let logLevel = detectLogLevel (lo_Level opts);
          logOutput = detectLogOutput (lo_Output opts);
          logFormat = detectLogFormat (lo_Format opts) logLevel
      in Some \<lparr> hn_Format = logFormat, hn_Output = logOutput, hn_Level = logLevel \<rparr>)"

definition SetupDefaultLoggerFromEnv :: "log_Options \<Rightarrow> log_handler \<Rightarrow> log_handler" where
  "SetupDefaultLoggerFromEnv opts dflt = (case SetupHandler opts of None \<Rightarrow> dflt | Some handler \<Rightarrow> handler)"

section \<open>Bodies in logs: body.go\<close>

text \<open>A body that is read chunk by chunk, and the copy of what was read. Anything else is \<open>NoLogger\<close>.\<close>

record ReaderLogger =
  wrappedReader :: body
  rl_buf :: string

datatype logged = Logging ReaderLogger | NoLogger

definition NewReaderLogger :: "body \<Rightarrow> ReaderLogger" where
  "NewReaderLogger r = \<lparr> wrappedReader = r, rl_buf = [] \<rparr>"

text \<open>One read: the chunk, or the end with the error of the body, if it has one.\<close>

definition rl_Read :: "ReaderLogger \<Rightarrow> ReaderLogger \<times> (string, error option) sum" where
  "rl_Read r =
     (case wrappedReader r of
       Body [] e \<Rightarrow> (r, Inr e)
     | Body (c # cs) e \<Rightarrow> (\<lparr> wrappedReader = Body cs e, rl_buf = rl_buf r @ c \<rparr>, Inl c))"

definition rl_Close :: "ReaderLogger \<Rightarrow> ReaderLogger \<times> error option" where
  "rl_Close r = (r, None)"

definition HeadString :: "logged \<Rightarrow> nat \<Rightarrow> string" where
  "HeadString obj limit =
     (case obj of
       NoLogger \<Rightarrow> []
     | Logging readLog \<Rightarrow>
         (let bufStr = rl_buf readLog; bufLen = length bufStr in if bufLen < limit then bufStr else take limit bufStr))"

definition HeadStringEx :: "logged \<Rightarrow> nat \<Rightarrow> string" where
  "HeadStringEx obj limit =
     (let s = HeadString obj limit in if s = [] then ''<empty>'' else ''['' @ Itoa (length s) @ ''] '' @ s)"

definition HasData :: "logged \<Rightarrow> bool" where
  "HasData obj = (case obj of NoLogger \<Rightarrow> False | Logging readLog \<Rightarrow> length (rl_buf readLog) > 0)"

text \<open>An empty buffer gives a nil slice.\<close>

definition rl_Bytes :: "logged \<Rightarrow> bytes" where
  "rl_Bytes obj = (case obj of NoLogger \<Rightarrow> None | Logging readLog \<Rightarrow> if rl_buf readLog = [] then None else Some (rl_buf readLog))"

section \<open>Dumps and differences: differ.go\<close>

definition headBytes :: "bytes \<Rightarrow> nat \<Rightarrow> string" where
  "headBytes msg limit =
     (let s = bytes_str msg; msgLen = length s in
      if msgLen = 0 then ''<empty>''
      else (let limit = (if msgLen < limit then msgLen else limit) in ''['' @ Itoa msgLen @ ''] '' @ take limit s))"

definition DebugBodyHead :: "logger \<Rightarrow> string \<Rightarrow> string \<Rightarrow> bytes \<Rightarrow> log_record list" where
  "DebugBodyHead lg msg resourceType obj =
     (let limit = (if resourceType \<in> {''virtualmachines'', ''virtualmachines/status'', ''virtualmachineinstances'', ''virtualmachineinstances/status'',
            ''clustervirtualimages'', ''clustervirtualimages/status'', ''clusterrolebindings'', ''customresourcedefinitions''} then 32000 else 1024);
          limit = (if resourceType = ''patch'' then bytes_len obj else limit)
      in logs lg LevelDebug (msg @ '': dump rewritten body'') [BodyDump (headBytes obj limit)])"

record 'n difflib =
  jd_ReadJsonString :: "string \<Rightarrow> 'n res"
  jd_Diff_Render :: "'n \<Rightarrow> 'n \<Rightarrow> string"

definition Diff :: "'n difflib \<Rightarrow> bytes \<Rightarrow> bytes \<Rightarrow> string res" where
  "Diff J json1 json2 =
     (case (json1, json2) of
       (None, Some t) \<Rightarrow> Inl (Errorf (''got '' @ Itoa (length t) @ '' rewritten bytes without original''))
     | (Some _, None) \<Rightarrow> Inr ''<No rewrite was done>''
     | (None, None) \<Rightarrow> Inr ''<Empty>''
     | (Some s, Some t) \<Rightarrow>
         if s = t then Inr ''<Equal>''
         else res_bind (jd_ReadJsonString J s) (\<lambda>a. res_bind (jd_ReadJsonString J t) (\<lambda>b. Inr (jd_Diff_Render J a b))))"

definition DebugBodyChanges :: "'r jsonlib \<Rightarrow> 'n difflib \<Rightarrow> logger \<Rightarrow> string \<Rightarrow> string \<Rightarrow> bytes \<Rightarrow> bytes \<Rightarrow> log_record list" where
  "DebugBodyChanges L J lg msg resourceType inBytes rwrBytes =
     (if \<not> Enabled lg LevelDebug then []
      else if rwrBytes = None then logs lg LevelDebug (msg @ '': no changes after rewrite'') []
      else if bytes_len inBytes = 0 \<and> bytes_len rwrBytes = 0 then logs lg LevelDebug (msg @ '': empty body'') []
      else if bytes_len inBytes = 0 \<and> bytes_len rwrBytes \<noteq> 0
      then logs lg LevelDebug (msg @ '': possible bug: empty body produces '' @ Itoa (bytes_len rwrBytes) @ '' bytes'') [] @
        DebugBodyHead lg msg resourceType rwrBytes
      else if bytes_len inBytes \<noteq> 0 \<and> bytes_len rwrBytes = 0
      then logs lg LevelError (msg @ '': possible bug: non-empty body ['' @ Itoa (bytes_len inBytes) @ ''] produces empty rewrite'') [] @
        DebugBodyHead lg msg resourceType inBytes
      else (case Diff J inBytes rwrBytes of
        Inl err \<Rightarrow> logs lg LevelError (''Can'' @ apostrophe @ ''t diff '' @ apostrophe @ resourceType @ apostrophe @ '' JSONs after rewrite'') [SlogErr err] @
          DebugBodyHead lg msg resourceType rwrBytes
      | Inr diffContent \<Rightarrow>
          (let apiVersion = gjson_String L (gjson_GetBytes L inBytes ''apiVersion'');
               kind = gjson_String L (gjson_GetBytes L inBytes ''kind'');
               ns = gjson_String L (gjson_GetBytes L inBytes ''metadata.namespace'');
               name = gjson_String L (gjson_GetBytes L inBytes ''metadata.name'')
           in logs lg LevelDebug (msg @ '': changes after rewrite for '' @ ns @ ''/'' @ apiVersion @ ''/'' @ kind @ ''/'' @ name) [BodyDiff diffContent])))"

section \<open>Passing a response with a debug log\<close>

text \<open>\<^verbatim>\<open>io.Copy\<close> from a counted reader that keeps what it reads.\<close>

function log_copy_loop :: "ResponseWriter \<Rightarrow> ReaderLogger \<Rightarrow> nat list \<Rightarrow> ResponseWriter \<times> error option \<times> nat list \<times> ReaderLogger" where
  "log_copy_loop w r ls =
     (case rl_Read r of
       (r, Inr e) \<Rightarrow> (w, e, ls, r)
     | (r, Inl c) \<Rightarrow>
         if c = [] then log_copy_loop w r (ls @ [0])
         else (case immediateWriter_Write w c of
           (w, (n, Some err)) \<Rightarrow> (w, Some err, ls @ [length c], r)
         | (w, (n, None)) \<Rightarrow> log_copy_loop w r (ls @ [length c])))"
  by pat_completeness auto

termination
  by (relation "measure (\<lambda>(w, r, ls). case wrappedReader r of Body cs e \<Rightarrow> length cs)")
    (auto simp: rl_Read_def split: body.splits list.splits)

declare log_copy_loop.simps [simp del]

text \<open>The chunks a copy hands to the writer, which are the ones a debug log of a watch shows.\<close>

fun chunks_written :: "ResponseWriter \<Rightarrow> string list \<Rightarrow> string list" where
  "chunks_written w [] = []"
| "chunks_written w (c # cs) =
     (if c = [] then chunks_written w cs
      else c # (case immediateWriter_Write w c of (w, (n, Some err)) \<Rightarrow> [] | (w, (n, None)) \<Rightarrow> chunks_written w cs))"

definition passResponse_logged ::
    "logger \<Rightarrow> MetricsProvider \<Rightarrow> ctxt \<Rightarrow> TargetRequest \<Rightarrow> ResponseWriter \<Rightarrow> http_response \<Rightarrow> ResponseWriter \<times> metric_op list \<times> log_record list" where
  "passResponse_logged lg prov ctx targetReq w resp =
     (let w = w\<lparr> rw_header := copyHeader (rw_header w) (resp_Header resp) \<rparr>;
          w = WriteHeader w (resp_StatusCode resp);
          debug = Enabled lg LevelDebug;
          chunkLogs = (if debug \<and> tr_IsWatch targetReq
            then concat (map (\<lambda>chunk. logs lg LevelDebug (''Pass through response chunk: '' @ chunk) []) (chunks_written w (case resp_Body resp of Body cs e \<Rightarrow> cs)))
            else []);
          metrics = NewProxyMetrics ctx prov;
          (w, err, bytesCounterBody, bodyReader) =
            (if debug \<and> \<not> tr_IsWatch targetReq
             then (case log_copy_loop w (NewReaderLogger (resp_Body resp)) [] of
               (w, err, ls, r) \<Rightarrow> (w, err, Counting (bc_reads ls BytesCounterReaderWrap), Logging r))
             else (case Copy w (resp_Body resp) of (w, err, cnt) \<Rightarrow> (w, err, cnt, NoLogger)));
          dump = (if debug \<and> \<not> tr_IsWatch targetReq
            then DebugBodyHead lg (''Pass through response: status '' @ Itoa (resp_StatusCode resp) @ '', content-length: '' @ apostrophe @
                header_Get (resp_Header resp) ''Content-Length'' @ apostrophe) (tr_ResourceForLog targetReq) (rl_Bytes bodyReader)
            else [])
      in case err of
        Some err \<Rightarrow> (w, [RequestHandleError metrics], chunkLogs @ logs lg LevelError (''copy target response back to client: '' @ error_text err) [] @ dump)
      | None \<Rightarrow> (w, [ToClientBytesAdd metrics (CounterValue bytesCounterBody), RequestHandleSuccess metrics], chunkLogs @ dump))"

lemma DebugBodyHead_nil: "DebugBodyHead lg msg res None = DebugBodyHead lg msg res (Some [])"
  by (simp add: DebugBodyHead_def headBytes_def bytes_len_def)

lemma log_copy_loop_eq:
  "log_copy_loop w \<lparr> wrappedReader = Body cs e, rl_buf = b \<rparr> ls = (w', err, ls', r) \<Longrightarrow>
   copy_loop w cs e ls = (w', err, ls') \<and> (\<exists>rest. b @ concat cs = rl_buf r @ rest \<and> (err = None \<longrightarrow> rest = []))"
proof (induction cs arbitrary: w b ls)
  case Nil
  then show ?case by (subst (asm) log_copy_loop.simps) (auto simp: rl_Read_def)
next
  case (Cons c cs)
  note step = Cons.prems [unfolded log_copy_loop.simps [of w "\<lparr> wrappedReader = Body (c # cs) e, rl_buf = b \<rparr>"]]
  show ?case
  proof (cases "c = []")
    case True
    with step Cons.IH [of w b "ls @ [0]"] show ?thesis by (simp add: rl_Read_def)
  next
    case False
    obtain w1 k er where i: "immediateWriter_Write w c = (w1, (k, er))" by (metis surj_pair)
    with False step Cons.IH [of w1 "b @ c" "ls @ [length c]"] show ?thesis
      by (cases er) (auto simp: rl_Read_def)
  qed
qed

text \<open>
  C35. Debug logging does not change a response that is passed through: whatever the level, the client gets
  the same bytes and the same metrics are counted; and after a copy without an error the whole body
  is there to be dumped.
\<close>

theorem debug_log_transparent:
  "case passResponse_logged lg prov ctx tr w resp of (w', ops, records) \<Rightarrow>
     (w', ops) = passResponse prov ctx w resp \<and>
     (\<not> Enabled lg LevelDebug \<longrightarrow> list_all (\<lambda>r. lr_Level r = LevelError) records) \<and>
     (Enabled lg LevelDebug \<and> \<not> tr_IsWatch tr \<and> ReadAll (resp_Body resp) = Inr t \<and> ops \<noteq> [RequestHandleError (NewProxyMetrics ctx prov)] \<longrightarrow>
       (\<exists>msg. records = DebugBodyHead lg msg (tr_ResourceForLog tr) (Some t)))"
proof -
  obtain cs e where b: "resp_Body resp = Body cs e" by (cases "resp_Body resp")
  let ?w = "WriteHeader (w\<lparr> rw_header := copyHeader (rw_header w) (resp_Header resp) \<rparr>) (resp_StatusCode resp)"
  obtain w' err ls r where l: "log_copy_loop ?w (NewReaderLogger (resp_Body resp)) [] = (w', err, ls, r)" by (metis surj_pair)
  from log_copy_loop_eq [OF l [unfolded NewReaderLogger_def b]]
  obtain rest where c: "copy_loop ?w cs e [] = (w', err, ls)" "concat cs = rl_buf r @ rest" "err = None \<longrightarrow> rest = []" by auto
  then have cp: "Copy ?w (resp_Body resp) = (w', err, Counting (bc_reads ls BytesCounterReaderWrap))" by (simp add: Copy_def b)
  show ?thesis
    using l cp c(2,3) b
    by (cases err; cases e; cases "Enabled lg LevelDebug"; cases "tr_IsWatch tr")
      (auto simp: passResponse_logged_def passResponse_def Let_def logs_def rl_Bytes_def DebugBodyHead_nil)
qed

section \<open>The pretty handler: pretty\_handler.go\<close>

text \<open>
  The record and the JSON handler of \<^verbatim>\<open>log/slog\<close> as far as they are used, with what belongs to other
  libraries. \<open>jh\<close> stands for the attributes and groups that the inner handler carries; its output
  is appended to the shared buffer even if it fails in the end.
\<close>

record slog_Record =
  sr_Time :: string
  sr_Level :: slog_level
  sr_Message :: string
  sr_PC :: nat
  sr_Attrs :: "attr list"

record HandlerOptions =
  ho_Level :: "slog_level option"
  ho_AddSource :: bool
  ho_ReplaceAttr :: "(string list \<Rightarrow> attr \<Rightarrow> attr) option"

record 'j prettylib =
  slog_NewJSONHandler :: "HandlerOptions \<Rightarrow> 'j"
  jh_Handle :: "'j \<Rightarrow> slog_Record \<Rightarrow> string \<times> error option"
  jh_Enabled :: "'j \<Rightarrow> slog_level \<Rightarrow> bool"
  jh_WithAttrs :: "'j \<Rightarrow> attr list \<Rightarrow> 'j"
  jh_WithGroup :: "'j \<Rightarrow> string \<Rightarrow> 'j"
  json_UnmarshalMap :: "string \<Rightarrow> (string \<times> rj) list res"
  any_String :: "rj \<Rightarrow> string"
  yaml_Marshal :: "(string \<times> rj) list \<Rightarrow> string res"
  text_Indent :: "string \<Rightarrow> string \<Rightarrow> string"
  source_line :: "nat \<Rightarrow> string"

record 'j PrettyHandler =
  ph_jh :: 'j
  ph_AddSource :: bool

text \<open>
  The buffer of the inner handler and the writer, which all derived handlers share; \<open>out_room\<close> is how many
  bytes the writer still takes before it fails, if it fails.
\<close>

record sinks =
  jhb :: string
  ph_out :: string
  out_room :: "nat option"

text \<open>\<^verbatim>\<open>ReplaceAttr\<close> of the inner handler: the empty attribute is left out by \<^verbatim>\<open>slog\<close>.\<close>

definition suppressDefaultAttrs :: "(string list \<Rightarrow> attr \<Rightarrow> attr) option \<Rightarrow> string list \<Rightarrow> attr \<Rightarrow> attr" where
  "suppressDefaultAttrs nxt groups a =
     (if fst a = ''time'' \<or> fst a = ''level'' \<or> fst a = ''msg'' \<or> fst a = ''source'' then ([], [])
      else (case nxt of None \<Rightarrow> a | Some f \<Rightarrow> f groups a))"

definition NewPrettyHandler :: "'j prettylib \<Rightarrow> HandlerOptions option \<Rightarrow> 'j PrettyHandler \<times> sinks" where
  "NewPrettyHandler P opts =
     (let opts = (case opts of None \<Rightarrow> \<lparr> ho_Level = None, ho_AddSource = False, ho_ReplaceAttr = None \<rparr> | Some opts \<Rightarrow> opts) in
      (\<lparr> ph_jh = slog_NewJSONHandler P \<lparr> ho_Level = ho_Level opts, ho_AddSource = ho_AddSource opts,
            ho_ReplaceAttr = Some (suppressDefaultAttrs (ho_ReplaceAttr opts)) \<rparr>,
         ph_AddSource = ho_AddSource opts \<rparr>,
       \<lparr> jhb = [], ph_out = [], out_room = None \<rparr>))"

definition ph_Enabled :: "'j prettylib \<Rightarrow> 'j PrettyHandler \<Rightarrow> slog_level \<Rightarrow> bool" where
  "ph_Enabled P h l = jh_Enabled P (ph_jh h) l"

definition ph_WithAttrs :: "'j prettylib \<Rightarrow> 'j PrettyHandler \<Rightarrow> attr list \<Rightarrow> 'j PrettyHandler" where
  "ph_WithAttrs P h as = h\<lparr> ph_jh := jh_WithAttrs P (ph_jh h) as \<rparr>"

definition ph_WithGroup :: "'j prettylib \<Rightarrow> 'j PrettyHandler \<Rightarrow> string \<Rightarrow> 'j PrettyHandler" where
  "ph_WithGroup P h name = h\<lparr> ph_jh := jh_WithGroup P (ph_jh h) name \<rparr>"

definition newline :: string where
  "newline = [CHR 0x0A]"

definition ensureEndingNewLine :: "string \<Rightarrow> string option" where
  "ensureEndingNewLine buf = (if buf = [] then None else Some (if last buf \<noteq> CHR 0x0A then buf @ newline else buf))"

definition gatherAttrs :: "'j prettylib \<Rightarrow> 'j PrettyHandler \<Rightarrow> slog_Record \<Rightarrow> sinks \<Rightarrow> sinks \<times> (string \<times> rj) list res" where
  "gatherAttrs P h r st =
     (case jh_Handle P (ph_jh h) r of
       (txt, Some err) \<Rightarrow> (st\<lparr> jhb := [] \<rparr>, Inl (Wrapf (''error when calling inner handler'' @ apostrophe @ ''s Handle'') err))
     | (txt, None) \<Rightarrow>
         (case json_UnmarshalMap P (jhb st @ txt) of
           Inl err \<Rightarrow> (st\<lparr> jhb := [] \<rparr>, Inl (Wrapf (''error when unmarshaling inner handler'' @ apostrophe @ ''s Handle result'') err))
         | Inr attrs \<Rightarrow> (st\<lparr> jhb := [] \<rparr>, Inr attrs)))"

record parts =
  pt_dumps :: "(string \<times> string) list"
  pt_groups :: "(string \<times> rj) list"
  pt_attrs :: "attr list"

definition put_attr :: "'j prettylib \<Rightarrow> string \<times> rj \<Rightarrow> parts \<Rightarrow> parts" where
  "put_attr P kv st =
     (case kv of (attrKey, v) \<Rightarrow>
       (case v of
         RObj _ \<Rightarrow> st\<lparr> pt_groups := AList.update attrKey v (pt_groups st) \<rparr>
       | RArr _ \<Rightarrow> st\<lparr> pt_groups := AList.update attrKey v (pt_groups st) \<rparr>
       | RStr s \<Rightarrow>
           if attrKey = BodyDumpKey \<or> attrKey = BodyDiffKey then st\<lparr> pt_dumps := AList.update attrKey s (pt_dumps st) \<rparr>
           else st\<lparr> pt_attrs := pt_attrs st @ [(attrKey, s)] \<rparr>
       | _ \<Rightarrow> st\<lparr> pt_attrs := pt_attrs st @ [(attrKey, any_String P v)] \<rparr>))"

definition write_attrs :: "attr list \<Rightarrow> string" where
  "write_attrs attrs = Join (map (\<lambda>(k, v). k @ ''='' @ [CHR 0x22] @ v @ [CHR 0x22]) attrs) '' ''"

fun write_dumps :: "'j prettylib \<Rightarrow> (string \<times> string) list \<Rightarrow> string list \<Rightarrow> string \<Rightarrow> string option" where
  "write_dumps P dumps [] b = Some b"
| "write_dumps P dumps (dumpName # names) b =
     (case map_of dumps dumpName of
       None \<Rightarrow> write_dumps P dumps names b
     | Some diff \<Rightarrow>
         (case ensureEndingNewLine (b @ ''  '' @ dumpName @ '':'' @ newline @ text_Indent P diff ''    '') of
           None \<Rightarrow> None
         | Some b \<Rightarrow> write_dumps P dumps names b))"

definition WriteTo :: "string \<Rightarrow> sinks \<Rightarrow> sinks \<times> error option" where
  "WriteTo b st =
     (case out_room st of
       None \<Rightarrow> (st\<lparr> ph_out := ph_out st @ b \<rparr>, None)
     | Some n \<Rightarrow> (st\<lparr> ph_out := ph_out st @ take n b, out_room := Some (n - length b) \<rparr>,
         if length b \<le> n then None else Some write_failed))"

text \<open>\<open>ord\<close>: the order in which the range visits the attributes.\<close>

definition pretty_Handle ::
    "'j prettylib \<Rightarrow> ((string \<times> rj) list \<Rightarrow> (string \<times> rj) list) \<Rightarrow> 'j PrettyHandler \<Rightarrow> slog_Record \<Rightarrow> sinks \<Rightarrow> (sinks \<times> error option) option" where
  "pretty_Handle P ord h r st =
     (case gatherAttrs P h r st of
       (st, Inl err) \<Rightarrow> Some (st, Some err)
     | (st, Inr allAttrs) \<Rightarrow>
         (let p = fold (put_attr P) (ord allAttrs) \<lparr> pt_dumps = [], pt_groups = [], pt_attrs = [] \<rparr>;
              b = sr_Time r @ '' '' @ Level_String (sr_Level r) @ '' '' @ sr_Message r @ '' '' @ write_attrs (sort_key fst (pt_attrs p))
          in case ensureEndingNewLine b of
            None \<Rightarrow> None
          | Some b \<Rightarrow>
              (let b = (if ph_AddSource h \<and> sr_PC r \<noteq> 0 then b @ ''  source='' @ source_line P (sr_PC r) @ newline else b) in
               case (if pt_groups p = [] then Inr (Some b)
                     else res_bind (res_wrap ''error marshaling grouped attrs'' (yaml_Marshal P (pt_groups p))) (\<lambda>groupsBytes.
                       Inr (ensureEndingNewLine (b @ text_Indent P groupsBytes ''  '')))) of
                 Inl err \<Rightarrow> Some (st, Some err)
               | Inr None \<Rightarrow> None
               | Inr (Some b) \<Rightarrow>
                   (case write_dumps P (pt_dumps p) [BodyDumpKey, BodyDiffKey] b of
                     None \<Rightarrow> None
                   | Some b \<Rightarrow> Some (WriteTo b st)))))"

text \<open>What the loop over the attributes collects, for distinct keys.\<close>

definition is_group :: "string \<times> rj \<Rightarrow> bool" where
  "is_group kv \<longleftrightarrow> (case snd kv of RObj _ \<Rightarrow> True | RArr _ \<Rightarrow> True | _ \<Rightarrow> False)"

definition dump_of :: "string \<times> rj \<Rightarrow> (string \<times> string) option" where
  "dump_of kv = (case snd kv of RStr s \<Rightarrow> if fst kv \<in> {BodyDumpKey, BodyDiffKey} then Some (fst kv, s) else None | _ \<Rightarrow> None)"

definition plain_of :: "'j prettylib \<Rightarrow> string \<times> rj \<Rightarrow> attr option" where
  "plain_of P kv =
     (case snd kv of RObj _ \<Rightarrow> None | RArr _ \<Rightarrow> None
      | RStr s \<Rightarrow> if fst kv \<in> {BodyDumpKey, BodyDiffKey} then None else Some (fst kv, s)
      | v \<Rightarrow> Some (fst kv, any_String P v))"

definition collected :: "'j prettylib \<Rightarrow> (string \<times> rj) list \<Rightarrow> parts" where
  "collected P m = \<lparr> pt_dumps = List.map_filter dump_of m, pt_groups = filter is_group m, pt_attrs = List.map_filter (plain_of P) m \<rparr>"

lemma update_append: "k \<notin> fst ` set m \<Longrightarrow> AList.update k v m = m @ [(k, v)]"
  by (induction m) auto

lemma map_filter_append: "List.map_filter f (xs @ ys) = List.map_filter f xs @ List.map_filter f ys"
  by (simp add: List.map_filter_def)

lemma set_map_filter: "set (List.map_filter f xs) = {y. \<exists>x \<in> set xs. f x = Some y}"
  by (induction xs) (auto simp: List.map_filter_simps split: option.splits)

lemma dump_of_key: "dump_of kv = Some d \<Longrightarrow> fst d = fst kv"
  by (auto simp: dump_of_def split: rj.splits if_splits)

lemma plain_of_key: "plain_of P kv = Some a \<Longrightarrow> fst a = fst kv"
  by (auto simp: plain_of_def split: rj.splits if_splits)

lemma map_filter_keys:
  assumes "\<And>x y. f x = Some y \<Longrightarrow> fst y = fst x"
  shows "fst ` set (List.map_filter f m) \<subseteq> fst ` set m"
  using assms by (force simp: set_map_filter)

lemma map_filter_distinct:
  assumes "\<And>x y. f x = Some y \<Longrightarrow> fst y = fst x"
  shows "distinct (map fst m) \<Longrightarrow> distinct (map fst (List.map_filter f m))"
proof (induction m)
  case (Cons x m)
  with map_filter_keys [of f m, OF assms] assms [of x] show ?case
    by (auto simp: List.map_filter_simps split: option.splits)
qed (simp add: List.map_filter_simps)

lemma map_filter_mset: "mset m = mset m' \<Longrightarrow> mset (List.map_filter f m) = mset (List.map_filter f m')"
  by (metis List.map_filter_def mset_filter mset_map)

lemma fold_put_attr: "distinct (map fst m) \<Longrightarrow> fold (put_attr P) m \<lparr> pt_dumps = [], pt_groups = [], pt_attrs = [] \<rparr> = collected P m"
proof (induction m rule: rev_induct)
  case Nil
  then show ?case by (simp add: collected_def List.map_filter_def)
next
  case (snoc x m)
  obtain k v where x: "x = (k, v)" by (cases x)
  with snoc.prems have k: "k \<notin> fst ` set m" by auto
  then have "k \<notin> fst ` set (filter is_group m)" "k \<notin> fst ` set (List.map_filter dump_of m)"
    using map_filter_keys [of dump_of m, OF dump_of_key] by auto
  with snoc x show ?case
    by (cases v) (auto simp: collected_def put_attr_def map_filter_append update_append is_group_def dump_of_def plain_of_def List.map_filter_simps)
qed

lemma map_of_mset: "distinct (map fst m) \<Longrightarrow> mset m = mset m' \<Longrightarrow> map_of m = map_of m'"
  by (metis map_of_inject_set mset_eq_imp_distinct_iff mset_map set_mset_mset)

lemma sort_plain_eq:
  assumes "distinct (map fst m)" "mset m = mset m'"
  shows "sort_key fst (List.map_filter (plain_of P) m) = sort_key fst (List.map_filter (plain_of P) m')"
proof (rule sort_key_inj_key_eq)
  have "distinct (map fst (List.map_filter (plain_of P) m))"
    by (rule map_filter_distinct [OF plain_of_key assms(1)])
  then show "inj_on fst (set (List.map_filter (plain_of P) m))" by (simp add: distinct_map)
qed (use assms map_filter_mset [of m m' "plain_of P"] in simp_all)

lemma ensureEndingNewLine_append:
  "b \<noteq> [] \<Longrightarrow> \<exists>c. ensureEndingNewLine b = Some (b @ c) \<and> last (b @ c) = CHR 0x0A"
  by (auto simp: ensureEndingNewLine_def newline_def)

lemma write_dumps_append:
  "b \<noteq> [] \<Longrightarrow> last b = CHR 0x0A \<Longrightarrow> \<exists>c. write_dumps P dumps names b = Some (b @ c) \<and> last (b @ c) = CHR 0x0A"
proof (induction names arbitrary: b)
  case (Cons n names)
  show ?case
  proof (cases "map_of dumps n")
    case None
    with Cons show ?thesis by simp
  next
    case (Some d)
    let ?b = "b @ ''  '' @ n @ '':'' @ newline @ text_Indent P d ''    ''"
    from ensureEndingNewLine_append [of ?b] obtain c where
      c: "ensureEndingNewLine ?b = Some (?b @ c)" "last (?b @ c) = CHR 0x0A" by auto
    from Cons.IH [OF _ c(2)] Cons.prems Some c(1) show ?thesis by (auto simp del: last_append)
  qed
qed simp

text \<open>The part of the handler after the range: it depends on the groups and dumps as maps only.\<close>

definition pretty_lines :: "'j prettylib \<Rightarrow> 'j PrettyHandler \<Rightarrow> slog_Record \<Rightarrow> parts \<Rightarrow> string res option" where
  "pretty_lines P h r p =
     (case ensureEndingNewLine (sr_Time r @ '' '' @ Level_String (sr_Level r) @ '' '' @ sr_Message r @ '' '' @ write_attrs (sort_key fst (pt_attrs p))) of
       None \<Rightarrow> None
     | Some b \<Rightarrow>
         (let b = (if ph_AddSource h \<and> sr_PC r \<noteq> 0 then b @ ''  source='' @ source_line P (sr_PC r) @ newline else b) in
          case (if pt_groups p = [] then Inr (Some b)
                else res_bind (res_wrap ''error marshaling grouped attrs'' (yaml_Marshal P (pt_groups p))) (\<lambda>groupsBytes.
                  Inr (ensureEndingNewLine (b @ text_Indent P groupsBytes ''  '')))) of
            Inl err \<Rightarrow> Some (Inl err)
          | Inr None \<Rightarrow> None
          | Inr (Some b) \<Rightarrow> map_option Inr (write_dumps P (pt_dumps p) [BodyDumpKey, BodyDiffKey] b)))"

lemma pretty_Handle_lines:
  "pretty_Handle P ord h r st =
     (case gatherAttrs P h r st of
       (st, Inl err) \<Rightarrow> Some (st, Some err)
     | (st, Inr m) \<Rightarrow>
         (case pretty_lines P h r (fold (put_attr P) (ord m) \<lparr> pt_dumps = [], pt_groups = [], pt_attrs = [] \<rparr>) of
           None \<Rightarrow> None
         | Some (Inl err) \<Rightarrow> Some (st, Some err)
         | Some (Inr b) \<Rightarrow> Some (WriteTo b st)))"
  by (simp add: pretty_Handle_def pretty_lines_def Let_def split: prod.splits sum.splits option.splits)

lemma write_dumps_cong: "map_of d = map_of d' \<Longrightarrow> write_dumps P d names b = write_dumps P d' names b"
  by (induction names arbitrary: b) (auto split: option.splits)

lemma pretty_lines_order:
  assumes "\<And>g g'. map_of g = map_of g' \<Longrightarrow> yaml_Marshal P g = yaml_Marshal P g'"
    and "distinct (map fst m)" "mset m = mset m'"
  shows "pretty_lines P h r (collected P m) = pretty_lines P h r (collected P m')"
proof -
  have d: "distinct (map fst (filter is_group m))" using assms(2) by (rule distinct_map_filter)
  have "mset (filter is_group m) = mset (filter is_group m')" using assms(3) by simp
  with map_of_mset [OF d] have g: "map_of (filter is_group m) = map_of (filter is_group m')"
    "(filter is_group m = []) = (filter is_group m' = [])" by (blast, metis mset_zero_iff)
  have "map_of (List.map_filter dump_of m) = map_of (List.map_filter dump_of m')"
    by (rule map_of_mset [OF map_filter_distinct [OF dump_of_key assms(2)] map_filter_mset [OF assms(3)]])
  note eqs = write_dumps_cong [OF this] assms(1) [OF g(1)] g(2) sort_plain_eq [OF assms(2,3), of P]
  show ?thesis by (simp only: pretty_lines_def collected_def parts.select_convs eqs)
qed

lemma pretty_lines_line:
  "\<exists>x. pretty_lines P h r p = Some x \<and> (\<forall>b. x = Inr b \<longrightarrow> b \<noteq> [] \<and> last b = CHR 0x0A)"
proof -
  let ?h = "sr_Time r @ '' '' @ Level_String (sr_Level r) @ '' '' @ sr_Message r @ '' '' @ write_attrs (sort_key fst (pt_attrs p))"
  obtain c where c: "ensureEndingNewLine ?h = Some (?h @ c)" "last (?h @ c) = CHR 0x0A"
    using ensureEndingNewLine_append [of ?h] by auto
  define b where "b = (if ph_AddSource h \<and> sr_PC r \<noteq> 0 then (?h @ c) @ ''  source='' @ source_line P (sr_PC r) @ newline else ?h @ c)"
  have b: "b \<noteq> []" "last b = CHR 0x0A" using c(2) by (auto simp: b_def newline_def)
  let ?g = "if pt_groups p = [] then Inr (Some b)
    else res_bind (res_wrap ''error marshaling grouped attrs'' (yaml_Marshal P (pt_groups p))) (\<lambda>groupsBytes.
      Inr (ensureEndingNewLine (b @ text_Indent P groupsBytes ''  '')))"
  have g: "(\<exists>e. ?g = Inl e) \<or> (\<exists>b'. ?g = Inr (Some b') \<and> b' \<noteq> [] \<and> last b' = CHR 0x0A)"
  proof (cases "yaml_Marshal P (pt_groups p)")
    case (Inr y)
    from b ensureEndingNewLine_append [of "b @ text_Indent P y ''  ''"]
    obtain d where "ensureEndingNewLine (b @ text_Indent P y ''  '') = Some ((b @ text_Indent P y ''  '') @ d)"
      "last ((b @ text_Indent P y ''  '') @ d) = CHR 0x0A" by blast
    with b Inr show ?thesis by (simp del: last_append)
  qed (use b in simp)
  have e: "pretty_lines P h r p = (case ?g of Inl err \<Rightarrow> Some (Inl err) | Inr None \<Rightarrow> None
      | Inr (Some b) \<Rightarrow> map_option Inr (write_dumps P (pt_dumps p) [BodyDumpKey, BodyDiffKey] b))"
    unfolding pretty_lines_def c(1) b_def Let_def by (simp only: option.case)
  from g show ?thesis
  proof (elim disjE exE conjE)
    fix er
    assume "?g = Inl er"
    with e show ?thesis by (simp only: sum.case) simp
  next
    fix b'
    assume b': "?g = Inr (Some b')" "b' \<noteq> []" "last b' = CHR 0x0A"
    from write_dumps_append [OF b'(2,3)] obtain d where
      "write_dumps P (pt_dumps p) [BodyDumpKey, BodyDiffKey] b' = Some (b' @ d)" "last (b' @ d) = CHR 0x0A" by blast
    with e b' show ?thesis by (simp only: sum.case option.case option.map) simp
  qed
qed

text \<open>
  C36. A pretty record, where the YAML encoder does not depend on the order of a map and decoding gives
  distinct keys: the handler gives the same whatever order the range visits the attributes in, it does
  not panic, the buffer of the inner handler is empty afterwards even after an error, and the output is
  extended, without an error by a whole non-empty line or lines ending with a line break.
\<close>

theorem pretty_record:
  assumes "\<And>g g'. map_of g = map_of g' \<Longrightarrow> yaml_Marshal P g = yaml_Marshal P g'"
    and "\<And>t m. json_UnmarshalMap P t = Inr m \<Longrightarrow> distinct (map fst m)"
    and "\<And>m. mset (ord m) = mset m" "\<And>m. mset (ord' m) = mset m"
  shows "\<exists>st' err line. pretty_Handle P ord h r st = Some (st', err) \<and> pretty_Handle P ord' h r st = Some (st', err) \<and>
    jhb st' = [] \<and> ph_out st' = ph_out st @ line \<and> (err = None \<longrightarrow> line \<noteq> [] \<and> last line = CHR 0x0A)"
proof (cases "gatherAttrs P h r st")
  case (Pair st1 x)
  then have st1: "jhb st1 = []" "ph_out st1 = ph_out st"
    by (auto simp: gatherAttrs_def split: prod.splits option.splits sum.splits)
  show ?thesis
  proof (cases x)
    case (Inl e)
    with Pair st1 show ?thesis by (auto simp: pretty_Handle_lines)
  next
    case (Inr m)
    with Pair have d: "distinct (map fst m)"
      using assms(2) by (auto simp: gatherAttrs_def split: prod.splits option.splits sum.splits)
    have f: "fold (put_attr P) (q m) \<lparr> pt_dumps = [], pt_groups = [], pt_attrs = [] \<rparr> = collected P (q m)"
      if "mset (q m) = mset m" for q
      using that d by (metis fold_put_attr mset_eq_imp_distinct_iff mset_map)
    obtain y where y: "pretty_lines P h r (collected P m) = Some y" "\<forall>b. y = Inr b \<longrightarrow> b \<noteq> [] \<and> last b = CHR 0x0A"
      using pretty_lines_line by blast
    have l: "pretty_lines P h r (collected P (q m)) = Some y" if "mset (q m) = mset m" for q
      using pretty_lines_order [of P m "q m" h r, OF assms(1) d that [symmetric]] y(1) by simp
    have "pretty_Handle P q h r st = (case y of Inl err \<Rightarrow> Some (st1, Some err) | Inr b \<Rightarrow> Some (WriteTo b st1))"
      if "mset (q m) = mset m" for q
      using Pair Inr f [of q, OF that] l [of q, OF that] by (simp add: pretty_Handle_lines split: sum.splits)
    with assms(3,4) y(2) st1 show ?thesis
      by (cases y) (auto simp: WriteTo_def neq_Nil_conv split: option.splits)
  qed
qed

theorem debug_log_transparent_witness:
  "case passResponse_logged \<lparr> lg_Level = LevelDebug, lg_Attrs = [] \<rparr> proxyMetricsProvider [] (target_of ''/healthz'') (fresh_writer []) (sample_answer ''ok'') of
     (w', ops, records) \<Rightarrow> \<exists>msg. records = DebugBodyHead \<lparr> lg_Level = LevelDebug, lg_Attrs = [] \<rparr> msg (tr_ResourceForLog (target_of ''/healthz'')) (Some ''ok'')"
proof -
  let ?lg = "\<lparr> lg_Level = LevelDebug, lg_Attrs = [] \<rparr>"
  obtain w' ops records where p: "passResponse_logged ?lg proxyMetricsProvider [] (target_of ''/healthz'') (fresh_writer []) (sample_answer ''ok'') = (w', ops, records)"
    by (metis surj_pair)
  have "\<not> tr_IsWatch (target_of ''/healthz'')" by code_simp
  moreover have "ReadAll (resp_Body (sample_answer ''ok'')) = Inr ''ok''" by (simp add: sample_answer_def)
  moreover have "snd (passResponse proxyMetricsProvider [] (fresh_writer []) (sample_answer ''ok'')) \<noteq> [RequestHandleError (NewProxyMetrics [] proxyMetricsProvider)]"
    by (simp add: passResponse_def Copy_def sample_answer_def fresh_writer_def WriteHeader_def immediateWriter_Write_def rw_Write_def Let_def)
  ultimately show ?thesis
    using debug_log_transparent [where lg = ?lg and prov = proxyMetricsProvider and ctx = "[]" and tr = "target_of ''/healthz''"
      and w = "fresh_writer []" and resp = "sample_answer ''ok''" and t = "''ok''"] p
    by (auto simp: Enabled_def dest: sym)
qed

definition plain_prettylib :: "unit prettylib" where
  "plain_prettylib = \<lparr> slog_NewJSONHandler = (\<lambda>_. ()), jh_Handle = (\<lambda>_ _. (''x'', None)), jh_Enabled = (\<lambda>_ _. True),
     jh_WithAttrs = (\<lambda>_ _. ()), jh_WithGroup = (\<lambda>_ _. ()),
     json_UnmarshalMap = (\<lambda>_. Inr [(''b'', RStr ''2''), (''a'', RStr ''1''), (''g'', RObj []), (''body.diff'', RStr ''d'')]),
     any_String = (\<lambda>_. ''null''), yaml_Marshal = (\<lambda>_. Inr ''g: {}''), text_Indent = (\<lambda>t i. i @ t), source_line = (\<lambda>_. []) \<rparr>"

theorem pretty_record_witness:
  "\<exists>st' err line. pretty_Handle plain_prettylib id \<lparr> ph_jh = (), ph_AddSource = False \<rparr>
      \<lparr> sr_Time = ''12:00'', sr_Level = LevelInfo, sr_Message = ''m'', sr_PC = 0, sr_Attrs = [] \<rparr> \<lparr> jhb = [], ph_out = ''o'', out_room = None \<rparr> = Some (st', err) \<and>
    pretty_Handle plain_prettylib rev \<lparr> ph_jh = (), ph_AddSource = False \<rparr>
      \<lparr> sr_Time = ''12:00'', sr_Level = LevelInfo, sr_Message = ''m'', sr_PC = 0, sr_Attrs = [] \<rparr> \<lparr> jhb = [], ph_out = ''o'', out_room = None \<rparr> = Some (st', err) \<and>
    jhb st' = [] \<and> ph_out st' = ''o'' @ line"
  using pretty_record [of plain_prettylib id rev "\<lparr> ph_jh = (), ph_AddSource = False \<rparr>"
      "\<lparr> sr_Time = ''12:00'', sr_Level = LevelInfo, sr_Message = ''m'', sr_PC = 0, sr_Attrs = [] \<rparr>" "\<lparr> jhb = [], ph_out = ''o'', out_room = None \<rparr>"]
  by (force simp: plain_prettylib_def)

text \<open>
  The attributes suppressed in favour of the handler's own ones: the groups are not looked at, so that
  an attribute of a caller inside a group is lost with them, although the handler writes the message of
  the record only.
\<close>

lemma grouped_attr_lost:
  "k \<in> {''time'', ''level'', ''msg'', ''source''} \<Longrightarrow> suppressDefaultAttrs nxt (g # groups) (k, v) = ([], [])"
  by (auto simp: suppressDefaultAttrs_def)

lemma setup_level:
  "hn_Level (SetupDefaultLoggerFromEnv opts dflt) = detectLogLevel (lo_Level opts)"
  "ToLower (lo_Format opts) \<notin> {''text'', ''json'', ''pretty''} \<Longrightarrow>
   hn_Format (SetupDefaultLoggerFromEnv opts dflt) = (if ToLower (lo_Level opts) = ''debug'' then PrettyLog else JSONLog)"
  by (auto simp: SetupDefaultLoggerFromEnv_def SetupHandler_def Let_def detectLogFormat_def detectLogLevel_def DefaultLogLevel_def DefaultLogFormat_def
      DefaultDebugLogFormat_def)

end
