(* ===== verification/App.thy ===== *)
theory App
  imports Auth Proxy_Handler Server Logging
begin

text \<open>
  The application, \<^verbatim>\<open>pkg/app/main.go\<close>, \<^verbatim>\<open>settings.go\<close> and \<^verbatim>\<open>const.go\<close>, the targets it proxies to
  (\<^verbatim>\<open>pkg/target/webhook.go\<close>, \<^verbatim>\<open>kubernetes.go\<close>) and the monitoring endpoints (\<^verbatim>\<open>pkg/monitoring\<close>).

  The environment is a map; parsing URLs and JSON, loading the Kubernetes configuration and running
  the servers to their end (\<open>al_run\<close>, the state a group of servers returns in, which depends on the
  interleaving) are parameters; the runs of a group are the ones of theory \<open>Server\<close>. So is the registry of
  the Prometheus library: whether it takes a collector, and the handler that writes what it has. \<open>Panic\<close>
  is the dereference of a nil server or a collector that is refused. The state of the process that
  the start changes is its default logger and the registry.

  Shown: the program panics instead of exiting whenever one of its four servers is not configured,
  which is so by default; with all four it exits with 1 exactly when a server has an error; the
  metrics are only reachable through the middleware if authorization is configured, and the probes
  always answer.
\<close>

section \<open>Constants\<close>

definition loopbackAddr :: string where
  "loopbackAddr = ''127.0.0.1''"

definition anyAddr :: string where
  "anyAddr = ''0.0.0.0''"

definition defaultAPIClientProxyPort :: string where
  "defaultAPIClientProxyPort = ''23915''"

definition defaultWebhookProxyPort :: string where
  "defaultWebhookProxyPort = ''24192''"

definition DefaultMonitoringBindAddress :: string where
  "DefaultMonitoringBindAddress = '':9090''"

definition ClientProxyEnv :: string where
  "ClientProxyEnv = ''CLIENT_PROXY''"

definition ClientProxyAddressEnv :: string where
  "ClientProxyAddressEnv = ''CLIENT_PROXY_ADDRESS''"

definition ClientProxyPortEnv :: string where
  "ClientProxyPortEnv = ''CLIENT_PROXY_PORT''"

definition WebhookListenAddrEnv :: string where
  "WebhookListenAddrEnv = ''WEBHOOK_LISTEN_ADDRESS''"

definition WebhookListenPortEnv :: string where
  "WebhookListenPortEnv = ''WEBHOOK_LISTEN_PORT''"

definition LogLevelEnv :: string where
  "LogLevelEnv = ''LOG_LEVEL''"

definition LogFormatEnv :: string where
  "LogFormatEnv = ''LOG_FORMAT''"

definition LogOutputEnv :: string where
  "LogOutputEnv = ''LOG_OUTPUT''"

definition MonitoringBindAddressEnv :: string where
  "MonitoringBindAddressEnv = ''MONITORING_BIND_ADDRESS''"

definition MonitoringAuthEnv :: string where
  "MonitoringAuthEnv = ''MONITORING_AUTH''"

definition PprofBindAddressEnv :: string where
  "PprofBindAddressEnv = ''PPROF_BIND_ADDRESS''"

section \<open>Settings\<close>

type_synonym environ = "string \<Rightarrow> string option"

definition Getenv :: "environ \<Rightarrow> string \<Rightarrow> string" where
  "Getenv e k = (case e k of None \<Rightarrow> [] | Some v \<Rightarrow> v)"

record WebhookTargetSettings =
  wt_Address :: string
  wt_ServerName :: string
  wt_CertFileName :: string
  wt_KeyFileName :: string

definition WebhookAddressVar :: string where
  "WebhookAddressVar = ''WEBHOOK_ADDRESS''"

definition WebhookServerNameVar :: string where
  "WebhookServerNameVar = ''WEBHOOK_SERVER_NAME''"

definition WebhookCertFileVar :: string where
  "WebhookCertFileVar = ''WEBHOOK_CERT_FILE''"

definition WebhookKeyFileVar :: string where
  "WebhookKeyFileVar = ''WEBHOOK_KEY_FILE''"

definition WebhookTargetSettingsFromEnv :: "environ \<Rightarrow> WebhookTargetSettings" where
  "WebhookTargetSettingsFromEnv e = \<lparr> wt_Address = Getenv e WebhookAddressVar, wt_ServerName = Getenv e WebhookServerNameVar,
     wt_CertFileName = Getenv e WebhookCertFileVar, wt_KeyFileName = Getenv e WebhookKeyFileVar \<rparr>"

record AppSettings =
  as_ClientProxy :: string
  as_ClientProxyAddress :: string
  as_ClientProxyPort :: string
  as_WebhookProxyAddress :: string
  as_WebhookProxyPort :: string
  as_WebhookTargetSettings :: WebhookTargetSettings
  as_LogLevel :: string
  as_LogFormat :: string
  as_LogOutput :: string
  as_MonitoringBindAddress :: string
  as_MonitoringAuth :: "ResourceAttributes option"
  as_PprofBindAddress :: string

text \<open>The libraries and the world around the application.\<close>

record Kubernetes =
  k_Scheme :: string
  k_Host :: string
  k_KubeClient :: reviews

datatype collector = BuildInfoCollector | GoCollector | ProcessCollector | Vec metric_vec

record 'c applib =
  al_Unmarshal :: "string \<Rightarrow> ResourceAttributes res"
  al_ParseURL :: "string \<Rightarrow> (string \<times> string) res"
  al_GetConfig :: "string res"
  al_NewForConfig :: "string \<Rightarrow> reviews res"
  al_HTTPClientFor :: "string \<Rightarrow> unit res"
  al_cache :: "'c cachelib"
  al_Registers :: "collector list \<Rightarrow> collector \<Rightarrow> bool"
  al_HandlerFor :: "collector list \<Rightarrow> ResponseWriter \<Rightarrow> http_request \<Rightarrow> ResponseWriter"
  al_run :: "HTTPServer list \<Rightarrow> group"

definition monitoringAuthFromEnv :: "'c applib \<Rightarrow> environ \<Rightarrow> ResourceAttributes option res" where
  "monitoringAuthFromEnv A e =
     (case e MonitoringAuthEnv of
       None \<Rightarrow> Inr None
     | Some env \<Rightarrow>
         (case al_Unmarshal A env of
           Inl err \<Rightarrow> Inl (Wrapf ''failed to parse monitoring auth env'' err)
         | Inr monitoringAuth \<Rightarrow>
             (case ra_Validate monitoringAuth of
               Some err \<Rightarrow> Inl (Wrapf ''invalid monitoring auth env'' err)
             | None \<Rightarrow> Inr (Some monitoringAuth))))"

definition SettingsFromEnv :: "'c applib \<Rightarrow> environ \<Rightarrow> AppSettings res" where
  "SettingsFromEnv A e =
     res_bind (monitoringAuthFromEnv A e) (\<lambda>monitoringAuth.
       Inr \<lparr> as_ClientProxy = Getenv e ClientProxyEnv, as_ClientProxyAddress = Getenv e ClientProxyAddressEnv,
             as_ClientProxyPort = Getenv e ClientProxyPortEnv, as_WebhookProxyAddress = Getenv e WebhookListenAddrEnv,
             as_WebhookProxyPort = Getenv e WebhookListenPortEnv, as_WebhookTargetSettings = WebhookTargetSettingsFromEnv e,
             as_LogLevel = Getenv e LogLevelEnv, as_LogFormat = Getenv e LogFormatEnv, as_LogOutput = Getenv e LogOutputEnv,
             as_MonitoringBindAddress = Getenv e MonitoringBindAddressEnv, as_MonitoringAuth = monitoringAuth,
             as_PprofBindAddress = Getenv e PprofBindAddressEnv \<rparr>)"

section \<open>Targets\<close>

definition NewKubernetesTarget :: "'c applib \<Rightarrow> Kubernetes res" where
  "NewKubernetesTarget A =
     res_bind (res_wrap ''load Kubernetes client config'' (al_GetConfig A)) (\<lambda>host.
     res_bind (res_wrap ''create Kubernetes client'' (al_NewForConfig A host)) (\<lambda>kubeClient.
     res_bind (res_wrap ''setup Kubernetes API http client'' (al_HTTPClientFor A host)) (\<lambda>_.
     res_bind (res_wrap ''parse API server URL'' (al_ParseURL A host)) (\<lambda>(scheme, host).
     Inr \<lparr> k_Scheme = scheme, k_Host = host, k_KubeClient = kubeClient \<rparr>))))"

text \<open>The client of the webhook target, with durations in nanoseconds.\<close>

definition time_Second :: nat where
  "time_Second = 1000000000"

record http_Client =
  cl_Timeout :: nat
  cl_DialTimeout :: nat
  cl_InsecureSkipVerify :: bool
  cl_ServerName :: string
  cl_DisableKeepAlives :: bool
  cl_IdleConnTimeout :: nat
  cl_TLSHandshakeTimeout :: nat
  cl_ExpectContinueTimeout :: nat

record Webhook =
  w_Client :: http_Client
  w_Scheme :: string
  w_Host :: string
  w_CertManager :: "(string \<times> string) option"

definition defaultWebhookAddress :: string where
  "defaultWebhookAddress = ''https://127.0.0.1:9443''"

definition defaultWebhookTimeout :: nat where
  "defaultWebhookTimeout = 30 * time_Second"

definition webhook_client :: "string \<Rightarrow> http_Client" where
  "webhook_client serverName =
     \<lparr> cl_Timeout = defaultWebhookTimeout, cl_DialTimeout = defaultWebhookTimeout, cl_InsecureSkipVerify = True, cl_ServerName = serverName,
       cl_DisableKeepAlives = True, cl_IdleConnTimeout = 5 * 60 * time_Second, cl_TLSHandshakeTimeout = 10 * time_Second,
       cl_ExpectContinueTimeout = 1 * time_Second \<rparr>"

definition NewWebhookTarget :: "'c applib \<Rightarrow> WebhookTargetSettings \<Rightarrow> Webhook res" where
  "NewWebhookTarget A settings =
     (let address = (if wt_Address settings = [] then defaultWebhookAddress else wt_Address settings);
          serverName = (if wt_ServerName settings = [] then address else wt_ServerName settings);
          certFile = wt_CertFileName settings;
          keyFile = wt_KeyFileName settings
      in res_bind (al_ParseURL A address) (\<lambda>(scheme, host).
         if certFile = [] \<and> keyFile \<noteq> []
         then Inl (Errorf (''should specify cert file in '' @ WebhookCertFileVar @ '' if '' @ WebhookKeyFileVar @ '' is not empty''))
         else if certFile \<noteq> [] \<and> keyFile = []
         then Inl (Errorf (''should specify key file in '' @ WebhookKeyFileVar @ '' if '' @ WebhookCertFileVar @ '' is not empty''))
         else Inr \<lparr> w_Client = webhook_client serverName, w_Scheme = scheme, w_Host = host,
             w_CertManager = (if certFile \<noteq> [] \<and> keyFile \<noteq> [] then Some (certFile, keyFile) else None) \<rparr>))"

section \<open>Metrics\<close>

definition Subsystem :: string where
  "Subsystem = ''kube_api_rewriter''"

fun vec_name :: "metric_vec \<Rightarrow> string" where
  "vec_name clientRequestsTotal = Subsystem @ ''_client_requests_total''"
| "vec_name targetResponsesTotal = Subsystem @ ''_target_responses_total''"
| "vec_name targetResponseInvalidJSONTotal = Subsystem @ ''_target_response_invalid_json_total''"
| "vec_name requestsHandledTotal = Subsystem @ ''_requests_handled_total''"
| "vec_name requestHandlingDurationSeconds = Subsystem @ ''_request_handling_duration_seconds''"
| "vec_name rewritesTotal = Subsystem @ ''_rewrites_total''"
| "vec_name rewritesDurationSeconds = Subsystem @ ''_rewrite_duration_seconds''"
| "vec_name fromClientBytes = Subsystem @ ''_from_client_bytes_total''"
| "vec_name toTargetBytes = Subsystem @ ''_to_target_bytes_total''"
| "vec_name fromTargetBytes = Subsystem @ ''_from_target_bytes_total''"
| "vec_name toClientBytes = Subsystem @ ''_to_client_bytes_total''"

text \<open>\<^verbatim>\<open>MustRegister\<close> panics at the first collector that is refused.\<close>

fun MustRegister :: "'c applib \<Rightarrow> collector list \<Rightarrow> collector list \<Rightarrow> collector list option" where
  "MustRegister A reg [] = Some reg"
| "MustRegister A reg (c # cs) = (if al_Registers A reg c then MustRegister A (reg @ [c]) cs else None)"

definition metrics_Init :: "'c applib \<Rightarrow> collector list \<Rightarrow> collector list option" where
  "metrics_Init A reg = MustRegister A reg [BuildInfoCollector, GoCollector, ProcessCollector]"

definition RegisterAllMetrics :: "'c applib \<Rightarrow> collector list \<Rightarrow> collector list option" where
  "RegisterAllMetrics A reg =
     (case metrics_Init A reg of None \<Rightarrow> None | Some reg \<Rightarrow> MustRegister A reg (map Vec RegisterMetrics))"

definition metrics_NewHandler :: "'c applib \<Rightarrow> collector list \<Rightarrow> ResponseWriter \<Rightarrow> http_request \<Rightarrow> ResponseWriter" where
  "metrics_NewHandler A reg = al_HandlerFor A reg"

section \<open>Servers\<close>

datatype 'c root_handler = MonitoringRoot "'c Middleware option" | PprofRoot | ProxyRoot Handler

record 'c AppServer =
  srv_http :: HTTPServer
  srv_root :: "'c root_handler"
  srv_CertManager :: "(string \<times> string) option"

definition new_server :: "string \<Rightarrow> string \<Rightarrow> (string \<times> string) option \<Rightarrow> HTTPServer" where
  "new_server desc lAddr certs = \<lparr> InstanceDesc = desc, ListenAddr = lAddr,
     CertManager = map_option (\<lambda>_. \<lparr> ch_started = False, ch_stopped = False \<rparr>) certs, Err = None, stopped = False, instanced = False \<rparr>"

definition CreateMonitoringServer :: "'c applib \<Rightarrow> AppSettings \<Rightarrow> Kubernetes \<Rightarrow> 'c AppServer" where
  "CreateMonitoringServer A settings config =
     (let lAddr = (if as_MonitoringBindAddress settings = [] then DefaultMonitoringBindAddress else as_MonitoringBindAddress settings) in
      \<lparr> srv_http = new_server ''Monitoring handlers'' lAddr None,
        srv_root = MonitoringRoot (map_option (NewMiddlewareFromKubeClient (al_cache A) (k_KubeClient config)) (as_MonitoringAuth settings)),
        srv_CertManager = None \<rparr>)"

definition CreatePprofServer :: "AppSettings \<Rightarrow> 'c AppServer option" where
  "CreatePprofServer settings =
     (if as_PprofBindAddress settings = [] then None
      else Some \<lparr> srv_http = new_server ''Pprof'' (as_PprofBindAddress settings) None, srv_root = PprofRoot, srv_CertManager = None \<rparr>)"

definition CreateClientProxy :: "AppSettings \<Rightarrow> RewriteRules \<Rightarrow> Kubernetes \<Rightarrow> 'c AppServer option" where
  "CreateClientProxy settings rules config =
     (if as_ClientProxy settings = ''no'' then None
      else (let lAddr = ConstructListenAddr (as_ClientProxyAddress settings) (as_ClientProxyPort settings) loopbackAddr defaultAPIClientProxyPort;
                proxyHandler = h_Init \<lparr> h_Name = ''kube-api'', h_TargetScheme = k_Scheme config, h_TargetHost = k_Host config,
                  h_ProxyMode = ToRenamed, h_Rules = rules, h_MetricsProvider = None \<rparr>
            in Some \<lparr> srv_http = new_server ''API Client proxy'' lAddr None, srv_root = ProxyRoot proxyHandler, srv_CertManager = None \<rparr>))"

definition CreateWebhookProxy :: "'c applib \<Rightarrow> AppSettings \<Rightarrow> RewriteRules \<Rightarrow> 'c AppServer option res" where
  "CreateWebhookProxy A settings rules =
     (if wt_Address (as_WebhookTargetSettings settings) = [] then Inr None
      else res_bind (NewWebhookTarget A (as_WebhookTargetSettings settings)) (\<lambda>config.
        let lAddr = ConstructListenAddr (as_WebhookProxyAddress settings) (as_WebhookProxyPort settings) anyAddr defaultWebhookProxyPort;
            proxyHandler = h_Init \<lparr> h_Name = ''webhook'', h_TargetScheme = w_Scheme config, h_TargetHost = w_Host config,
              h_ProxyMode = ToOriginal, h_Rules = rules, h_MetricsProvider = None \<rparr>
        in Inr (Some \<lparr> srv_http = new_server ''Webhook proxy'' lAddr (w_CertManager config), srv_root = ProxyRoot proxyHandler, srv_CertManager = w_CertManager config \<rparr>)))"

record 'c HTTPServers =
  hs_Monitoring :: "'c AppServer option"
  hs_Pprof :: "'c AppServer option"
  hs_ClientProxy :: "'c AppServer option"
  hs_WebhookProxy :: "'c AppServer option"

datatype run_result = ExitCode nat | Panic

text \<open>The last loop, with the errors of the servers of the group in their order; nil servers are not in the group.\<close>

fun exit_loop :: "'c AppServer option list \<Rightarrow> (nat \<Rightarrow> error option) \<Rightarrow> nat \<Rightarrow> nat \<Rightarrow> run_result" where
  "exit_loop [] errs i exitCode = ExitCode exitCode"
| "exit_loop (None # servers) errs i exitCode = Panic"
| "exit_loop (Some srv # servers) errs i exitCode = exit_loop servers errs (i + 1) (if errs i \<noteq> None then 1 else exitCode)"

definition RunServers :: "'c applib \<Rightarrow> 'c HTTPServers \<Rightarrow> run_result" where
  "RunServers A httpServers =
     (if hs_ClientProxy httpServers = None \<and> hs_WebhookProxy httpServers = None then ExitCode 0
      else (let servers = [hs_ClientProxy httpServers, hs_WebhookProxy httpServers, hs_Monitoring httpServers, hs_Pprof httpServers];
                group = map srv_http (List.map_filter id servers)
            in exit_loop servers (\<lambda>i. Err (snd (g_servers (al_run A group) ! i))) 0 0))"

record process =
  ps_log :: log_handler
  ps_registry :: "collector list"

definition SetupLogging :: "AppSettings \<Rightarrow> process \<Rightarrow> process" where
  "SetupLogging settings ps = ps\<lparr> ps_log := SetupDefaultLoggerFromEnv
     \<lparr> lo_Level = as_LogLevel settings, lo_Format = as_LogFormat settings, lo_Output = as_LogOutput settings \<rparr> (ps_log ps) \<rparr>"

definition app_Start :: "'c applib \<Rightarrow> AppSettings \<Rightarrow> RewriteRules option \<Rightarrow> process \<Rightarrow> process \<times> run_result" where
  "app_Start A settings rewriteRules ps =
     (let ps = SetupLogging settings ps in
      case rewriteRules of
        None \<Rightarrow> (ps, ExitCode 1)
      | Some rules \<Rightarrow>
          (let rules = rr_Init rules in
           case RegisterAllMetrics A (ps_registry ps) of
             None \<Rightarrow> (ps, Panic)
           | Some reg \<Rightarrow>
               (let ps = ps\<lparr> ps_registry := reg \<rparr> in
                case NewKubernetesTarget A of
                  Inl _ \<Rightarrow> (ps, ExitCode 1)
                | Inr config \<Rightarrow>
                    (case CreateWebhookProxy A settings rules of
                      Inl _ \<Rightarrow> (ps, ExitCode 1)
                    | Inr webhookProxy \<Rightarrow>
                        (ps, RunServers A \<lparr> hs_Monitoring = Some (CreateMonitoringServer A settings config), hs_Pprof = CreatePprofServer settings,
                          hs_ClientProxy = CreateClientProxy settings rules config, hs_WebhookProxy = webhookProxy \<rparr>)))))"

definition StartFromEnv :: "'c applib \<Rightarrow> environ \<Rightarrow> RewriteRules option \<Rightarrow> process \<Rightarrow> process \<times> run_result" where
  "StartFromEnv A e rewriteRules ps =
     (case SettingsFromEnv A e of Inl _ \<Rightarrow> (ps, ExitCode 1) | Inr settings \<Rightarrow> app_Start A settings rewriteRules ps)"

section \<open>Monitoring endpoints\<close>

text \<open>The multiplexer of \<^verbatim>\<open>net/http\<close>: a pattern that ends in a slash covers its subtree, the longest wins.\<close>

definition pattern_matches :: "string \<Rightarrow> string \<Rightarrow> bool" where
  "pattern_matches pat path \<longleftrightarrow> path = pat \<or> (pat \<noteq> [] \<and> last pat = CHR ''/'' \<and> HasPrefix path pat)"

definition mux_find :: "(string \<times> 'h) list \<Rightarrow> string \<Rightarrow> 'h option" where
  "mux_find mux path =
     (case fold (\<lambda>(pat, h) best. if pattern_matches pat path \<and> (case best of None \<Rightarrow> True | Some (b, _) \<Rightarrow> length b < length pat)
        then Some (pat, h) else best) mux None of
       None \<Rightarrow> None | Some (_, h) \<Rightarrow> Some h)"

definition okStatusHandler :: "ResponseWriter \<Rightarrow> ResponseWriter" where
  "okStatusHandler w = fst (rw_Write (WriteHeader w 200) ''ok'')"

datatype monitoring_route = HealthRoute | MetricsRoute

definition AddHealthzHandler :: "(string \<times> monitoring_route) list \<Rightarrow> (string \<times> monitoring_route) list" where
  "AddHealthzHandler mux = mux @ [(''/healthz'', HealthRoute), (''/healthz/'', HealthRoute), (''/readyz'', HealthRoute), (''/readyz/'', HealthRoute)]"

definition AddMetricsHandler :: "(string \<times> monitoring_route) list \<Rightarrow> (string \<times> monitoring_route) list" where
  "AddMetricsHandler mux = mux @ [(''/metrics'', MetricsRoute)]"

text \<open>The root handler of the monitoring server; the flag says whether the metrics were written.\<close>

definition monitoring_ServeHTTP ::
    "'c Middleware option \<Rightarrow> (ResponseWriter \<Rightarrow> http_request \<Rightarrow> ResponseWriter) \<Rightarrow> nat \<Rightarrow> 'c \<Rightarrow> ResponseWriter \<Rightarrow> http_request \<Rightarrow> 'c \<times> ResponseWriter \<times> bool" where
  "monitoring_ServeHTTP mw metricsHandler now cache w r =
     (case mux_find (AddMetricsHandler (AddHealthzHandler [])) (case req_URL r of Some u \<Rightarrow> url_Path u | None \<Rightarrow> []) of
       None \<Rightarrow> (cache, http_Error w ''404 page not found'' 404, False)
     | Some HealthRoute \<Rightarrow> (cache, okStatusHandler w, False)
     | Some MetricsRoute \<Rightarrow>
         (case mw of
           None \<Rightarrow> (cache, metricsHandler w r, True)
         | Some m \<Rightarrow> mw_Handler m metricsHandler now cache w r))"

definition NewPprofHandler :: "(string \<times> string) list" where
  "NewPprofHandler = [(''/debug/pprof/'', ''Index''), (''/debug/pprof/cmdline'', ''Cmdline''), (''/debug/pprof/profile'', ''Profile''),
     (''/debug/pprof/symbol'', ''Symbol''), (''/debug/pprof/trace'', ''Trace'')]"

section \<open>Lemmas\<close>

lemma exit_loop_all:
  "exit_loop servers errs i exitCode =
     (if None \<in> set servers then Panic
      else ExitCode (if \<exists>j < length servers. errs (i + j) \<noteq> None then 1 else exitCode))"
proof (induction servers arbitrary: i exitCode)
  case (Cons s servers)
  have "(\<exists>j < length (s # servers). errs (i + j) \<noteq> None) \<longleftrightarrow> errs i \<noteq> None \<or> (\<exists>j < length servers. errs (Suc i + j) \<noteq> None)"
    by (auto simp: less_Suc_eq_0_disj)
  with Cons show ?case by (cases s) auto
qed simp

lemma mux_find_in:
  assumes "mux_find mux path = Some h"
  shows "\<exists>pat. (pat, h) \<in> set mux \<and> pattern_matches pat path"
proof -
  define pick where "pick = (\<lambda>(pat, h :: 'a) best. if pattern_matches pat path \<and>
    (case best of None \<Rightarrow> True | Some (b, _) \<Rightarrow> length b < length pat) then Some (pat, h) else best)"
  have "fold pick mux best = Some (pat, h) \<Longrightarrow> best = Some (pat, h) \<or> (pat, h) \<in> set mux \<and> pattern_matches pat path" for best pat
  proof (induction mux arbitrary: best)
    case (Cons a mux)
    have "pick a best = best \<or> pattern_matches (fst a) path \<and> pick a best = Some a"
      by (simp add: pick_def split: prod.split)
    moreover have "pick a best = Some (pat, h) \<or> (pat, h) \<in> set mux \<and> pattern_matches pat path"
      using Cons.IH [of "pick a best"] Cons.prems by simp
    ultimately show ?case by auto
  qed simp
  moreover obtain pat where "fold pick mux None = Some (pat, h)"
    using assms by (auto simp: mux_find_def pick_def split: option.splits)
  ultimately show ?thesis by blast
qed

lemma mux_health:
  assumes "path \<in> {''/healthz'', ''/readyz''} \<or> HasPrefix path ''/healthz/'' \<or> HasPrefix path ''/readyz/''"
  shows "mux_find (AddMetricsHandler (AddHealthzHandler [])) path = Some HealthRoute"
proof -
  have "path = ''/healthz'' \<or> path = ''/readyz'' \<or> (\<exists>t. path = ''/healthz/'' @ t) \<or> (\<exists>t. path = ''/readyz/'' @ t)"
    using assms unfolding HasPrefix_iff by blast
  then show ?thesis
    by (elim disjE exE; simp only:; simp add: mux_find_def AddMetricsHandler_def AddHealthzHandler_def pattern_matches_def HasPrefix_def)
qed

lemma mux_metrics: "mux_find (AddMetricsHandler (AddHealthzHandler [])) path = Some MetricsRoute \<longleftrightarrow> path = ''/metrics''"
proof
  assume "mux_find (AddMetricsHandler (AddHealthzHandler [])) path = Some MetricsRoute"
  from mux_find_in [OF this] show "path = ''/metrics''"
    by (auto simp: AddMetricsHandler_def AddHealthzHandler_def pattern_matches_def)
qed (simp add: mux_find_def AddMetricsHandler_def AddHealthzHandler_def pattern_matches_def HasPrefix_def)

section \<open>Properties\<close>

definition started :: "'c HTTPServers \<Rightarrow> HTTPServer list" where
  "started S = map srv_http (List.map_filter id [hs_ClientProxy S, hs_WebhookProxy S, hs_Monitoring S, hs_Pprof S])"

text \<open>
  C38. The exit code: with no proxy configured the program ends with 0. Otherwise it dereferences a nil
  server after the group has stopped whenever one of the four servers is not configured; with
  all four it exits with 1 exactly when the run of the group left one of them with an error.
\<close>

theorem run_servers_exit:
  assumes "(rg_step Listen)\<^sup>*\<^sup>* (fresh_group (started S)) (al_run A (started S))" and "g_phase (al_run A (started S)) = Done"
  shows "RunServers A S =
     (if hs_ClientProxy S = None \<and> hs_WebhookProxy S = None then ExitCode 0
      else if hs_ClientProxy S = None \<or> hs_WebhookProxy S = None \<or> hs_Monitoring S = None \<or> hs_Pprof S = None then Panic
      else ExitCode (if list_ex (\<lambda>(_, s). Err s \<noteq> None) (g_servers (al_run A (started S))) then 1 else 0))"
proof (cases "None \<in> set [hs_ClientProxy S, hs_WebhookProxy S, hs_Monitoring S, hs_Pprof S]")
  case True
  then show ?thesis by (auto simp: RunServers_def exit_loop_all Let_def)
next
  case False
  then obtain a b c d where S: "hs_ClientProxy S = Some a" "hs_WebhookProxy S = Some b" "hs_Monitoring S = Some c" "hs_Pprof S = Some d"
    by (cases "hs_ClientProxy S"; cases "hs_WebhookProxy S"; cases "hs_Monitoring S"; cases "hs_Pprof S") auto
  then have "length (started S) = 4" by (simp add: started_def List.map_filter_def)
  then have "length (g_servers (al_run A (started S))) = 4" using reachable_length [OF assms(1)] by simp
  then show ?thesis
    using S by (auto simp: RunServers_def exit_loop_all Let_def started_def list_ex_length case_prod_beta numeral_eq_Suc)
qed

text \<open>
  In particular, started with an API server configuration and without \<^verbatim>\<open>PPROF_BIND_ADDRESS\<close>, the
  program ends in a panic once a server stops, errors or not, unless the client proxy is disabled.
\<close>

theorem start_without_pprof_panics:
  assumes "SettingsFromEnv A e = Inr settings" and "Getenv e PprofBindAddressEnv = []" and "Getenv e ClientProxyEnv \<noteq> ''no''"
    and "NewKubernetesTarget A = Inr config" and "CreateWebhookProxy A settings (rr_Init rules) = Inr webhook"
  shows "snd (StartFromEnv A e (Some rules) ps) = Panic"
proof -
  have "as_PprofBindAddress settings = []" "as_ClientProxy settings \<noteq> ''no''"
    using assms(1-3) by (auto simp: SettingsFromEnv_def res_bind_eq_Inr)
  then show ?thesis
    using assms(1,4,5) by (simp add: StartFromEnv_def app_Start_def RunServers_def exit_loop_all CreatePprofServer_def CreateClientProxy_def Let_def
      split: option.split)
qed

text \<open>
  The monitoring server writes the metrics only for the path \<^verbatim>\<open>/metrics\<close> and, when authorization is
  configured, only through the middleware; the probes answer with status 200 whatever is configured
  and without a request to the API server.
\<close>

theorem monitoring_routes:
  assumes "rw_head w = None" and "\<not> rw_broken w" and "req_URL r = Some u" and "monitoring_ServeHTTP mw h now c w r = (c', w', served)"
  shows "(served \<longrightarrow> url_Path u = ''/metrics'' \<and> (case mw of None \<Rightarrow> w' = h w r | Some m \<Rightarrow> mw_Handler m h now c w r = (c', w', True))) \<and>
    (url_Path u \<in> {''/healthz'', ''/readyz''} \<or> HasPrefix (url_Path u) ''/healthz/'' \<or> HasPrefix (url_Path u) ''/readyz/'' \<longrightarrow>
      c' = c \<and> rw_head w' = Some (200, rw_header w) \<and> rw_body w' = rw_body w @ ''ok'' \<and> \<not> served)"
proof (intro conjI impI)
  show "url_Path u = ''/metrics''" "case mw of None \<Rightarrow> w' = h w r | Some m \<Rightarrow> mw_Handler m h now c w r = (c', w', True)" if served
    using assms(3,4) that mux_metrics [of "url_Path u"]
    by (auto simp: monitoring_ServeHTTP_def split: option.splits monitoring_route.splits)
next
  assume "url_Path u \<in> {''/healthz'', ''/readyz''} \<or> HasPrefix (url_Path u) ''/healthz/'' \<or> HasPrefix (url_Path u) ''/readyz/''"
  from mux_health [OF this] show "c' = c" "rw_head w' = Some (200, rw_header w)" "rw_body w' = rw_body w @ ''ok''" "\<not> served"
    using assms by (auto simp: monitoring_ServeHTTP_def okStatusHandler_def rw_Write_def WriteHeader_def Let_def)
qed

text \<open>The requests the monitoring server handles, with the cache of its middleware.\<close>

inductive mon_reaches ::
    "'c Middleware \<Rightarrow> (ResponseWriter \<Rightarrow> http_request \<Rightarrow> ResponseWriter) \<Rightarrow> nat \<Rightarrow> 'c \<Rightarrow> bool"
  for m :: "'c Middleware" and h :: "ResponseWriter \<Rightarrow> http_request \<Rightarrow> ResponseWriter" where
  mon_initially: "mon_reaches m h 0 (cache_New (ta_cache (mw_authn m)))"
| mon_waits: "mon_reaches m h now c \<Longrightarrow> now \<le> now' \<Longrightarrow> mon_reaches m h now' c"
| mon_handles: "mon_reaches m h now c \<Longrightarrow> monitoring_ServeHTTP (Some m) h now c w r = (c', w', served) \<Longrightarrow> mon_reaches m h now c'"

lemma mon_reaches_reaches: "mon_reaches m h now c \<Longrightarrow> reaches m h now c"
proof (induction rule: mon_reaches.induct)
  case (mon_handles now c w r c' w' served)
  then show ?case
    by (auto simp: monitoring_ServeHTTP_def intro: reaches.handles split: option.splits monitoring_route.splits)
qed (auto intro: reaches.initially reaches.waits)

text \<open>
  C24. A program started with \<^verbatim>\<open>MONITORING_AUTH\<close> set never shows its metrics to a request that is not
  authorized: the settings are refused unless the value decodes to attributes that are all given,
  and the monitoring server built from them writes the metrics, whatever it has handled before, only
  for the path \<^verbatim>\<open>/metrics\<close> and a bearer token that was reviewed successfully less than two minutes before
  and whose user the API server allows the verb on these attributes now.
\<close>

theorem metrics_need_authorization:
  assumes "SettingsFromEnv A e = Inr settings" and "e ''MONITORING_AUTH'' = Some env" and "expiring_cache (al_cache A)"
    and "srv_root (CreateMonitoringServer A settings config) = MonitoringRoot mw"
  shows "\<exists>m attrs. mw = Some m \<and> al_Unmarshal A env = Inr attrs \<and>
    [] \<notin> {ra_Group attrs, ra_Version attrs, ra_Resource attrs, ra_Namespace attrs, ra_Name attrs, ra_Subresource attrs} \<and>
    (\<forall>now c w u r c' w'. mon_reaches m (metrics_NewHandler A reg) now c \<and> rw_head w = None \<and> \<not> rw_broken w \<and> req_URL r = Some u \<and>
       monitoring_ServeHTTP mw (metrics_NewHandler A reg) now c w r = (c', w', True) \<longrightarrow>
       url_Path u = ''/metrics'' \<and> w' = al_HandlerFor A reg w r \<and>
       (\<exists>t user reason. t \<le> now \<and> now < t + 120 \<and> extractBearerToken r \<noteq> [] \<and> reviewed (k_KubeClient config) t (extractBearerToken r) user \<and>
          SubjectAccessReviews_Create (k_KubeClient config) now (access_review user (httpMethodToVerb (req_Method r)) attrs) = Inr (True, reason)))"
proof -
  from assms(1,2) obtain attrs where a: "al_Unmarshal A env = Inr attrs" "ra_Validate attrs = None" "as_MonitoringAuth settings = Some attrs"
    by (auto simp: SettingsFromEnv_def monitoringAuthFromEnv_def MonitoringAuthEnv_def res_bind_eq_Inr split: sum.splits option.splits)
  let ?m = "NewMiddlewareFromKubeClient (al_cache A) (k_KubeClient config) attrs"
  from assms(4) a(3) have m: "mw = Some ?m" by (simp add: CreateMonitoringServer_def Let_def)
  have v: "[] \<notin> {ra_Group attrs, ra_Version attrs, ra_Resource attrs, ra_Namespace attrs, ra_Name attrs, ra_Subresource attrs}"
    using a(2) by (auto simp: ra_Validate_def split: if_splits)
  show ?thesis
  proof (rule exI [of _ ?m], rule exI [of _ attrs], intro conjI allI impI m a(1) v)
    fix now c w u r c' w'
    assume r: "mon_reaches ?m (metrics_NewHandler A reg) now c \<and> rw_head w = None \<and> \<not> rw_broken w \<and> req_URL r = Some u \<and>
      monitoring_ServeHTTP mw (metrics_NewHandler A reg) now c w r = (c', w', True)"
    then have s: "url_Path u = ''/metrics''" "mw_Handler ?m (metrics_NewHandler A reg) now c w r = (c', w', True)"
      using monitoring_routes [of w r u mw "metrics_NewHandler A reg" now c c' w' True] m by auto
    show "url_Path u = ''/metrics''" by (rule s)
    from mw_Handler_served [OF assms(3) refl mon_reaches_reaches _ s(2)] r
    show "w' = al_HandlerFor A reg w r"
      "\<exists>t user reason. t \<le> now \<and> now < t + 120 \<and> extractBearerToken r \<noteq> [] \<and> reviewed (k_KubeClient config) t (extractBearerToken r) user \<and>
        SubjectAccessReviews_Create (k_KubeClient config) now (access_review user (httpMethodToVerb (req_Method r)) attrs) = Inr (True, reason)"
      by (auto simp: metrics_NewHandler_def)
  qed
qed

text \<open>
  Registration: with a registry that refuses a collector only if it shares a metric name with a collector
  it has, where the collectors of the library do not use the subsystem, the names of the program do not
  clash, and starting from an empty registry nothing panics.
\<close>

lemma vec_name_inj: "vec_name v = vec_name v' \<longleftrightarrow> v = v'"
  by (cases v; cases v') (simp_all add: Subsystem_def)

lemma MustRegister_distinct:
  assumes "\<And>reg c. (\<forall>d \<in> set reg. names c \<inter> names d = {}) \<Longrightarrow> al_Registers A reg c"
  shows "\<forall>c \<in> set cs. \<forall>d \<in> set reg. names c \<inter> names d = {} \<Longrightarrow> pairwise (\<lambda>c d. names c \<inter> names d = {}) (set cs) \<Longrightarrow> distinct cs \<Longrightarrow>
    MustRegister A reg cs = Some (reg @ cs)"
proof (induction cs arbitrary: reg)
  case (Cons c cs)
  then have "al_Registers A reg c" by (intro assms) simp
  moreover have "MustRegister A (reg @ [c]) cs = Some ((reg @ [c]) @ cs)"
    using Cons.prems by (intro Cons.IH) (auto simp: pairwise_def)
  ultimately show ?case by simp
qed simp

lemma all_metrics_registered:
  assumes "\<And>reg c. (\<forall>d \<in> set reg. names c \<inter> names d = {}) \<Longrightarrow> al_Registers A reg c"
    and "\<And>v. names (Vec v) = {vec_name v}" and "\<And>v. vec_name v \<notin> names BuildInfoCollector \<union> names GoCollector \<union> names ProcessCollector"
    and "names BuildInfoCollector \<inter> names GoCollector = {}" "names BuildInfoCollector \<inter> names ProcessCollector = {}"
      "names GoCollector \<inter> names ProcessCollector = {}"
  shows "RegisterAllMetrics A [] = Some ([BuildInfoCollector, GoCollector, ProcessCollector] @ map Vec RegisterMetrics)"
proof -
  have "metrics_Init A [] = Some [BuildInfoCollector, GoCollector, ProcessCollector]"
    using MustRegister_distinct [of names A "[BuildInfoCollector, GoCollector, ProcessCollector]" "[]"] assms(1,4-6)
    by (auto simp: metrics_Init_def pairwise_insert Int_commute)
  moreover have "distinct (map Vec RegisterMetrics)" by (simp add: RegisterMetrics_def)
  then have "MustRegister A [BuildInfoCollector, GoCollector, ProcessCollector] (map Vec RegisterMetrics) =
    Some ([BuildInfoCollector, GoCollector, ProcessCollector] @ map Vec RegisterMetrics)"
    using assms(2,3) by (intro MustRegister_distinct [of names] assms(1)) (auto simp: pairwise_def vec_name_inj)
  ultimately show ?thesis by (simp add: RegisterAllMetrics_def)
qed

section \<open>A concrete environment\<close>

definition sample_applib :: "(string \<times> UserInfo \<times> nat) list applib" where
  "sample_applib = \<lparr> al_Unmarshal = (\<lambda>_. Inl (Errorf ''json'')), al_ParseURL = (\<lambda>s. Inr (''https'', s)), al_GetConfig = Inr ''10.0.0.1:6443'',
     al_NewForConfig = (\<lambda>_. Inr sample_reviews), al_HTTPClientFor = (\<lambda>_. Inr ()), al_cache = list_cache,
     al_Registers = (\<lambda>reg c. c \<notin> set reg), al_HandlerFor = (\<lambda>reg. scrape), al_run = (\<lambda>servers. fresh_group servers) \<rparr>"

definition sample_environ :: environ where
  "sample_environ = (\<lambda>k. None)"

definition sample_process :: process where
  "sample_process = \<lparr> ps_log = \<lparr> hn_Format = TextLog, hn_Output = Stderr, hn_Level = LevelInfo \<rparr>, ps_registry = [] \<rparr>"

definition sample_servers :: "(string \<times> UserInfo \<times> nat) list HTTPServers" where
  "sample_servers = (let s = \<lparr> srv_http = new_server ''Pprof'' ''127.0.0.1:6060'' None, srv_root = PprofRoot, srv_CertManager = None \<rparr> in
     \<lparr> hs_Monitoring = Some s, hs_Pprof = Some s, hs_ClientProxy = Some s, hs_WebhookProxy = Some s \<rparr>)"

theorem run_servers_exit_witness:
  "\<exists>A :: (string \<times> UserInfo \<times> nat) list applib. (rg_step (\<lambda>_. None))\<^sup>*\<^sup>* (fresh_group (started sample_servers)) (al_run A (started sample_servers)) \<and>
     RunServers A sample_servers = ExitCode (if list_ex (\<lambda>(_, s). Err s \<noteq> None) (g_servers (al_run A (started sample_servers))) then 1 else 0)"
proof -
  have "g_servers (fresh_group (started sample_servers)) \<noteq> []"
    using fresh_group_servers [of "started sample_servers"] by (simp add: sample_servers_def started_def List.map_filter_def Let_def)
  then obtain g where g: "(rg_step (\<lambda>_. None))\<^sup>*\<^sup>* (fresh_group (started sample_servers)) g" "g_phase g = Done"
    using group_run_exists by blast
  with run_servers_exit [of "\<lambda>_. None" sample_servers "sample_applib\<lparr> al_run := \<lambda>_. g \<rparr>"]
  show ?thesis by (intro exI [of _ "sample_applib\<lparr> al_run := \<lambda>_. g \<rparr>"]) (simp add: sample_servers_def Let_def)
qed

theorem start_without_pprof_panics_witness:
  "snd (StartFromEnv sample_applib sample_environ (Some sample_rules) sample_process) = Panic"
proof -
  have e: "Getenv sample_environ k = []" for k
    by (simp add: Getenv_def sample_environ_def)
  have w: "WebhookTargetSettingsFromEnv sample_environ = \<lparr> wt_Address = [], wt_ServerName = [], wt_CertFileName = [], wt_KeyFileName = [] \<rparr>"
    by (simp add: WebhookTargetSettingsFromEnv_def e)
  obtain settings where s: "SettingsFromEnv sample_applib sample_environ = Inr settings" "wt_Address (as_WebhookTargetSettings settings) = []"
    by (simp add: SettingsFromEnv_def monitoringAuthFromEnv_def sample_environ_def w [unfolded sample_environ_def])
  have "NewKubernetesTarget sample_applib = Inr \<lparr> k_Scheme = ''https'', k_Host = ''10.0.0.1:6443'', k_KubeClient = sample_reviews \<rparr>"
    by (simp add: NewKubernetesTarget_def sample_applib_def)
  moreover have "CreateWebhookProxy sample_applib settings (rr_Init sample_rules) = Inr None"
    by (simp add: CreateWebhookProxy_def s(2))
  ultimately show ?thesis
    using s(1) start_without_pprof_panics [OF s(1)] e by simp
qed

definition scrape_at :: "string \<Rightarrow> string \<Rightarrow> http_request" where
  "scrape_at path t = (bearer t)\<lparr> req_URL := Some \<lparr> url_Path = path, url_RawQuery = [], url_Scheme = [], url_Host = [] \<rparr> \<rparr>"

theorem monitoring_routes_witness:
  "\<exists>c' w'. monitoring_ServeHTTP (Some sample_middleware) scrape 100 sample_cache (fresh_writer []) (scrape_at ''/metrics'' ''good'') = (c', w', True) \<and>
     mw_Handler sample_middleware scrape 100 sample_cache (fresh_writer []) (scrape_at ''/metrics'' ''good'') = (c', w', True)"
proof -
  obtain c' w' served where m: "monitoring_ServeHTTP (Some sample_middleware) scrape 100 sample_cache (fresh_writer []) (scrape_at ''/metrics'' ''good'') = (c', w', served)"
    by (cases "monitoring_ServeHTTP (Some sample_middleware) scrape 100 sample_cache (fresh_writer []) (scrape_at ''/metrics'' ''good'')")
  have "snd (snd (monitoring_ServeHTTP (Some sample_middleware) scrape 100 sample_cache (fresh_writer []) (scrape_at ''/metrics'' ''good'')))"
    by code_simp
  with m have served by simp
  have "req_URL (scrape_at ''/metrics'' ''good'') = Some \<lparr> url_Path = ''/metrics'', url_RawQuery = [], url_Scheme = [], url_Host = [] \<rparr>"
    by (simp add: scrape_at_def)
  from monitoring_routes [OF _ _ this m] m \<open>served\<close> show ?thesis by (simp add: fresh_writer_def)
qed

theorem metrics_need_authorization_witness:
  "\<exists>c' w'. monitoring_ServeHTTP (Some sample_middleware) scrape 0 [] (fresh_writer []) (scrape_at ''/metrics'' ''good'') = (c', w', True) \<and>
     (\<exists>user. reviewed sample_reviews 0 ''good'' user)"
proof -
  let ?A = "sample_applib\<lparr> al_Unmarshal := \<lambda>_. Inr (mw_attrs sample_middleware) \<rparr>" and ?e = "sample_environ(''MONITORING_AUTH'' := Some [])"
    and ?k = "\<lparr> k_Scheme = [], k_Host = [], k_KubeClient = sample_reviews \<rparr>" and ?r = "scrape_at ''/metrics'' ''good''"
  have "monitoringAuthFromEnv ?A ?e = Inr (Some (mw_attrs sample_middleware))"
    by (simp add: monitoringAuthFromEnv_def MonitoringAuthEnv_def ra_Validate_def sample_middleware_def new_middleware_defs)
  then obtain settings where s: "SettingsFromEnv ?A ?e = Inr settings" "as_MonitoringAuth settings = Some (mw_attrs sample_middleware)"
    by (simp add: SettingsFromEnv_def)
  have mw: "srv_root (CreateMonitoringServer ?A settings ?k) = MonitoringRoot (Some sample_middleware)"
    by (simp add: CreateMonitoringServer_def Let_def s(2) sample_applib_def sample_middleware_def new_middleware_defs)
  obtain c' w' served where q: "monitoring_ServeHTTP (Some sample_middleware) scrape 0 [] (fresh_writer []) ?r = (c', w', served)"
    by (cases "monitoring_ServeHTTP (Some sample_middleware) scrape 0 [] (fresh_writer []) ?r")
  have t: "snd (snd (monitoring_ServeHTTP (Some sample_middleware) scrape 0 [] (fresh_writer []) ?r))" "extractBearerToken ?r = ''good''"
    by code_simp+
  have h: "metrics_NewHandler ?A reg = scrape" for reg by (simp add: metrics_NewHandler_def sample_applib_def)
  have m: "mon_reaches sample_middleware scrape 0 []"
    using mon_initially [of sample_middleware scrape] by (simp add: sample_middleware_def list_cache_def new_middleware_defs)
  have u: "rw_head (fresh_writer []) = None" "\<not> rw_broken (fresh_writer [])"
    "req_URL ?r = Some \<lparr> url_Path = ''/metrics'', url_RawQuery = [], url_Scheme = [], url_Host = [] \<rparr>"
    by (simp_all add: fresh_writer_def scrape_at_def)
  have "expiring_cache (al_cache ?A)" using list_cache.expiring_cache_axioms by (simp add: sample_applib_def)
  from metrics_need_authorization [OF s(1) fun_upd_same this mw, where reg = "[]", unfolded h] obtain m' attrs where
    n: "Some sample_middleware = Some m'"
    "\<forall>now c w u r c' w'. mon_reaches m' scrape now c \<and> rw_head w = None \<and> \<not> rw_broken w \<and> req_URL r = Some u \<and>
       monitoring_ServeHTTP (Some sample_middleware) scrape now c w r = (c', w', True) \<longrightarrow>
       url_Path u = ''/metrics'' \<and> w' = al_HandlerFor ?A [] w r \<and>
       (\<exists>t user reason. t \<le> now \<and> now < t + 120 \<and> extractBearerToken r \<noteq> [] \<and> reviewed (k_KubeClient ?k) t (extractBearerToken r) user \<and>
          SubjectAccessReviews_Create (k_KubeClient ?k) now (access_review user (httpMethodToVerb (req_Method r)) attrs) = Inr (True, reason))"
    by (elim exE conjE)
  have "m' = sample_middleware" "served" using n(1) q t(1) by simp_all
  with n(2) [rule_format, OF conjI, OF _ conjI, OF _ _ conjI, OF _ _ _ conjI, OF _ u(1,2,3)] m q t(2)
  have "\<exists>t user. t \<le> 0 \<and> reviewed sample_reviews t ''good'' user" by fastforce
  with q \<open>served\<close> show ?thesis by auto
qed

end
