(* ===== verification/Entry_Point.thy ===== *)
theory Entry_Point
  imports App
begin

text \<open>
  The program itself, \<^verbatim>\<open>cmd/kube-api-rewriter/main.go\<close>, with the rules it is built with, and the loading of
  rules from a file, \<^verbatim>\<open>rewriter/load.go\<close>.

  Reading a file and decoding YAML are parameters. The fields of the rules that \<^verbatim>\<open>Init\<close> sets are nil
  before it; they hold the rewriter of no rules here.

  Shown: the rules of the program are consistent, so that every theorem about initialised rules applies
  to it, and the handlers that the application starts have them in the right mode; creating a
  resource of the program's kind through its client proxy reaches the server renamed and comes back as sent.
\<close>

section \<open>Model\<close>

definition no_replace :: MetadataReplace where
  "no_replace = \<lparr> mr_Prefixes = [], mr_Names = [] \<rparr>"

definition zero_rules :: RewriteRules where
  "zero_rules =
     \<lparr> rr_KindPrefix = [], rr_ResourceTypePrefix = [], rr_ShortNamePrefix = [], rr_Categories = None, rr_Rules = [],
       rr_Webhooks = Map.empty, rr_Labels = no_replace, rr_Annotations = no_replace, rr_Finalizers = no_replace, rr_Excludes = [],
       rr_labelsRewriter = NewPrefixedNameRewriter no_replace, rr_annotationsRewriter = NewPrefixedNameRewriter no_replace,
       rr_finalizersRewriter = NewPrefixedNameRewriter no_replace, rr_apiGroupsIndex = NewMapIndexer \<rparr>"

definition exampleRules :: RewriteRules where
  "exampleRules = zero_rules\<lparr>
     rr_KindPrefix := ''InternalResource'', rr_ResourceTypePrefix := ''internalresource'', rr_ShortNamePrefix := ''intres'',
     rr_Categories := Some [''intres''],
     rr_Rules := [(''some.crd.group.io'',
       \<lparr> ag_GroupRule = \<lparr> gr_Group = ''some.crd.group.io'', gr_Versions = [''v1beta1''], gr_PreferredVersion = ''v1beta1'',
            gr_Renamed = ''some.internalresource.renamedgroup.io'' \<rparr>,
         ag_ResourceRules = [(''someconfigs'',
           \<lparr> rs_Kind = ''SomeConfig'', rs_ListKind = ''SomeConfigList'', rs_Plural = ''someconfigs'', rs_Singular = ''someconfig'',
             rs_ShortNames = [], rs_Categories = Some [], rs_Versions = [''v1beta1''], rs_PreferredVersion = ''v1beta1'' \<rparr>)] \<rparr>)] \<rparr>"

definition main :: "'c applib \<Rightarrow> environ \<Rightarrow> process \<Rightarrow> process \<times> run_result" where
  "main A e ps = StartFromEnv A e (Some exampleRules) ps"

record loadlib =
  os_ReadFile :: "string \<Rightarrow> string res"
  yaml_Unmarshal :: "string \<Rightarrow> RewriteRules \<Rightarrow> RewriteRules res"

definition LoadRules :: "loadlib \<Rightarrow> string \<Rightarrow> RewriteRules res" where
  "LoadRules Y filename =
     res_bind (os_ReadFile Y filename) (\<lambda>data.
     res_bind (yaml_Unmarshal Y data zero_rules) (\<lambda>rules. Inr rules))"

section \<open>Requests for custom resources\<close>

lemma Trim_slashes:
  assumes "p \<noteq> []" and "hd p \<noteq> c" and "last p \<noteq> c"
  shows "Trim (c # p) c = p"
proof -
  obtain a q where p: "p = a # q" "a \<noteq> c" using assms(1,2) by (cases p) auto
  obtain b r where r: "rev p = b # r" "b \<noteq> c" using assms(1,3) by (metis hd_rev list.exhaust_sel rev_is_Nil_conv)
  from p r show ?thesis by (simp add: Trim_def) (metis rev_rev_ident dropWhile_eq_Cons_conv rev.simps(2) dropWhile.simps(2))
qed

definition collection_path :: "string \<Rightarrow> string \<Rightarrow> string \<Rightarrow> string \<Rightarrow> string" where
  "collection_path g v ns r = ''/apis/'' @ g @ ''/'' @ v @ ''/namespaces/'' @ ns @ ''/'' @ r"

definition segment :: "string \<Rightarrow> bool" where
  "segment s \<longleftrightarrow> s \<noteq> [] \<and> CHR ''/'' \<notin> set s"

lemma parse_collection:
  assumes "segment g" "segment v" "segment ns" "segment r"
  shows "ParseAPIEndpoint \<lparr> url_Path = collection_path g v ns r, url_RawQuery = [] \<rparr> =
    empty_endpoint\<lparr> Prefix := ''apis'', Group := g, Version := v, Namespace := ns, ResourceType := r, RawPath := collection_path g v ns r \<rparr>"
proof -
  let ?items = "[''apis'', g, v, ''namespaces'', ns, r]" and ?p = "''apis/'' @ g @ ''/'' @ v @ ''/namespaces/'' @ ns @ ''/'' @ r"
  have "last r \<noteq> CHR ''/''" using assms(4) last_in_set by (force simp: segment_def)
  then have t: "Trim (collection_path g v ns r) (CHR ''/'') = ?p"
    using Trim_slashes [of ?p "CHR ''/''"] assms(4) by (simp add: collection_path_def segment_def)
  have "?p = Join ?items ''/''" by simp
  then have s: "Split ?p (CHR ''/'') = ?items" using Split_Join [of ?items "CHR ''/''"] assms by (simp add: segment_def)
  have f: "\<not> Contains [] ''watch=true''" by code_simp
  show ?thesis
    unfolding ParseAPIEndpoint_def Let_def URL.simps t s
    by (simp add: parseAPIsEndpoint_def Let_def split_crd_name_def empty_endpoint_def f)
qed

lemma collection_request:
  assumes "rules_ready rr" and "rr_Webhooks rr (collection_path g v ns r) = None" and "g \<in> set (group_names rr)" "[] \<notin> set (renamed_names rr)"
    and "rr_ResourceRules rr g r \<noteq> None" and "segment g" "segment v" "segment ns" "segment r"
  shows "\<exists>tr. NewTargetRequest S rr (Some \<lparr> url_Path = collection_path g v ns r, url_RawQuery = [] \<rparr>) = Some tr \<and>
    tr_Path tr = collection_path (rr_RenameApiVersion rr g) v ns (rr_ResourceTypePrefix rr @ r) \<and>
    tr_ShouldRewriteRequest tr \<and> tr_ShouldRewriteResponse tr \<and> \<not> tr_IsWatch tr"
proof -
  let ?ep = "ParseAPIEndpoint \<lparr> url_Path = collection_path g v ns r, url_RawQuery = [] \<rparr>"
  note ep = parse_collection [OF assms(6-9)]
  have q: "\<not> Contains [] ''labelSelector''" by code_simp
  have ne: "g \<noteq> []" "r \<noteq> []" "ns \<noteq> []" "v \<noteq> []" using assms(6-9) by (simp_all add: segment_def)
  obtain gr where "rr_GroupRule rr g = Some gr" using rr_GroupRule_iff [OF assms(1)] assms(3) by auto
  moreover obtain x where x: "rr_ResourceRules rr g r = Some x" using assms(5) by blast
  moreover have n: "rr_RenameApiVersion rr g \<noteq> []"
    using rename_group_known [OF assms(1,3)] assms(4) by metis
  ultimately have e: "RewriteAPIEndpoint S rr ?ep = Some (?ep\<lparr> Group := rr_RenameApiVersion rr g, ResourceType := rr_ResourceTypePrefix rr @ r \<rparr>)"
    using ne q by (simp add: ep RewriteAPIEndpoint_def rewriteCRApiEndpoint_def empty_endpoint_def Let_def rr_RenameResource_def)
  have t: "NewTargetRequest S rr (Some \<lparr> url_Path = collection_path g v ns r, url_RawQuery = [] \<rparr>) =
    Some \<lparr> originEndpoint = Some ?ep, targetEndpoint = RewriteAPIEndpoint S rr ?ep, webhookRule = None \<rparr>"
    using assms(2) by (simp add: NewTargetRequest_def rr_WebhookRule_def Let_def)
  show ?thesis
    unfolding t e unfolding ep using ne n
    by (simp add: tr_Path_def ae_Path_def tr_ShouldRewriteRequest_def tr_ShouldRewriteResponse_def tr_IsWatch_def empty_endpoint_def
      collection_path_def Let_def)
qed

section \<open>The rules of the program\<close>

lemma example_wf: "rules_wf exampleRules" and example_text: "rules_text exampleRules" and example_replaces: "replaces_wf (rr_Init exampleRules)"
  by code_simp+

lemma example_ready: "rules_ready (rr_Init exampleRules)"
  by (rule rules_ready_Init [OF example_wf example_text])

lemma example_excludes:
  "rr_Excludes (rr_Init exampleRules) = [\<lparr> ex_Kinds = [''SomeConfig'', ''SomeConfigList''], ex_MatchNames = [], ex_MatchLabels = [] \<rparr>]"
  by code_simp

lemma example_transparent:
  assumes "client_payload (rr_Init exampleRules) j" and "jtext_at j [''kind''] = ''SomeConfig''" and "exclude_typed (j_payload (rr_Init exampleRules) Rename j)"
  shows "transparent (rr_Init exampleRules) j"
proof -
  have c: "known_kind (rr_Init exampleRules) ''SomeConfig''" "single_custom ''SomeConfig''"
    "rr_RenameKind (rr_Init exampleRules) ''SomeConfig'' = ''InternalResourceSomeConfig''" "single_custom ''InternalResourceSomeConfig''" by code_simp+
  have "\<not> excluded (rr_Init exampleRules) ''InternalResourceSomeConfig'' i" for i
    by (simp add: excluded_def example_excludes excluded_by_def)
  with assms c show ?thesis by (simp add: transparent_def)
qed


text \<open>
  C7. The program as it is shipped: a \<^verbatim>\<open>SomeConfig\<close> posted to its client proxy in any namespace is sent to
  the API server as an \<^verbatim>\<open>InternalResourceSomeConfig\<close> under the renamed group, with the fitting length;
  when the server answers with what it got, the client gets the resource it posted.
\<close>

theorem example_program_roundtrip:
  assumes "json_library (env_json E) D V" and "as_ClientProxy settings \<noteq> ''no''"
    and "CreateClientProxy settings (rr_Init exampleRules) config = Some srv" and "srv_root srv = ProxyRoot h"
    and "client_payload (rr_Init exampleRules) j" and "jtext_at j [''kind''] = ''SomeConfig''" and "exclude_typed (j_payload (rr_Init exampleRules) Rename j)"
    and "req_Method req = ''POST''" and "req_Body req = Some (Body cs None)" and "doc D (Some (concat cs)) j" and "segment ns" and "req_URL req = Some url"
    and "URL.truncate url = \<lparr> url_Path = collection_path ''some.crd.group.io'' ''v1beta1'' ns ''someconfigs'', url_RawQuery = [] \<rparr>"
    and "\<And>r bd. req_Body r = Some bd \<Longrightarrow> Do r = Inr (resp\<lparr> resp_Body := bd \<rparr>, reads r)" and "plain_encoding resp" and "ready_writer w"
  shows "\<exists>r u y b sent. oc_sent (ServeHTTP E h Do w (Some req)) = Some r \<and> req_URL r = Some u \<and>
    url_Path u = collection_path ''some.internalresource.renamedgroup.io'' ''v1beta1'' ns ''internalresourcesomeconfigs'' \<and>
    req_Body r = Some (NewReader y) \<and> D y = Some sent \<and> jtext_at sent [''kind''] = ''InternalResourceSomeConfig'' \<and> req_ContentLength r = int (length y) \<and>
    answered (oc_writer (ServeHTTP E h Do w (Some req))) (resp_StatusCode resp) b \<and> D b = Some j"
proof -
  let ?rr = "rr_Init exampleRules" and ?g = "''some.crd.group.io''"
  have h: "h_Rules h = ?rr" "h_ProxyMode h = ToRenamed"
    using assms(3,4) by (auto simp: CreateClientProxy_def h_Init_def Let_def split: if_splits)
  have c: "?g \<in> set (group_names ?rr)" "[] \<notin> set (renamed_names ?rr)" "rr_ResourceRules ?rr ?g ''someconfigs'' \<noteq> None" "segment ?g"
    "segment ''v1beta1''" "segment ''someconfigs''" "rr_RenameApiVersion ?rr ?g = ''some.internalresource.renamedgroup.io''"
    "rr_ResourceTypePrefix ?rr @ ''someconfigs'' = ''internalresourcesomeconfigs''"
    "rr_RenameKind ?rr ''SomeConfig'' = ''InternalResourceSomeConfig''" by code_simp+
  have "rr_Webhooks ?rr p = None" for p
    by (simp add: rr_Init_def exampleRules_def zero_rules_def Let_def)
  with collection_request [OF example_ready _ c(1-5) assms(11) c(6), of "env_selectors E"] c(7,8)
  obtain tr where tr: "NewTargetRequest (env_selectors E) (h_Rules h) (Some (URL.truncate url)) = Some tr"
    "tr_Path tr = collection_path ''some.internalresource.renamedgroup.io'' ''v1beta1'' ns ''internalresourcesomeconfigs''"
    "tr_ShouldRewriteRequest tr" "tr_ShouldRewriteResponse tr" "\<not> tr_IsWatch tr"
    unfolding h(1) assms(13) by auto
  have "client_resource ?rr j" using assms(5) by (simp add: client_payload_def)
  then have "is_object j" using client_resource_ok by (simp add: resource_ok_def)
  then have k: "jtext_at (j_payload ?rr Rename j) [''kind''] = ''InternalResourceSomeConfig''"
    using jtext_kind_payload(1) c(9) assms(6) by simp
  have m: "req_Method req \<noteq> ''PATCH''" using assms(8) by simp
  from create_roundtrip [where Do = Do and reads = reads and resp = resp, OF assms(1) example_ready [folded h(1)] example_replaces [folded h(1)] h(2)
      example_transparent [OF assms(5-7), folded h(1)] assms(9,10,12) tr(1,3-5) m assms(14-16)]
  obtain r u y b where "oc_sent (ServeHTTP E h Do w (Some req)) = Some r" "req_URL r = Some u" "url_Path u = tr_Path tr"
    "req_Body r = Some (NewReader y)" "D y = Some (j_payload (h_Rules h) Rename j)" "req_ContentLength r = int (length y)"
    "answered (oc_writer (ServeHTTP E h Do w (Some req))) (resp_StatusCode resp) b" "D b = Some j"
    by blast
  with k tr(2) h(1) show ?thesis by (intro exI conjI) simp_all
qed

section \<open>The program on a concrete input\<close>

definition sample_settings :: AppSettings where
  "sample_settings =
     \<lparr> as_ClientProxy = [], as_ClientProxyAddress = [], as_ClientProxyPort = [], as_WebhookProxyAddress = [], as_WebhookProxyPort = [],
       as_WebhookTargetSettings = \<lparr> wt_Address = ''https://127.0.0.1:9443'', wt_ServerName = [], wt_CertFileName = ''tls.crt'', wt_KeyFileName = ''tls.key'' \<rparr>,
       as_LogLevel = [], as_LogFormat = [], as_LogOutput = [], as_MonitoringBindAddress = [], as_MonitoringAuth = None, as_PprofBindAddress = [] \<rparr>"

definition sample_config :: Kubernetes where
  "sample_config = \<lparr> k_Scheme = ''https'', k_Host = ''10.0.0.1:6443'', k_KubeClient = sample_reviews \<rparr>"


definition some_config :: rj where
  "some_config = RObj [(''apiVersion'', RStr ''some.crd.group.io/v1beta1''), (''kind'', RStr ''SomeConfig''),
     (''metadata'', RObj [(''name'', RStr ''n''), (''annotations'', RObj [(''app'', RStr ''v'')])])]"

lemma some_config_client: "client_payload (rr_Init exampleRules) (rj_abs some_config)"
proof -
  have "\<not> rr_IsRenamedGroup (rr_Init exampleRules) ''some.crd.group.io/v1beta1''" "name_survives (rr_annotationsRewriter (rr_Init exampleRules)) ''app'' ''v''"
    by code_simp+
  then show ?thesis
    by (simp add: client_payload_def client_resource_def client_version_def client_metadata_def client_map_def no_clash_def
      has_array_def items_at_def some_config_def split: if_splits)
qed

theorem example_program_roundtrip_witness:
  "\<exists>(srv :: (string \<times> UserInfo \<times> nat) list AppServer) h b. CreateClientProxy sample_settings (rr_Init exampleRules) sample_config = Some srv \<and> srv_root srv = ProxyRoot h \<and>
     answered (oc_writer (ServeHTTP ref_env h echo (fresh_writer [])
       (Some (sample_http ''POST'' (collection_path ''some.crd.group.io'' ''v1beta1'' ''n'' ''someconfigs'') (Some (print some_config)))))) 200 b \<and>
     ref_D b = Some (rj_abs some_config)"
proof -
  let ?p = "collection_path ''some.crd.group.io'' ''v1beta1'' ''n'' ''someconfigs''" and ?j = "rj_abs some_config"
  let ?req = "sample_http ''POST'' ?p (Some (print some_config))"
  obtain srv :: "(string \<times> UserInfo \<times> nat) list AppServer" and h where s: "CreateClientProxy sample_settings (rr_Init exampleRules) sample_config = Some srv" "srv_root srv = ProxyRoot h"
    by (simp add: CreateClientProxy_def sample_settings_def Let_def)
  have c: "rj_ok some_config" "segment ''n''" by code_simp+
  have t: "exclude_typed (j_payload (rr_Init exampleRules) Rename ?j)" "jtext_at ?j [''kind''] = ''SomeConfig''"
    by (simp_all add: exclude_typed_def j_payload_def some_config_def j_resource_object j_object_member at_object_def j_array_member
      j_metadata_object at_map_def at_array_def has_text_def has_text_map_def jtext_at_def)
  have e: "echo r = Inr ((sample_answer [])\<lparr> resp_Body := bd \<rparr>, [])" if "req_Body r = Some bd" for r bd using that by (simp add: echo_def)
  have d: "doc ref_D (Some (concat [print some_config])) ?j" using ref_doc [OF c(1)] by simp
  have u: "URL.truncate (sample_url ?p) = \<lparr> url_Path = ?p, url_RawQuery = [] \<rparr>" by (simp add: sample_url_def URL.truncate_def)
  have j: "json_library (env_json ref_env) ref_D ref_V" using ref.json_library_axioms by simp
  have n: "as_ClientProxy sample_settings \<noteq> ''no''" by (simp add: sample_settings_def)
  from example_program_roundtrip [where E = ref_env and req = ?req and Do = echo and resp = "sample_answer []" and reads = "\<lambda>_. []" and w = "fresh_writer []",
      OF j n s some_config_client t(2,1) _ _ d c(2) _ u e] s
  show ?thesis by auto
qed

end
